theory Spec2Isabelle
  imports Main "HOL-Library.Word" "HOL-Library.Sublist" "HOL-Library.Multiset"
begin

section \<open>Data model: the OCI runtime configuration (specs-go)\<close>

text \<open>
  The converter in \<open>libsysbox/syscont/spec.go\<close> works on the structs of the OCI
  runtime-spec Go bindings.  Go pointers that the code dereferences are options here
  (\<open>None\<close> is the nil pointer), and a slice whose nil-ness the code tests is an
  optional list (\<open>None\<close> is the nil slice).
\<close>

type_synonym u32 = "32 word"

record Mount =
  Destination :: string
  MountType :: string
  Source :: string
  Options :: "string list"

record LinuxNamespace =
  NsType :: string
  NsPath :: string

record LinuxIDMapping =
  ContainerID :: u32
  HostID :: u32
  Size :: u32

datatype action = ActKill | ActTrap | ActErrno | ActTrace | ActAllow | ActLog

record LinuxSeccompArg =
  Index :: nat
  Value :: "64 word"
  ValueTwo :: "64 word"
  Op :: string

record LinuxSyscall =
  Names :: "string list option"
  Action :: action
  SyscallArgs :: "LinuxSeccompArg list"

record LinuxSeccomp =
  DefaultAction :: action
  Architectures :: "string list"
  Syscalls :: "LinuxSyscall list"

record LinuxCapabilities =
  Bounding :: "string list"
  Effective :: "string list"
  Inheritable :: "string list"
  Permitted :: "string list"
  Ambient :: "string list"

record User =
  UID :: u32
  GID :: u32

record Process =
  Args :: "string list"
  Env :: "string list"
  ProcUser :: User
  Capabilities :: "LinuxCapabilities option"
  ApparmorProfile :: string
  OOMScoreAdj :: "int option"

record Root =
  RootPath :: string
  Readonly :: bool

record Linux =
  Namespaces :: "LinuxNamespace list"
  UIDMappings :: "LinuxIDMapping list"
  GIDMappings :: "LinuxIDMapping list"
  MaskedPaths :: "string list"
  ReadonlyPaths :: "string list"
  Seccomp :: "LinuxSeccomp option"

record Spec =
  SpecRoot :: "Root option"
  SpecProcess :: "Process option"
  SpecLinux :: "Linux option"
  Mounts :: "Mount list"

subsection \<open>Errors and panics\<close>

text \<open>
  Every \<open>fmt.Errorf\<close> of the converter is a constructor.  A Go run-time panic (nil
  dereference, index or slice bound out of range) is not an error value the caller
  receives, so it is kept apart from the errors.
\<close>

datatype error =
    NotLinuxContainerSpec
  | StatSysboxNetnsFailed string
  | StatPathFailed string string
  | HostNetnsShared
  | MissingNamespaces "string list"
  | SubidAllocFailed string
  | MissingIDMappings
  | NonContiguousIDMappings
  | BadUidRange
  | BadGidRange
  | NonMatchingIDMappings
  | UidMapsHostRoot
  | GidMapsHostRoot
  | UnsupportedSeccompDefaultAction
  | External string
  | Wrapped string error

datatype panic = NilDereference | IndexOutOfRange | SliceBoundsOutOfRange

datatype failure = Err error | Panic panic

type_synonym 'a result = "failure + 'a"


section \<open>Collaborators and library functions\<close>

text \<open>
  The manager daemon (\<open>sysbox.Mgr\<close>) and the filesystem virtualizer (\<open>sysbox.Fs\<close>)
  are handed to the converter as objects; their remote calls are fields of the record,
  returning an error message or the answer.
\<close>

record MountPrepInfo =
  PrepSource :: string
  Exclusive :: bool

record MountReqInfo =
  Kind :: string
  Dest :: string

record Mgr =
  MgrEnabled :: bool
  ConfigUserns :: string
  ConfigUidMappings :: "LinuxIDMapping list"
  ConfigGidMappings :: "LinuxIDMapping list"
  ReqSubid :: "u32 \<Rightarrow> string + (u32 \<times> u32)"
  PrepMounts :: "u32 \<Rightarrow> u32 \<Rightarrow> MountPrepInfo list \<Rightarrow> string option"
  ReqMounts :: "string \<Rightarrow> u32 \<Rightarrow> u32 \<Rightarrow> bool \<Rightarrow> MountReqInfo list \<Rightarrow> string + Mount list"

record Fs =
  FsEnabled :: bool
  Mountpoint :: string
  FsId :: string

text \<open>
  What the converter takes from outside its own file: the two syscall tables and
  \<open>sortMounts\<close> of package \<open>syscont\<close> (other files of the package), the operating
  system (\<open>unix.Stat\<close>, reduced to device and inode), \<open>path/filepath\<close>,
  \<open>sysbox.CheckUidShifting\<close>, \<open>utils.GetEnvVarInfo\<close>, and the order in which Go
  enumerates a set or a map (\<open>setIter\<close>, \<open>mapIter\<close>: unspecified by the language,
  so parameters).
\<close>

record Env =
  syscontSyscallWhitelist :: "string list"
  syscontSyscallAllowRestrList :: "string list"
  setIter :: "string list \<Rightarrow> string list"
  sortMounts :: "Mount list \<Rightarrow> Mount list"
  unixStat :: "string \<Rightarrow> string + (nat \<times> nat)"
  filepathAbs :: "string \<Rightarrow> string + string"
  filepathJoin :: "string \<Rightarrow> string \<Rightarrow> string"
  CheckUidShifting :: "Spec \<Rightarrow> string + (bool \<times> bool)"
  mapIter :: "(string \<times> string) list \<Rightarrow> (string \<times> string) list"
  GetEnvVarInfo :: "string \<Rightarrow> string + (string \<times> string)"

subsection \<open>Slice helpers of \<open>sysbox-libs/utils\<close> and \<open>strings\<close>\<close>

definition HasPrefix :: "string \<Rightarrow> string \<Rightarrow> bool" where
  "HasPrefix s p = prefix p s"

text \<open>
  Modelled from the spec: \<open>utils.StringSliceContains\<close>, \<open>utils.StringSliceRemove\<close>,
  \<open>utils.MountSliceRemove\<close> (package \<open>sysbox-libs/utils\<close>) are not part of the source
  files at hand.  The spec has them remove from the first slice every element that
  occurs in (is matched by an element of) the second, keeping the order of the rest.
\<close>

definition StringSliceContains :: "string list \<Rightarrow> string \<Rightarrow> bool" where
  "StringSliceContains s x = (x \<in> set s)"

definition StringSliceRemove :: "string list \<Rightarrow> string list \<Rightarrow> string list" where
  "StringSliceRemove s db = filter (\<lambda>x. x \<notin> set db) s"

definition MountSliceRemove :: "Mount list \<Rightarrow> Mount list \<Rightarrow> (Mount \<Rightarrow> Mount \<Rightarrow> bool) \<Rightarrow> Mount list" where
  "MountSliceRemove s db cmp = filter (\<lambda>m. \<not> list_ex (cmp m) db) s"

subsection \<open>Sets of strings (\<open>golang-set\<close>)\<close>

text \<open>
  A \<open>mapset.Set\<close> of strings is a duplicate-free list; only \<open>Iter\<close> exposes an order,
  and that order is \<open>setIter\<close> of the environment.
\<close>

definition NewSetOf :: "string list \<Rightarrow> string list" where
  "NewSetOf xs = remdups xs"

definition Difference :: "string list \<Rightarrow> string list \<Rightarrow> string list" where
  "Difference a b = filter (\<lambda>x. x \<notin> set b) a"

definition Union :: "string list \<Rightarrow> string list \<Rightarrow> string list" where
  "Union a b = remdups (a @ b)"

definition Contains :: "string list \<Rightarrow> string \<Rightarrow> bool" where
  "Contains s x = (x \<in> set s)"

definition IsSubset :: "string list \<Rightarrow> string list \<Rightarrow> bool" where
  "IsSubset a b = list_all (\<lambda>x. x \<in> set b) a"

section \<open>Seccomp reconciliation: \<open>cfgSeccomp\<close>\<close>

abbreviation ArchX86_64 :: string where
  "ArchX86_64 \<equiv> ''SCMP_ARCH_X86_64''"

definition namesOf :: "LinuxSyscall \<Rightarrow> string list" where
  "namesOf sc = (case Names sc of None \<Rightarrow> [] | Some ns \<Rightarrow> ns)"

text \<open>The categorising loop: the names of all entries with the given action.\<close>

definition namesWithAction :: "action \<Rightarrow> LinuxSyscall list \<Rightarrow> string list" where
  "namesWithAction a scs = NewSetOf (concat (map (\<lambda>sc. if Action sc = a then namesOf sc else []) scs))"

text \<open>
  The blacklist branch removes names while ranging over the same slice:
  \<^verbatim>\<open>for i, scName := range sc.Names {
      if diffSet.Contains(scName) { sc.Names = append(sc.Names[:i], sc.Names[i+1:]...) } }\<close>
  The range clause fixes the number of rounds at the original length and reads element
  \<open>i\<close> of the shared backing array in round \<open>i\<close>; the \<open>append\<close> shifts the tail of
  the live part one place down inside that array and shortens \<open>sc.Names\<close>.  The state
  is the backing array (as long as the original slice) and the current length.
  \<open>sc.Names[i+1:]\<close> panics once \<open>i + 1\<close> exceeds the current length.
\<close>

fun removeStep :: "string list \<Rightarrow> (string list \<times> nat) result \<Rightarrow> nat \<Rightarrow> (string list \<times> nat) result" where
  "removeStep D (Inl f) i = Inl f"
| "removeStep D (Inr (buf, n)) i =
     (if Contains D (buf ! i) then
        (if n < i + 1 then Inl (Panic SliceBoundsOutOfRange)
         else Inr (take i buf @ take (n - (i + 1)) (drop (i + 1) buf) @ drop (n - 1) buf, n - 1))
      else Inr (buf, n))"

definition removeNames :: "string list \<Rightarrow> string list \<Rightarrow> string list result" where
  "removeNames D ns =
     (case foldl (removeStep D) (Inr (ns, length ns)) [0..<length ns] of
        Inl f \<Rightarrow> Inl f
      | Inr (buf, n) \<Rightarrow> Inr (take n buf))"

text \<open>
  An entry is kept when \<open>sc.Names != nil\<close>: a nil slice stays nil (the loop does not
  run), a non-nil one stays non-nil however many names were removed.
\<close>

fun removeDiffSet :: "string list \<Rightarrow> LinuxSyscall list \<Rightarrow> LinuxSyscall list result" where
  "removeDiffSet D [] = Inr []"
| "removeDiffSet D (sc # scs) =
     (case Names sc of
        None \<Rightarrow> removeDiffSet D scs
      | Some ns \<Rightarrow>
          (case removeNames D ns of
             Inl f \<Rightarrow> Inl f
           | Inr ns' \<Rightarrow>
               (case removeDiffSet D scs of
                  Inl f \<Rightarrow> Inl f
                | Inr r \<Rightarrow> Inr (sc\<lparr>Names := Some ns'\<rparr> # r))))"

text \<open>
  The last loop of the whitelist branch, for one entry: each name outside the
  restrictions-allowed list clears the entry's arguments.
\<close>

definition stripArgs :: "string list \<Rightarrow> LinuxSyscall \<Rightarrow> LinuxSyscall" where
  "stripArgs R sc =
     fold (\<lambda>name s. if \<not> StringSliceContains R name then s\<lparr>SyscallArgs := []\<rparr> else s) (namesOf sc) sc"

definition cfgSeccomp :: "Env \<Rightarrow> LinuxSeccomp option \<Rightarrow> LinuxSeccomp option result" where
  "cfgSeccomp e seccomp =
     (case seccomp of
        None \<Rightarrow> Inr None
      | Some sec \<Rightarrow>
          if \<not> list_ex (\<lambda>arch. arch = ArchX86_64) (Architectures sec) then Inr (Some sec)
          else if DefaultAction sec \<noteq> ActAllow \<and> DefaultAction sec \<noteq> ActErrno
                  \<and> DefaultAction sec \<noteq> ActKill
          then Inl (Err UnsupportedSeccompDefaultAction)
          else
            let allowSet = namesWithAction ActAllow (Syscalls sec);
                errnoSet = namesWithAction ActErrno (Syscalls sec);
                killSet = namesWithAction ActKill (Syscalls sec);
                syscontAllowSet = NewSetOf (syscontSyscallWhitelist e);
                whitelist = (DefaultAction sec = ActErrno \<or> DefaultAction sec = ActKill);
                diffSet = (if whitelist then Difference syscontAllowSet allowSet
                           else Difference (Union errnoSet killSet) syscontAllowSet)
            in if whitelist then
                 Inr (Some (sec\<lparr>Syscalls :=
                   map (stripArgs (syscontSyscallAllowRestrList e))
                     (Syscalls sec @
                      map (\<lambda>str. \<lparr>Names = Some [str], Action = ActAllow, SyscallArgs = []\<rparr>)
                        (setIter e diffSet))\<rparr>))
               else
                 (case removeDiffSet diffSet (Syscalls sec) of
                    Inl f \<Rightarrow> Inl f
                  | Inr newSyscalls \<Rightarrow> Inr (Some (sec\<lparr>Syscalls := newSyscalls\<rparr>))))"


section \<open>Sequencing fallible steps\<close>

definition andThen :: "'a result \<Rightarrow> ('a \<Rightarrow> 'b result) \<Rightarrow> 'b result" where
  "andThen r f = (case r of Inl x \<Rightarrow> Inl x | Inr a \<Rightarrow> f a)"

text \<open>\<open>fmt.Errorf("msg: %v", err)\<close> around a returned error; a panic is not caught.\<close>

definition wrapErr :: "string \<Rightarrow> 'a result \<Rightarrow> 'a result" where
  "wrapErr msg r =
     (case r of Inl (Err err) \<Rightarrow> Inl (Err (Wrapped msg err)) | Inl (Panic pn) \<Rightarrow> Inl (Panic pn) | Inr a \<Rightarrow> Inr a)"

text \<open>Reading through \<open>spec.Linux\<close>, \<open>spec.Root\<close>, \<open>spec.Process\<close>: nil panics.\<close>

definition derefLinux :: "Spec \<Rightarrow> Linux result" where
  "derefLinux spec = (case SpecLinux spec of None \<Rightarrow> Inl (Panic NilDereference) | Some l \<Rightarrow> Inr l)"

definition derefRoot :: "Spec \<Rightarrow> Root result" where
  "derefRoot spec = (case SpecRoot spec of None \<Rightarrow> Inl (Panic NilDereference) | Some r \<Rightarrow> Inr r)"

definition derefProcess :: "Process option \<Rightarrow> Process result" where
  "derefProcess p = (case p of None \<Rightarrow> Inl (Panic NilDereference) | Some pr \<Rightarrow> Inr pr)"

section \<open>Checks and namespaces\<close>

text \<open>
  The loop of \<open>checkSpec\<close> over the namespaces: the first network entry with a
  non-empty path is compared with the runtime's own network namespace, then \<open>break\<close>.
\<close>

fun checkNetNs :: "Env \<Rightarrow> LinuxNamespace list \<Rightarrow> unit result" where
  "checkNetNs e [] = Inr ()"
| "checkNetNs e (ns # rest) =
     (if NsType ns = ''network'' \<and> NsPath ns \<noteq> [] then
        (case unixStat e ''/proc/self/ns/net'' of
           Inl msg \<Rightarrow> Inl (Err (StatSysboxNetnsFailed msg))
         | Inr st1 \<Rightarrow>
             (case unixStat e (NsPath ns) of
                Inl msg \<Rightarrow> Inl (Err (StatPathFailed (NsPath ns) msg))
              | Inr st2 \<Rightarrow>
                  if fst st1 = fst st2 \<and> snd st1 = snd st2 then Inl (Err HostNetnsShared)
                  else Inr ()))
      else checkNetNs e rest)"

definition checkSpec :: "Env \<Rightarrow> Spec \<Rightarrow> unit result" where
  "checkSpec e spec =
     (case SpecRoot spec of
        None \<Rightarrow> Inl (Err NotLinuxContainerSpec)
      | Some _ \<Rightarrow>
          (case SpecLinux spec of
             None \<Rightarrow> Inl (Err NotLinuxContainerSpec)
           | Some l \<Rightarrow> checkNetNs e (Namespaces l)))"

definition allNs :: "string list" where
  "allNs = [''pid'', ''ipc'', ''uts'', ''mount'', ''network'', ''user'', ''cgroup'']"

definition reqNs :: "string list" where
  "reqNs = [''pid'', ''ipc'', ''uts'', ''mount'', ''network'']"

definition cfgNamespaces :: "Env \<Rightarrow> Mgr \<Rightarrow> Spec \<Rightarrow> Spec result" where
  "cfgNamespaces e sysMgr spec =
     andThen (derefLinux spec) (\<lambda>l.
       let allNsSet = NewSetOf allNs;
           reqNsSet = NewSetOf reqNs;
           specNsSet = NewSetOf (map NsType (Namespaces l))
       in if \<not> IsSubset reqNsSet specNsSet
          then Inl (Err (MissingNamespaces (Difference reqNsSet specNsSet)))
          else
            let addNsSet = Difference allNsSet specNsSet;
                nss = Namespaces l @ map (\<lambda>str. \<lparr>NsType = str, NsPath = []\<rparr>) (setIter e addNsSet);
                nss' = (if MgrEnabled sysMgr \<and> ConfigUserns sysMgr \<noteq> []
                        then map (\<lambda>ns. if NsType ns = ''user''
                                        then ns\<lparr>NsPath := ConfigUserns sysMgr\<rparr> else ns) nss
                        else nss)
            in Inr (spec\<lparr>SpecLinux := Some (l\<lparr>Namespaces := nss'\<rparr>)\<rparr>))"

section \<open>User and group ID mappings\<close>

definition IdRangeMin :: u32 where
  "IdRangeMin = 65536"

definition defaultUid :: u32 where
  "defaultUid = 231072"

definition defaultGid :: u32 where
  "defaultGid = 231072"

definition allocIDMappings :: "Mgr \<Rightarrow> Spec \<Rightarrow> Spec result" where
  "allocIDMappings sysMgr spec =
     andThen
       (if MgrEnabled sysMgr then
          (case ReqSubid sysMgr IdRangeMin of
             Inl msg \<Rightarrow> Inl (Err (SubidAllocFailed msg))
           | Inr ids \<Rightarrow> Inr ids)
        else Inr (defaultUid, defaultGid))
       (\<lambda>(uid, gid).
          andThen (derefLinux spec) (\<lambda>l.
            let uidMap = \<lparr>ContainerID = 0, HostID = uid, Size = IdRangeMin\<rparr>;
                gidMap = \<lparr>ContainerID = 0, HostID = gid, Size = IdRangeMin\<rparr>
            in Inr (spec\<lparr>SpecLinux := Some (l\<lparr>UIDMappings := UIDMappings l @ [uidMap],
                                                 GIDMappings := GIDMappings l @ [gidMap]\<rparr>)\<rparr>)))"

text \<open>
  Modelled from the spec: \<open>mergeIDMappings\<close> (package \<open>syscont\<close>, another file) is not
  part of the source files at hand.  The spec: sort by container id, then fold
  consecutive entries whose \<open>container_id + size\<close> meets the next entry's
  \<open>container_id\<close> and whose \<open>host_id + size\<close> meets the next entry's \<open>host_id\<close>; a list
  that does not reduce to one range is an error.  The fields are 32-bit unsigned, so
  the sums wrap.
\<close>

fun mergeFold :: "LinuxIDMapping \<Rightarrow> LinuxIDMapping \<Rightarrow> LinuxIDMapping list \<Rightarrow> LinuxIDMapping result" where
  "mergeFold merged prev [] = Inr merged"
| "mergeFold merged prev (cur # rest) =
     (if ContainerID cur \<noteq> ContainerID prev + Size prev then Inl (Err NonContiguousIDMappings)
      else if HostID cur \<noteq> HostID prev + Size prev then Inl (Err NonContiguousIDMappings)
      else mergeFold (merged\<lparr>Size := Size merged + Size cur\<rparr>) cur rest)"

definition mergeIDMappings :: "LinuxIDMapping list \<Rightarrow> LinuxIDMapping list result" where
  "mergeIDMappings idMaps =
     (case sort_key (\<lambda>m. unat (ContainerID m)) idMaps of
        [] \<Rightarrow> Inr []
      | first # rest \<Rightarrow>
          (case mergeFold first first rest of
             Inl f \<Rightarrow> Inl f
           | Inr merged \<Rightarrow> Inr [merged]))"

text \<open>Element 0 of a slice; Go panics on an empty one.\<close>

definition index0 :: "'a list \<Rightarrow> 'a result" where
  "index0 xs = (case xs of [] \<Rightarrow> Inl (Panic IndexOutOfRange) | x # _ \<Rightarrow> Inr x)"

text \<open>
  \<open>validateIDMappings\<close> stores the merged lists in the spec as it goes; a failed
  validation aborts the conversion, so only the spec of the successful path is returned.
\<close>

definition validateIDMappings :: "Spec \<Rightarrow> Spec result" where
  "validateIDMappings spec =
     andThen (derefLinux spec) (\<lambda>l.
       if length (UIDMappings l) = 0 \<or> length (GIDMappings l) = 0 then Inl (Err MissingIDMappings)
       else
         andThen (mergeIDMappings (UIDMappings l)) (\<lambda>uids.
         andThen (mergeIDMappings (GIDMappings l)) (\<lambda>gids.
         andThen (index0 uids) (\<lambda>uidMap.
         andThen (index0 gids) (\<lambda>gidMap.
           if ContainerID uidMap \<noteq> 0 \<or> Size uidMap < IdRangeMin then Inl (Err BadUidRange)
           else if ContainerID gidMap \<noteq> 0 \<or> Size gidMap < IdRangeMin then Inl (Err BadGidRange)
           else if HostID uidMap \<noteq> HostID gidMap then Inl (Err NonMatchingIDMappings)
           else if HostID uidMap = 0 then Inl (Err UidMapsHostRoot)
           else if HostID gidMap = 0 then Inl (Err GidMapsHostRoot)
           else Inr (spec\<lparr>SpecLinux := Some (l\<lparr>UIDMappings := uids, GIDMappings := gids\<rparr>)\<rparr>))))))"

definition cfgIDMappings :: "Mgr \<Rightarrow> Spec \<Rightarrow> Spec result" where
  "cfgIDMappings sysMgr spec =
     andThen (derefLinux spec) (\<lambda>l.
       let l1 = (if MgrEnabled sysMgr \<and> 0 < length (ConfigUidMappings sysMgr)
                 then l\<lparr>UIDMappings := ConfigUidMappings sysMgr\<rparr> else l);
           l2 = (if MgrEnabled sysMgr \<and> 0 < length (ConfigGidMappings sysMgr)
                 then l1\<lparr>GIDMappings := ConfigGidMappings sysMgr\<rparr> else l1);
           spec' = spec\<lparr>SpecLinux := Some l2\<rparr>
       in if length (UIDMappings l2) = 0 \<and> length (GIDMappings l2) = 0
          then allocIDMappings sysMgr spec'
          else validateIDMappings spec')"


section \<open>The package's tables\<close>

text \<open>
  \<open>sysboxMounts\<close>, \<open>sysboxFsMounts\<close>, \<open>sysboxSystemdMounts\<close> and \<open>SysboxFsDir\<close> are
  package-level variables that the converter assigns to, so they are state: a record
  that the mount functions take and return.  \<open>initGlobals\<close> holds their initial values
  (\<open>filepath.Join\<close> of the initial \<open>SysboxFsDir\<close> with each relative path written out).
\<close>

record Globals =
  sysboxMounts :: "Mount list"
  sysboxFsMounts :: "Mount list"
  sysboxSystemdMounts :: "Mount list"
  SysboxFsDir :: string

definition mkMount :: "string \<Rightarrow> string \<Rightarrow> string \<Rightarrow> string list \<Rightarrow> Mount" where
  "mkMount d s t os = \<lparr>Destination = d, MountType = t, Source = s, Options = os\<rparr>"

definition initSysboxMounts :: "Mount list" where
  "initSysboxMounts =
     [mkMount ''/sys'' ''sysfs'' ''sysfs'' [''noexec'', ''nosuid'', ''nodev''],
      mkMount ''/sys/fs/cgroup'' ''cgroup'' ''cgroup'' [''noexec'', ''nosuid'', ''nodev''],
      mkMount ''/sys/kernel/config'' ''tmpfs'' ''tmpfs''
        [''rw'', ''rprivate'', ''noexec'', ''nosuid'', ''nodev'', ''size=1m''],
      mkMount ''/sys/kernel/debug'' ''tmpfs'' ''tmpfs''
        [''rw'', ''rprivate'', ''noexec'', ''nosuid'', ''nodev'', ''size=1m''],
      mkMount ''/sys/kernel/tracing'' ''tmpfs'' ''tmpfs''
        [''rw'', ''rprivate'', ''noexec'', ''nosuid'', ''nodev'', ''size=1m''],
      mkMount ''/proc'' ''proc'' ''proc'' [''noexec'', ''nosuid'', ''nodev''],
      mkMount ''/dev'' ''tmpfs'' ''tmpfs'' [''nosuid'', ''strictatime'', ''mode=755'', ''size=65536k''],
      mkMount ''/dev/kmsg'' ''/dev/null'' ''bind'' [''rbind'', ''rprivate'']]"

definition initSysboxFsMounts :: "Mount list" where
  "initSysboxFsMounts =
     [mkMount ''/proc/sys'' ''/var/lib/sysboxfs/proc/sys'' ''bind'' [''rbind'', ''rprivate''],
      mkMount ''/proc/swaps'' ''/var/lib/sysboxfs/proc/swaps'' ''bind'' [''rbind'', ''rprivate''],
      mkMount ''/proc/uptime'' ''/var/lib/sysboxfs/proc/uptime'' ''bind'' [''rbind'', ''rprivate''],
      mkMount ''/sys/devices/virtual/dmi/id/product_uuid''
        ''/var/lib/sysboxfs/sys/devices/virtual/dmi/id/product_uuid'' ''bind'' [''rbind'', ''rprivate''],
      mkMount ''/sys/module/nf_conntrack/parameters/hashsize''
        ''/var/lib/sysboxfs/sys/module/nf_conntrack/parameters/hashsize'' ''bind''
        [''rbind'', ''rprivate'']]"

definition initSysboxSystemdMounts :: "Mount list" where
  "initSysboxSystemdMounts =
     [mkMount ''/run'' ''tmpfs'' ''tmpfs''
        [''rw'', ''rprivate'', ''nosuid'', ''nodev'', ''mode=755'', ''size=64m''],
      mkMount ''/run/lock'' ''tmpfs'' ''tmpfs''
        [''rw'', ''rprivate'', ''noexec'', ''nosuid'', ''nodev'', ''size=4m'']]"

definition initGlobals :: Globals where
  "initGlobals = \<lparr>sysboxMounts = initSysboxMounts, sysboxFsMounts = initSysboxFsMounts,
     sysboxSystemdMounts = initSysboxSystemdMounts, SysboxFsDir = ''/var/lib/sysboxfs''\<rparr>"

definition sysboxSystemdEnvVars :: "string list" where
  "sysboxSystemdEnvVars = [''container=private-users'']"

definition sysboxRwPaths :: "string list" where
  "sysboxRwPaths = [''/proc'', ''/proc/sys'']"

definition sysboxExposedPaths :: "string list" where
  "sysboxExposedPaths = [''/proc'', ''/proc/sys'', ''/proc/kcore'', ''/proc/kallsyms'', ''/proc/kmsg'']"

definition sysboxSystemdExposedPaths :: "string list" where
  "sysboxSystemdExposedPaths =
     [''/run'', ''/run/lock'', ''/tmp'', ''/sys/kernel/config'', ''/sys/kernel/debug'', ''/sys/kernel/tracing'']"

definition sysboxSystemdRwPaths :: "string list" where
  "sysboxSystemdRwPaths =
     [''/run'', ''/run/lock'', ''/tmp'', ''/sys/kernel/config'', ''/sys/kernel/debug'', ''/sys/kernel/tracing'']"

definition linuxCaps :: "string list" where
  "linuxCaps =
     [''CAP_CHOWN'', ''CAP_DAC_OVERRIDE'', ''CAP_FSETID'', ''CAP_FOWNER'', ''CAP_MKNOD'',
      ''CAP_NET_RAW'', ''CAP_SETGID'', ''CAP_SETUID'', ''CAP_SETFCAP'', ''CAP_SETPCAP'',
      ''CAP_NET_BIND_SERVICE'', ''CAP_SYS_CHROOT'', ''CAP_KILL'', ''CAP_AUDIT_WRITE'',
      ''CAP_DAC_READ_SEARCH'', ''CAP_LINUX_IMMUTABLE'', ''CAP_NET_BROADCAST'', ''CAP_NET_ADMIN'',
      ''CAP_IPC_LOCK'', ''CAP_IPC_OWNER'', ''CAP_SYS_MODULE'', ''CAP_SYS_RAWIO'', ''CAP_SYS_PTRACE'',
      ''CAP_SYS_PACCT'', ''CAP_SYS_ADMIN'', ''CAP_SYS_BOOT'', ''CAP_SYS_NICE'', ''CAP_SYS_RESOURCE'',
      ''CAP_SYS_TIME'', ''CAP_SYS_TTY_CONFIG'', ''CAP_LEASE'', ''CAP_AUDIT_CONTROL'',
      ''CAP_MAC_OVERRIDE'', ''CAP_MAC_ADMIN'', ''CAP_SYSLOG'', ''CAP_WAKE_ALARM'',
      ''CAP_BLOCK_SUSPEND'', ''CAP_AUDIT_READ'']"

section \<open>The init test, capabilities, paths\<close>

text \<open>\<open>p.Args[0] == "/sbin/init"\<close>: the index is not guarded.\<close>

definition systemdInit :: "Process option \<Rightarrow> bool result" where
  "systemdInit p =
     andThen (derefProcess p) (\<lambda>pr.
       andThen (index0 (Args pr)) (\<lambda>a0. Inr (a0 = ''/sbin/init'')))"

definition cfgCapabilities :: "Process option \<Rightarrow> Process result" where
  "cfgCapabilities p =
     andThen (derefProcess p) (\<lambda>pr.
       let uid = UID (ProcUser pr);
           noCaps = []
       in case Capabilities pr of
            None \<Rightarrow> Inl (Panic NilDereference)
          | Some caps \<Rightarrow>
              if uid = 0 then
                Inr (pr\<lparr>Capabilities := Some (caps\<lparr>Bounding := linuxCaps, Effective := linuxCaps,
                  Inheritable := linuxCaps, Permitted := linuxCaps, Ambient := linuxCaps\<rparr>)\<rparr>)
              else
                Inr (pr\<lparr>Capabilities := Some (caps\<lparr>Bounding := linuxCaps, Effective := noCaps,
                  Inheritable := noCaps, Permitted := noCaps, Ambient := noCaps\<rparr>)\<rparr>))"

definition cfgMaskedPaths :: "Spec \<Rightarrow> Spec result" where
  "cfgMaskedPaths spec =
     andThen (systemdInit (SpecProcess spec)) (\<lambda>sd.
     andThen (derefLinux spec) (\<lambda>l.
       let l1 = (if sd then l\<lparr>MaskedPaths := StringSliceRemove (MaskedPaths l) sysboxSystemdExposedPaths\<rparr>
                 else l)
       in Inr (spec\<lparr>SpecLinux :=
                 Some (l1\<lparr>MaskedPaths := StringSliceRemove (MaskedPaths l1) sysboxExposedPaths\<rparr>)\<rparr>)))"

definition cfgReadonlyPaths :: "Spec \<Rightarrow> Spec result" where
  "cfgReadonlyPaths spec =
     andThen (systemdInit (SpecProcess spec)) (\<lambda>sd.
     andThen (derefLinux spec) (\<lambda>l.
       let l1 = (if sd then l\<lparr>ReadonlyPaths := StringSliceRemove (ReadonlyPaths l) sysboxSystemdRwPaths\<rparr>
                 else l)
       in Inr (spec\<lparr>SpecLinux :=
                 Some (l1\<lparr>ReadonlyPaths := StringSliceRemove (ReadonlyPaths l1) sysboxRwPaths\<rparr>)\<rparr>)))"

definition cfgOomScoreAdj :: "Spec \<Rightarrow> Spec result" where
  "cfgOomScoreAdj spec =
     andThen (derefProcess (SpecProcess spec)) (\<lambda>pr.
       case OOMScoreAdj pr of
         None \<Rightarrow> Inr spec
       | Some adj \<Rightarrow>
           if adj < - 999 then Inr (spec\<lparr>SpecProcess := Some (pr\<lparr>OOMScoreAdj := Some (- 999)\<rparr>)\<rparr>)
           else Inr spec)"

definition cfgAppArmor :: "Process \<Rightarrow> Process result" where
  "cfgAppArmor p = Inr (p\<lparr>ApparmorProfile := []\<rparr>)"

text \<open>
  Modelled from the spec: \<open>utils.StringSliceRemoveMatch\<close> (package \<open>sysbox-libs/utils\<close>)
  is not part of the source files at hand; it removes the elements the predicate matches.
\<close>

definition StringSliceRemoveMatch :: "string list \<Rightarrow> (string \<Rightarrow> bool) \<Rightarrow> string list" where
  "StringSliceRemoveMatch s f = filter (\<lambda>x. \<not> f x) s"

definition cfgSystemdEnv :: "Env \<Rightarrow> Process \<Rightarrow> Process" where
  "cfgSystemdEnv e p =
     (let env1 = StringSliceRemoveMatch (Env p) (\<lambda>specEnvVar.
            case GetEnvVarInfo e specEnvVar of
              Inl _ \<Rightarrow> False
            | Inr (name, _) \<Rightarrow>
                list_ex (\<lambda>sysboxSysdEnvVar.
                   case GetEnvVarInfo e sysboxSysdEnvVar of
                     Inl _ \<Rightarrow> False
                   | Inr (sname, _) \<Rightarrow> name = sname) sysboxSystemdEnvVars)
      in p\<lparr>Env := env1 @ sysboxSystemdEnvVars\<rparr>)"

definition ConvertProcessSpec :: "Env \<Rightarrow> Process option \<Rightarrow> Process result" where
  "ConvertProcessSpec e p =
     andThen (cfgCapabilities p) (\<lambda>p1.
     andThen (wrapErr ''failed to configure AppArmor profile'' (cfgAppArmor p1)) (\<lambda>p2.
     andThen (systemdInit (Some p2)) (\<lambda>sd.
       if sd then Inr (cfgSystemdEnv e p2) else Inr p2)))"


section \<open>The mount planner\<close>

text \<open>\<open>utils.StringSliceRemove(m.Options, []string{"rw"})\<close> followed by \<open>append(..., "ro")\<close>.\<close>

definition makeReadonly :: "Mount \<Rightarrow> Mount" where
  "makeReadonly m = m\<lparr>Options := StringSliceRemove (Options m) [''rw''] @ [''ro'']\<rparr>"

definition cfgSysboxMounts :: "Globals \<Rightarrow> Spec \<Rightarrow> (Globals \<times> Spec) result" where
  "cfgSysboxMounts g spec =
     (let cgroupMounts = [mkMount ''/sys/fs/cgroup/'' [] [] []];
          mounts1 = MountSliceRemove (Mounts spec) cgroupMounts
                      (\<lambda>m1 m2. HasPrefix (Destination m1) (Destination m2));
          mounts2 = MountSliceRemove mounts1 (sysboxMounts g)
                      (\<lambda>m1 m2. Destination m1 = Destination m2)
      in andThen (derefRoot spec) (\<lambda>root.
           let g' = (if Readonly root
                     then g\<lparr>sysboxMounts :=
                            map (\<lambda>m. if HasPrefix (Destination m) ''/sys'' then makeReadonly m else m)
                              (sysboxMounts g)\<rparr>
                     else g)
           in Inr (g', spec\<lparr>Mounts := mounts2 @ sysboxMounts g'\<rparr>)))"

text \<open>\<open>strings.Replace(s, old, new, 1)\<close>: the first occurrence of \<open>old\<close> in \<open>s\<close>.\<close>

fun stringsReplace1 :: "string \<Rightarrow> string \<Rightarrow> string \<Rightarrow> string" where
  "stringsReplace1 [] old new = (if old = [] then new else [])"
| "stringsReplace1 (c # cs) old new =
     (if prefix old (c # cs) then new @ drop (length old) (c # cs)
      else c # stringsReplace1 cs old new)"

definition cfgSysboxFsMounts :: "Env \<Rightarrow> Globals \<Rightarrow> Fs \<Rightarrow> Spec \<Rightarrow> (Globals \<times> Spec) result" where
  "cfgSysboxFsMounts e g sysFs spec =
     (let mounts1 = MountSliceRemove (Mounts spec) (sysboxFsMounts g)
                      (\<lambda>m1 m2. Destination m1 = Destination m2);
          cntrMountpoint = filepathJoin e (Mountpoint sysFs) (FsId sysFs);
          fsMounts = map (\<lambda>m. m\<lparr>Source := stringsReplace1 (Source m) (SysboxFsDir g) cntrMountpoint\<rparr>)
                       (sysboxFsMounts g);
          g' = g\<lparr>sysboxFsMounts := fsMounts, SysboxFsDir := Mountpoint sysFs\<rparr>
      in andThen (derefRoot spec) (\<lambda>root.
           andThen (if Readonly root
                    then andThen (derefLinux spec) (\<lambda>l.
                           Inr (Some (l\<lparr>ReadonlyPaths := ReadonlyPaths l @ map Destination fsMounts\<rparr>)))
                    else Inr (SpecLinux spec))
             (\<lambda>lin. Inr (g', spec\<lparr>SpecLinux := lin, Mounts := mounts1 @ fsMounts\<rparr>))))"

definition cfgSystemdMounts :: "Globals \<Rightarrow> Spec \<Rightarrow> Globals \<times> Spec" where
  "cfgSystemdMounts g spec =
     (let mounts1 = MountSliceRemove (Mounts spec) (sysboxSystemdMounts g)
                      (\<lambda>m1 m2. Destination m1 = Destination m2 \<and> MountType m1 \<noteq> ''tmpfs'');
          sdMounts = MountSliceRemove (sysboxSystemdMounts g) mounts1
                       (\<lambda>m1 m2. Destination m1 = Destination m2 \<and> MountType m2 = ''tmpfs'')
      in (g\<lparr>sysboxSystemdMounts := sdMounts\<rparr>, spec\<lparr>Mounts := mounts1 @ sdMounts\<rparr>))"

text \<open>
  \<open>specialDir\<close> of \<open>sysMgrSetupMounts\<close>: a map from destination to kind, as an
  association list with distinct keys.
\<close>

definition specialDirInit :: "(string \<times> string) list" where
  "specialDirInit =
     [(''/var/lib/docker'', ''MntVarLibDocker''),
      (''/var/lib/kubelet'', ''MntVarLibKubelet''),
      (''/var/lib/rancher/k3s'', ''MntVarLibK3s''),
      (''/var/lib/containerd/io.containerd.snapshotter.v1.overlayfs'', ''MntVarLibContainerdOvfs'')]"

text \<open>
  One round of the loop that walks \<open>spec.Mounts\<close> from the last mount to the first,
  collecting the bind mounts over special directories and deleting their keys.
\<close>

definition prepStep :: "Mount \<Rightarrow> MountPrepInfo list \<times> (string \<times> string) list \<Rightarrow> MountPrepInfo list \<times> (string \<times> string) list" where
  "prepStep m st =
     (case st of (prepList, specialDir) \<Rightarrow>
        if MountType m = ''bind'' \<and> Destination m \<in> fst ` set specialDir
        then (prepList @ [\<lparr>PrepSource = Source m, Exclusive = True\<rparr>],
              filter (\<lambda>kv. fst kv \<noteq> Destination m) specialDir)
        else (prepList, specialDir))"

definition sysMgrSetupMounts :: "Env \<Rightarrow> Mgr \<Rightarrow> Spec \<Rightarrow> bool \<Rightarrow> Spec result" where
  "sysMgrSetupMounts e mgr spec uidShiftRootfs =
     andThen (derefLinux spec) (\<lambda>l.
     andThen (index0 (UIDMappings l)) (\<lambda>um.
     andThen (index0 (GIDMappings l)) (\<lambda>gm.
       let uid = HostID um;
           gid = HostID gm;
           (prepList, specialDir) = fold prepStep (rev (Mounts spec)) ([], specialDirInit)
       in andThen (if 0 < length prepList
                   then (case PrepMounts mgr uid gid prepList of
                           Some msg \<Rightarrow> Inl (Err (External msg))
                         | None \<Rightarrow> Inr ())
                   else Inr ())
            (\<lambda>_.
               let reqList = map (\<lambda>(dest, kind). \<lparr>Kind = kind, Dest = dest\<rparr>) (mapIter e specialDir)
               in andThen (derefRoot spec) (\<lambda>root.
                    case filepathAbs e (RootPath root) of
                      Inl msg \<Rightarrow> Inl (Err (External msg))
                    | Inr rootPath \<Rightarrow>
                        (case ReqMounts mgr rootPath uid gid uidShiftRootfs reqList of
                           Inl msg \<Rightarrow> Inl (Err (External msg))
                         | Inr m \<Rightarrow>
                             let mounts = MountSliceRemove m (Mounts spec)
                                            (\<lambda>m1 m2. Destination m1 = Destination m2);
                                 mounts' = (if Readonly root then map makeReadonly mounts else mounts)
                             in Inr (spec\<lparr>Mounts := Mounts spec @ mounts'\<rparr>)))))))"

definition cfgMounts :: "Env \<Rightarrow> Globals \<Rightarrow> Spec \<Rightarrow> Mgr \<Rightarrow> Fs \<Rightarrow> bool \<Rightarrow> (Globals \<times> Spec) result" where
  "cfgMounts e g spec sysMgr sysFs uidShiftRootfs =
     andThen (cfgSysboxMounts g spec) (\<lambda>(g1, s1).
     andThen (if FsEnabled sysFs then cfgSysboxFsMounts e g1 sysFs s1 else Inr (g1, s1)) (\<lambda>(g2, s2).
     andThen (if MgrEnabled sysMgr then sysMgrSetupMounts e sysMgr s2 uidShiftRootfs else Inr s2) (\<lambda>s3.
     andThen (systemdInit (SpecProcess s3)) (\<lambda>sd.
       let (g4, s4) = (if sd then cfgSystemdMounts g2 s3 else (g2, s3))
       in Inr (g4, s4\<lparr>Mounts := sortMounts e (Mounts s4)\<rparr>)))))"

section \<open>\<open>ConvertSpec\<close>\<close>

text \<open>
  The result on success: the package tables as the conversion left them, the two
  flags of \<open>CheckUidShifting\<close>, and the converted spec.
\<close>

definition ConvertSpec :: "Env \<Rightarrow> Globals \<Rightarrow> Mgr \<Rightarrow> Fs \<Rightarrow> Spec \<Rightarrow> (Globals \<times> bool \<times> bool \<times> Spec) result" where
  "ConvertSpec e g sysMgr sysFs spec =
     andThen (wrapErr ''invalid or unsupported container spec'' (checkSpec e spec)) (\<lambda>_.
     andThen (wrapErr ''invalid namespace config'' (cfgNamespaces e sysMgr spec)) (\<lambda>s1.
     andThen (wrapErr ''invalid user/group ID config'' (cfgIDMappings sysMgr s1)) (\<lambda>s2.
     andThen (case CheckUidShifting e s2 of Inl msg \<Rightarrow> Inl (Err (External msg)) | Inr r \<Rightarrow> Inr r)
       (\<lambda>(uidShiftSupported, uidShiftRootfs).
     andThen (wrapErr ''invalid mount config'' (cfgMounts e g s2 sysMgr sysFs uidShiftRootfs)) (\<lambda>(g', s3).
     andThen (cfgMaskedPaths s3) (\<lambda>s4.
     andThen (cfgReadonlyPaths s4) (\<lambda>s5.
     andThen (cfgOomScoreAdj s5) (\<lambda>s6.
     andThen (derefLinux s6) (\<lambda>l6.
     andThen (wrapErr ''failed to configure seccomp'' (cfgSeccomp e (Seccomp l6))) (\<lambda>sec.
     andThen (wrapErr ''failed to configure process spec'' (ConvertProcessSpec e (SpecProcess s6))) (\<lambda>pr.
       Inr (g', uidShiftSupported, uidShiftRootfs,
            s6\<lparr>SpecLinux := Some (l6\<lparr>Seccomp := sec\<rparr>), SpecProcess := Some pr\<rparr>))))))))))))"

section \<open>The launch orchestrator (\<open>libcontainer/process_linux.go\<close>)\<close>

text \<open>
  The parent's \<open>start\<close> methods are sequences of calls on the operating system, the
  cgroup and Intel RDT managers, the container object and the sync socket.  Each call
  is an event; the state carries the trace of events so far.  The world decides, from
  the trace so far and the call, whether the call fails (with which error text).
\<close>

datatype procRef = Bootstrapper | FinalChild

datatype syncType =
    procReady | procRun | procHooks | procResume | rootfsReady | rootfsReadyAck
  | reqOp | sendOpInfo | opDone | procFd | sendFd | procFdDone | otherSync

datatype hookName = Prestart | CreateRuntime

datatype event =
    CmdStart | CloseChildSock | CloseChildLog | CloseParentSock
  | ManagerApply | ManagerSet | ManagerCreateChildCgroup | ManagerApplyChildCgroup | ManagerDestroy
  | MkdirDev | RdtApply procRef | RdtSet | RdtDestroy
  | CopyBootstrapData | DecodePid | ReapFirstChild | GetPipeFds | WriteCreateCgroupns
  | ProcessWait | ExitStatus | FindProcess | CmdWait | SignalAllProcesses | ProcessKill procRef
  | CreateNetworkInterfaces | CurrentOCIState | SendConfig
  | SyncRecv syncType | SetupRlimits | RunHooks hookName | SetCreated | UpdateState
  | WriteSync syncType | SysFsRegister | DecodeReqs | HandleReqOp | RecvSeccompFd | ProcSeccompInit
  | Shutdown
  | EnterPid | ParseCgroupFile | WriteCgroupProc | StatIntelRdtPath | WriteIntelRdtTasks

type_synonym world = "event list \<Rightarrow> event \<Rightarrow> string option"

datatype lerror =
    Plain string
  | ChildReported string
  | ExitError
  | SystemError lerror
  | SystemErrorWithCause "lerror option" string

text \<open>A step returns normally, returns an error, or panics.\<close>

datatype outcome = Done | Failed lerror | Panics string

record pstate =
  Trace :: "event list"
  CmdProcess :: "procRef option"
  SentRun :: bool
  SentResume :: bool

type_synonym step = "pstate \<Rightarrow> outcome \<times> pstate"

definition emit :: "event \<Rightarrow> step" where
  "emit ev s = (Done, s\<lparr>Trace := Trace s @ [ev]\<rparr>)"

text \<open>A call that may fail; \<open>mk\<close> builds the error that the caller returns.\<close>

definition call :: "world \<Rightarrow> event \<Rightarrow> (lerror \<Rightarrow> lerror) \<Rightarrow> step" where
  "call w ev mk s =
     (case w (Trace s) ev of
        None \<Rightarrow> (Done, s\<lparr>Trace := Trace s @ [ev]\<rparr>)
      | Some msg \<Rightarrow> (Failed (mk (Plain msg)), s\<lparr>Trace := Trace s @ [ev]\<rparr>))"

definition withCause :: "string \<Rightarrow> lerror \<Rightarrow> lerror" where
  "withCause cause err = SystemErrorWithCause (Some err) cause"

fun runSteps :: "step list \<Rightarrow> step" where
  "runSteps [] s = (Done, s)"
| "runSteps (f # fs) s = (case f s of (Done, s') \<Rightarrow> runSteps fs s' | (r, s') \<Rightarrow> (r, s'))"

definition onlyIf :: "bool \<Rightarrow> step \<Rightarrow> step" where
  "onlyIf b f s = (if b then f s else (Done, s))"

text \<open>An error of the inner step, rewritten by the caller before it returns it.\<close>

definition mapErr :: "(lerror \<Rightarrow> lerror) \<Rightarrow> step \<Rightarrow> step" where
  "mapErr mk f s = (case f s of (Failed err, s') \<Rightarrow> (Failed (mk err), s') | (r, s') \<Rightarrow> (r, s'))"

text \<open>A step that is run when the inner step failed, before the error is returned.\<close>

definition onError :: "step \<Rightarrow> step \<Rightarrow> step" where
  "onError f cleanup s = (case f s of (Failed err, s') \<Rightarrow> (Failed err, snd (cleanup s')) | (r, s') \<Rightarrow> (r, s'))"

text \<open>
  Modelled from the spec: \<open>parseSync\<close> and the sync message types (\<open>sync.go\<close> of package
  \<open>libcontainer\<close>) are not part of the source files at hand.  The parent reads typed
  sync messages from the socket and hands each to the handler until the stream ends or
  the handler fails; a message it cannot decode, or an error reported by the child, ends
  the loop with that error.  The child's side of the socket is the list of what the
  parent reads.
\<close>

datatype incoming = Msg syncType | ChildError string | DecodeError string

fun parseSync :: "(syncType \<Rightarrow> step) \<Rightarrow> incoming list \<Rightarrow> step" where
  "parseSync fn [] s = (Done, s)"
| "parseSync fn (DecodeError msg # rest) s = (Failed (Plain msg), s)"
| "parseSync fn (ChildError msg # rest) s = (Failed (ChildReported msg), s)"
| "parseSync fn (Msg t # rest) s =
     (case fn t (s\<lparr>Trace := Trace s @ [SyncRecv t]\<rparr>) of
        (Done, s') \<Rightarrow> parseSync fn rest s'
      | (r, s') \<Rightarrow> (r, s'))"

subsection \<open>\<open>initProcess\<close>\<close>

datatype cgroupType = Cgroup_v1_fs | Cgroup_v1_systemd | Cgroup_v2_fs | Cgroup_v2_systemd

text \<open>
  What \<open>start\<close> reads from the \<open>initProcess\<close> and its configuration: the cgroup
  manager's type, whether an Intel RDT manager is set, whether a cgroup namespace is
  created (\<open>NEWCGROUP\<close> present with an empty path), whether a mount namespace is created
  (\<open>NEWNS\<close> present), whether hooks are configured, \<open>sharePidns\<close>, whether sysbox-fs is
  enabled, and whether the container's ID mapping lists are non-empty.
\<close>

record InitCfg =
  cgType :: cgroupType
  hasIntelRdt :: bool
  newCgroupNs :: bool
  newMountNs :: bool
  hasHooks :: bool
  sharePidns :: bool
  sysFsEnabled :: bool
  hasIDMappings :: bool

definition isV1 :: "InitCfg \<Rightarrow> bool" where
  "isV1 c \<longleftrightarrow> cgType c = Cgroup_v1_fs \<or> cgType c = Cgroup_v1_systemd"

definition isV2 :: "InitCfg \<Rightarrow> bool" where
  "isV2 c \<longleftrightarrow> cgType c = Cgroup_v2_fs \<or> cgType c = Cgroup_v2_systemd"

definition getChildPid :: "world \<Rightarrow> step" where
  "getChildPid w = runSteps [onError (call w DecodePid id) (emit CmdWait), emit ReapFirstChild]"

definition setCmdProcess :: "procRef \<Rightarrow> step" where
  "setCmdProcess pr s = (Done, s\<lparr>CmdProcess := Some pr\<rparr>)"

definition waitForChildExit :: "world \<Rightarrow> step" where
  "waitForChildExit w =
     runSteps [onError (call w ProcessWait id) (emit CmdWait),
               onError (call w ExitStatus (\<lambda>_. ExitError)) (emit CmdWait),
               call w FindProcess id,
               setCmdProcess FinalChild]"

text \<open>\<open>wait\<close>: \<open>cmd.Wait\<close>, then the signal to the cgroup under a shared pid namespace.\<close>

definition initWait :: "InitCfg \<Rightarrow> world \<Rightarrow> step" where
  "initWait c w s =
     (case call w CmdWait id s of
        (wr, s1) \<Rightarrow> (wr, snd (onlyIf (sharePidns c) (emit SignalAllProcesses) s1)))"

text \<open>
  \<open>terminate\<close>: nothing when \<open>cmd.Process\<close> is nil; otherwise \<open>Kill\<close>, then \<open>wait\<close>
  whatever \<open>Kill\<close> returned; the error is that of \<open>Kill\<close>, or else that of \<open>wait\<close>.
\<close>

definition initTerminate :: "InitCfg \<Rightarrow> world \<Rightarrow> step" where
  "initTerminate c w s =
     (case CmdProcess s of
        None \<Rightarrow> (Done, s)
      | Some pr \<Rightarrow>
          (case call w (ProcessKill pr) id s of
             (kr, s1) \<Rightarrow>
               (case initWait c w s1 of
                  (wr, s2) \<Rightarrow> (if kr = Done then wr else kr, s2))))"

definition registerWithSysboxfs :: "InitCfg \<Rightarrow> world \<Rightarrow> step" where
  "registerWithSysboxfs c w s =
     (if \<not> sysFsEnabled c then (Done, s)
      else if \<not> hasIDMappings c then (Panics ''index out of range'', s)
      else call w SysFsRegister (withCause ''registering with sysbox-fs'') s)"

definition runAllHooks :: "world \<Rightarrow> step" where
  "runAllHooks w = runSteps [call w CurrentOCIState id, call w (RunHooks Prestart) id,
                             call w (RunHooks CreateRuntime) id]"

definition setSentRun :: step where
  "setSentRun s = (Done, s\<lparr>SentRun := True\<rparr>)"

definition setSentResume :: step where
  "setSentResume s = (Done, s\<lparr>SentResume := True\<rparr>)"

text \<open>The handler that \<open>initProcess.start\<close> passes to \<open>parseSync\<close>.\<close>

fun initSyncHandler :: "InitCfg \<Rightarrow> world \<Rightarrow> syncType \<Rightarrow> step" where
  "initSyncHandler c w procReady =
     runSteps
       [call w SetupRlimits (withCause ''setting rlimits for ready process''),
        onlyIf (\<not> newMountNs c)
          (runSteps [onlyIf (hasIntelRdt c)
                       (call w RdtSet (withCause ''setting Intel RDT config for ready process'')),
                     onlyIf (hasHooks c) (runAllHooks w)]),
        emit SetCreated,
        call w UpdateState (\<lambda>_. SystemErrorWithCause None ''store init state''),
        call w (WriteSync procRun) (withCause ''writing syncT run''),
        setSentRun]"
| "initSyncHandler c w rootfsReady =
     runSteps
       [onlyIf (isV2 c)
          (runSteps [call w ManagerCreateChildCgroup (withCause ''creating container child cgroup''),
                     call w ManagerApplyChildCgroup
                       (withCause ''applying cgroup configuration for process'')]),
        registerWithSysboxfs c w,
        call w (WriteSync rootfsReadyAck) (withCause ''writing syncT rootfsReadyAck'')]"
| "initSyncHandler c w procHooks =
     runSteps
       [onlyIf (hasIntelRdt c)
          (call w RdtSet (withCause ''setting Intel RDT config for procHooks process'')),
        onlyIf (hasHooks c) (runAllHooks w),
        call w (WriteSync procResume) (withCause ''writing syncT resume''),
        setSentResume]"
| "initSyncHandler c w reqOp =
     runSteps
       [call w (WriteSync sendOpInfo) (withCause ''writing syncT sendOpInfo''),
        call w DecodeReqs (withCause ''receiving / decoding reqOp''),
        call w HandleReqOp (withCause ''handleReqOp''),
        call w (WriteSync opDone) (withCause ''writing syncT opDone'')]"
| "initSyncHandler c w procFd =
     runSteps
       [call w (WriteSync sendFd) (withCause ''writing syncT sendFd''),
        call w RecvSeccompFd (withCause ''receiving seccomp fd''),
        call w ProcSeccompInit (withCause ''processing seccomp fd''),
        call w (WriteSync procFdDone) (withCause ''writing syncT procFdDone'')]"
| "initSyncHandler c w _ = (\<lambda>s. (Failed (SystemError (Plain ''invalid JSON payload from child'')), s))"

text \<open>
  The end of \<open>start\<close>, from the sync loop on.  \<open>ierr\<close> is what \<open>parseSync\<close> returned; a
  panic inside the handler is not a return value and unwinds.
\<close>

definition initSyncAndFinish :: "InitCfg \<Rightarrow> world \<Rightarrow> incoming list \<Rightarrow> step" where
  "initSyncAndFinish c w stream s =
     (case parseSync (initSyncHandler c w) stream s of
        (Panics m, s1) \<Rightarrow> (Panics m, s1)
      | (r, s1) \<Rightarrow>
          let ierr = (case r of Failed err \<Rightarrow> Some err | _ \<Rightarrow> None)
          in if \<not> SentRun s1 then (Failed (SystemErrorWithCause ierr ''container init''), s1)
             else if newMountNs c \<and> \<not> SentResume s1 then
               (Failed (SystemError (Plain
                  ''could not synchronise after executing prestart and CreateRuntime hooks with container process'')), s1)
             else
               (case call w Shutdown (withCause ''shutting down init pipe'') s1 of
                  (Done, s2) \<Rightarrow>
                    (case ierr of
                       Some err \<Rightarrow> (Failed err, snd (initWait c w s2))
                     | None \<Rightarrow> (Done, s2))
                | (r2, s2) \<Rightarrow> (r2, s2)))"

text \<open>The body of \<open>start\<close> after the second \<open>defer\<close>, up to its return.\<close>

definition initStartBody :: "InitCfg \<Rightarrow> world \<Rightarrow> incoming list \<Rightarrow> step" where
  "initStartBody c w stream =
     runSteps
       [call w ManagerApply (withCause ''applying cgroup configuration for process''),
        call w ManagerSet (withCause ''setting cgroup config for ready process''),
        onlyIf (isV1 c) (call w ManagerCreateChildCgroup (withCause ''creating container child cgroup'')),
        mapErr (withCause ''setup up dev subdir under rootfs'')
          (call w MkdirDev (withCause ''creating dev subdir under rootfs'')),
        onlyIf (hasIntelRdt c)
          (call w (RdtApply Bootstrapper) (withCause ''applying Intel RDT configuration for process'')),
        call w CopyBootstrapData (withCause ''copying bootstrap data to pipe''),
        mapErr (withCause ''getting the final child pid from pipe'') (getChildPid w),
        call w GetPipeFds (withCause ''getting pipe fds for pid''),
        onlyIf (isV1 c)
          (call w ManagerApplyChildCgroup (withCause ''applying cgroup configuration for process'')),
        onlyIf (hasIntelRdt c)
          (call w (RdtApply FinalChild) (withCause ''applying Intel RDT configuration for process'')),
        onlyIf (newCgroupNs c)
          (call w WriteCreateCgroupns (withCause ''sending synchronization value to init process'')),
        mapErr (withCause ''waiting for our first child to exit'') (waitForChildExit w),
        call w CreateNetworkInterfaces (withCause ''creating network interfaces''),
        call w CurrentOCIState (withCause ''updating the spec state''),
        call w SendConfig (withCause ''sending config to init process''),
        initSyncAndFinish c w stream]"

text \<open>
  The deferred function of \<open>start\<close>: when the returned error is not nil, \<open>terminate\<close>
  (its own error only logged), \<open>manager.Destroy\<close>, and \<open>intelRdtManager.Destroy\<close> when
  that manager is set.
\<close>

definition initRollback :: "InitCfg \<Rightarrow> world \<Rightarrow> pstate \<Rightarrow> pstate" where
  "initRollback c w s =
     snd (runSteps [emit ManagerDestroy, onlyIf (hasIntelRdt c) (emit RdtDestroy)]
            (snd (initTerminate c w s)))"

definition initState :: pstate where
  "initState = \<lparr>Trace = [], CmdProcess = None, SentRun = False, SentResume = False\<rparr>"

definition initStart :: "InitCfg \<Rightarrow> world \<Rightarrow> incoming list \<Rightarrow> outcome \<times> pstate" where
  "initStart c w stream =
     (case call w CmdStart (withCause ''starting init process command'') initState of
        (r0, s0) \<Rightarrow>
          let s1 = snd (runSteps [emit CloseChildSock, emit CloseChildLog] s0)
          in if r0 \<noteq> Done then (r0, snd (emit CloseParentSock s1))
             else
               (case initStartBody c w stream (s1\<lparr>CmdProcess := Some Bootstrapper\<rparr>) of
                  (Failed err, s2) \<Rightarrow> (Failed err, snd (emit CloseParentSock (initRollback c w s2)))
                | (r, s2) \<Rightarrow> (r, snd (emit CloseParentSock s2))))"

subsection \<open>\<open>setnsProcess\<close>\<close>

text \<open>
  What \<open>setnsProcess.start\<close> reads: whether bootstrap data is set, whether
  \<open>cgroupPaths\<close> is non-empty, \<open>rootlessCgroups\<close>, whether the host runs cgroup v2 in
  unified mode (\<open>cgroups.IsCgroup2UnifiedMode()\<close>), whether the parsed cgroup file of the
  init process has an entry for the key \<open>""\<close>, and whether \<open>intelRdtPath\<close> is set.
\<close>

record SetnsCfg =
  hasBootstrapData :: bool
  hasCgroupPaths :: bool
  rootlessCgroups :: bool
  cgroup2UnifiedMode :: bool
  initCgHasUnifiedEntry :: bool
  hasIntelRdtPath :: bool

definition execSetns :: "world \<Rightarrow> step" where
  "execSetns w =
     runSteps [onError (call w ProcessWait (withCause ''waiting on setns process to finish'')) (emit CmdWait),
               onError (call w ExitStatus (\<lambda>_. SystemError ExitError)) (emit CmdWait),
               onError (call w DecodePid (withCause ''reading pid from init pipe'')) (emit CmdWait),
               emit ReapFirstChild,
               call w FindProcess id,
               setCmdProcess FinalChild]"

text \<open>
  The cgroup placement of \<open>setnsProcess.start\<close>.  \<open>err\<close> is the error of \<open>EnterPid\<close>
  until \<open>WriteCgroupProc\<close> overwrites it.
\<close>

definition enterCgroups :: "SetnsCfg \<Rightarrow> world \<Rightarrow> step" where
  "enterCgroups c w s =
     (if \<not> hasCgroupPaths c then (Done, s)
      else
        (case w (Trace s) EnterPid of
           None \<Rightarrow> (Done, s\<lparr>Trace := Trace s @ [EnterPid]\<rparr>)
         | Some msg \<Rightarrow>
             let s1 = s\<lparr>Trace := Trace s @ [EnterPid]\<rparr>
             in if rootlessCgroups c then (Done, s1)
                else
                  (case (if cgroup2UnifiedMode c then
                           (case w (Trace s1) ParseCgroupFile of
                              Some _ \<Rightarrow> (Some msg, s1\<lparr>Trace := Trace s1 @ [ParseCgroupFile]\<rparr>)
                            | None \<Rightarrow>
                                let s2 = s1\<lparr>Trace := Trace s1 @ [ParseCgroupFile]\<rparr>
                                in if initCgHasUnifiedEntry c
                                   then (w (Trace s2) WriteCgroupProc, s2\<lparr>Trace := Trace s2 @ [WriteCgroupProc]\<rparr>)
                                   else (Some msg, s2))
                         else (Some msg, s1)) of
                     (None, s3) \<Rightarrow> (Done, s3)
                   | (Some m, s3) \<Rightarrow> (Failed (withCause ''adding pid to cgroups'' (Plain m)), s3))))"

definition applyIntelRdt :: "SetnsCfg \<Rightarrow> world \<Rightarrow> step" where
  "applyIntelRdt c w s =
     (if \<not> hasIntelRdtPath c then (Done, s)
      else
        (case call w StatIntelRdtPath id s of
           (Done, s1) \<Rightarrow>
             call w WriteIntelRdtTasks
               (withCause ''adding pid to Intel RDT resource control filesystem'') s1
         | (_, s1) \<Rightarrow> (Done, s1)))"

fun setnsSyncHandler :: "world \<Rightarrow> syncType \<Rightarrow> step" where
  "setnsSyncHandler w procReady = (\<lambda>s. (Panics ''unexpected procReady in setns'', s))"
| "setnsSyncHandler w procHooks = (\<lambda>s. (Panics ''unexpected procHooks in setns'', s))"
| "setnsSyncHandler w reqOp = (\<lambda>s. (Panics ''unexpected reqOp in setns'', s))"
| "setnsSyncHandler w procFd =
     runSteps
       [call w (WriteSync sendFd) (withCause ''writing syncT sendFd''),
        call w RecvSeccompFd (withCause ''receiving seccomp fd''),
        call w ProcSeccompInit (withCause ''processing seccomp fd''),
        call w (WriteSync procFdDone) (withCause ''writing syncT procFdDone'')]"
| "setnsSyncHandler w _ = (\<lambda>s. (Failed (SystemError (Plain ''invalid JSON payload from child'')), s))"

definition setnsSyncAndFinish :: "world \<Rightarrow> incoming list \<Rightarrow> step" where
  "setnsSyncAndFinish w stream s =
     (case parseSync (setnsSyncHandler w) stream s of
        (Panics m, s1) \<Rightarrow> (Panics m, s1)
      | (r, s1) \<Rightarrow>
          let ierr = (case r of Failed err \<Rightarrow> Some err | _ \<Rightarrow> None)
          in (case call w Shutdown (withCause ''calling shutdown on init pipe'') s1 of
                (Done, s2) \<Rightarrow>
                  (case ierr of
                     Some err \<Rightarrow> (Failed err, snd (call w CmdWait id s2))
                   | None \<Rightarrow> (Done, s2))
              | (r2, s2) \<Rightarrow> (r2, s2)))"

definition setnsStartBody :: "SetnsCfg \<Rightarrow> world \<Rightarrow> incoming list \<Rightarrow> step" where
  "setnsStartBody c w stream =
     runSteps
       [onlyIf (hasBootstrapData c)
          (call w CopyBootstrapData (withCause ''copying bootstrap data to pipe'')),
        mapErr (withCause ''executing setns process'') (execSetns w),
        enterCgroups c w,
        applyIntelRdt c w,
        call w SetupRlimits (withCause ''setting rlimits for process''),
        call w SendConfig (withCause ''writing config to pipe''),
        setnsSyncAndFinish w stream]"

definition setnsTerminate :: "world \<Rightarrow> step" where
  "setnsTerminate w s =
     (case CmdProcess s of
        None \<Rightarrow> (Done, s)
      | Some pr \<Rightarrow>
          (case call w (ProcessKill pr) id s of
             (kr, s1) \<Rightarrow>
               (case call w CmdWait id s1 of
                  (wr, s2) \<Rightarrow> (if kr = Done then wr else kr, s2))))"

definition setnsStart :: "SetnsCfg \<Rightarrow> world \<Rightarrow> incoming list \<Rightarrow> outcome \<times> pstate" where
  "setnsStart c w stream =
     (case call w CmdStart (withCause ''starting setns process'') initState of
        (r0, s0) \<Rightarrow>
          let s1 = snd (runSteps [emit CloseChildSock, emit CloseChildLog] s0)
          in if r0 \<noteq> Done then (r0, snd (emit CloseParentSock s1))
             else
               (case setnsStartBody c w stream (s1\<lparr>CmdProcess := Some Bootstrapper\<rparr>) of
                  (Failed err, s2) \<Rightarrow> (Failed err, snd (emit CloseParentSock (snd (setnsTerminate w s2))))
                | (r, s2) \<Rightarrow> (r, snd (emit CloseParentSock s2))))"

section \<open>Example inputs\<close>

text \<open>
  A small host: the runtime's own network namespace and \<open>/proc/1/ns/net\<close> are the same
  file, \<open>/run/netns/c1\<close> is another one; sets and maps are enumerated in insertion
  order and the mount sort is the identity.
\<close>

definition exStat :: "string \<Rightarrow> string + (nat \<times> nat)" where
  "exStat path =
     (if path = ''/proc/self/ns/net'' \<or> path = ''/proc/1/ns/net'' then Inr (4, 4026531992)
      else if path = ''/run/netns/c1'' then Inr (4, 4026532500)
      else Inl ''no such file or directory'')"

definition exGetEnvVarInfo :: "string \<Rightarrow> string + (string \<times> string)" where
  "exGetEnvVarInfo v =
     (if CHR ''='' \<in> set v
      then Inr (takeWhile (\<lambda>ch. ch \<noteq> CHR ''='') v, drop 1 (dropWhile (\<lambda>ch. ch \<noteq> CHR ''='') v))
      else Inl ''invalid variable'')"

definition exEnv :: Env where
  "exEnv = \<lparr>syscontSyscallWhitelist = [''mount'', ''umount2'', ''pivot_root''],
            syscontSyscallAllowRestrList = [''personality''],
            setIter = (\<lambda>xs. xs),
            sortMounts = (\<lambda>ms. ms),
            unixStat = exStat,
            filepathAbs = (\<lambda>path. Inr path),
            filepathJoin = (\<lambda>a b. a @ ''/'' @ b),
            CheckUidShifting = (\<lambda>spec. Inr (True, False)),
            mapIter = (\<lambda>kvs. kvs),
            GetEnvVarInfo = exGetEnvVarInfo\<rparr>"

definition exMgr :: Mgr where
  "exMgr = \<lparr>MgrEnabled = False, ConfigUserns = [], ConfigUidMappings = [], ConfigGidMappings = [],
            ReqSubid = (\<lambda>n. Inl ''manager disabled''),
            PrepMounts = (\<lambda>uid gid prep. Some ''manager disabled''),
            ReqMounts = (\<lambda>rootfs uid gid shift req. Inl ''manager disabled'')\<rparr>"

definition exFs :: Fs where
  "exFs = \<lparr>FsEnabled = True, Mountpoint = ''/var/lib/sysboxfs'', FsId = ''c1''\<rparr>"

definition exCaps :: LinuxCapabilities where
  "exCaps = \<lparr>Bounding = [], Effective = [], Inheritable = [], Permitted = [], Ambient = []\<rparr>"

definition exProcess :: "string list \<Rightarrow> Process" where
  "exProcess args = \<lparr>Args = args, Env = [''PATH=/bin''], ProcUser = \<lparr>UID = 0, GID = 0\<rparr>,
     Capabilities = Some exCaps, ApparmorProfile = ''docker-default'', OOMScoreAdj = None\<rparr>"

definition exNamespaces :: "string \<Rightarrow> LinuxNamespace list" where
  "exNamespaces netPath =
     [\<lparr>NsType = ''pid'', NsPath = []\<rparr>, \<lparr>NsType = ''ipc'', NsPath = []\<rparr>,
      \<lparr>NsType = ''uts'', NsPath = []\<rparr>, \<lparr>NsType = ''mount'', NsPath = []\<rparr>,
      \<lparr>NsType = ''network'', NsPath = netPath\<rparr>]"

definition exLinux :: "string \<Rightarrow> Linux" where
  "exLinux netPath = \<lparr>Namespaces = exNamespaces netPath, UIDMappings = [], GIDMappings = [],
     MaskedPaths = [''/proc/kcore'', ''/proc/acpi'', ''/run''],
     ReadonlyPaths = [''/proc/sys'', ''/proc/bus'', ''/tmp''], Seccomp = None\<rparr>"

text \<open>A spec with the given init arguments, read-only flag and network namespace path.\<close>

definition exSpec :: "string list \<Rightarrow> bool \<Rightarrow> string \<Rightarrow> Spec" where
  "exSpec args ro netPath =
     \<lparr>SpecRoot = Some \<lparr>RootPath = ''/rootfs'', Readonly = ro\<rparr>,
      SpecProcess = Some (exProcess args),
      SpecLinux = Some (exLinux netPath),
      Mounts = [mkMount ''/sys'' ''sysfs'' ''sysfs'' [''rw''], mkMount ''/data'' ''/host/data'' ''bind'' [''rbind'']]\<rparr>"

text \<open>
  Two seccomp profiles for x86_64: a whitelist (default errno) that allows \<open>read\<close>,
  \<open>mount\<close> and \<open>personality\<close> with argument restrictions, and a blacklist (default
  allow) that denies \<open>mount\<close> with errno.
\<close>

definition exArg :: LinuxSeccompArg where
  "exArg = \<lparr>Index = 0, Value = 8, ValueTwo = 0, Op = ''SCMP_CMP_EQ''\<rparr>"

definition exWhitelistProfile :: LinuxSeccomp where
  "exWhitelistProfile =
     \<lparr>DefaultAction = ActErrno, Architectures = [''SCMP_ARCH_X86_64'', ''SCMP_ARCH_X86''],
      Syscalls = [\<lparr>Names = Some [''read'', ''mount''], Action = ActAllow, SyscallArgs = [exArg]\<rparr>,
                  \<lparr>Names = Some [''personality''], Action = ActAllow, SyscallArgs = [exArg]\<rparr>]\<rparr>"

definition exBlacklistProfile :: LinuxSeccomp where
  "exBlacklistProfile =
     \<lparr>DefaultAction = ActAllow, Architectures = [''SCMP_ARCH_X86_64''],
      Syscalls = [\<lparr>Names = Some [''mount''], Action = ActErrno, SyscallArgs = []\<rparr>]\<rparr>"

text \<open>The same blacklist with the given names under errno.\<close>

definition exBlacklistOf :: "string list \<Rightarrow> LinuxSeccomp" where
  "exBlacklistOf ns =
     \<lparr>DefaultAction = ActAllow, Architectures = [''SCMP_ARCH_X86_64''],
      Syscalls = [\<lparr>Names = Some ns, Action = ActErrno, SyscallArgs = []\<rparr>]\<rparr>"

text \<open>
  ID mappings: one continuous range given as two sub-ranges out of order, and a range
  that maps container root to host root.
\<close>

definition exSplitMaps :: "LinuxIDMapping list" where
  "exSplitMaps = [\<lparr>ContainerID = 1000, HostID = 101000, Size = 64536\<rparr>,
                  \<lparr>ContainerID = 0, HostID = 100000, Size = 1000\<rparr>]"

definition exHostRootMaps :: "LinuxIDMapping list" where
  "exHostRootMaps = [\<lparr>ContainerID = 0, HostID = 0, Size = 65536\<rparr>]"

definition exSpecWithMaps :: "LinuxIDMapping list \<Rightarrow> LinuxIDMapping list \<Rightarrow> Spec" where
  "exSpecWithMaps uids gids =
     (exSpec [''/bin/sh''] False [])\<lparr>SpecLinux := Some ((exLinux [])\<lparr>UIDMappings := uids, GIDMappings := gids\<rparr>)\<rparr>"

text \<open>Reading the converted spec out of the result of \<open>ConvertSpec\<close>.\<close>

definition convertedSpec :: "(Globals \<times> bool \<times> bool \<times> Spec) result \<Rightarrow> Spec option" where
  "convertedSpec r = (case r of Inl _ \<Rightarrow> None | Inr (_, _, _, spec) \<Rightarrow> Some spec)"

definition convertedReadonlyPaths :: "(Globals \<times> bool \<times> bool \<times> Spec) result \<Rightarrow> string list option" where
  "convertedReadonlyPaths r =
     (case convertedSpec r of
        None \<Rightarrow> None
      | Some spec \<Rightarrow> (case SpecLinux spec of None \<Rightarrow> None | Some l \<Rightarrow> Some (ReadonlyPaths l)))"

section \<open>Properties of launch traces\<close>

text \<open>
  \<open>ext A s s'\<close>: the trace of \<open>s'\<close> extends that of \<open>s\<close> by events of \<open>A\<close>, the two
  sync flags are unchanged, and a process that \<open>cmd\<close> refers to is not forgotten.  A step
  is quiet on \<open>A\<close> when every run of it is such an extension.
\<close>

definition ext :: "event set \<Rightarrow> pstate \<Rightarrow> pstate \<Rightarrow> bool" where
  "ext A s s' \<longleftrightarrow>
     (\<exists>evs. Trace s' = Trace s @ evs \<and> set evs \<subseteq> A)
     \<and> SentRun s' = SentRun s \<and> SentResume s' = SentResume s
     \<and> (CmdProcess s \<noteq> None \<longrightarrow> CmdProcess s' \<noteq> None)"

definition quiet :: "event set \<Rightarrow> step \<Rightarrow> bool" where
  "quiet A f \<longleftrightarrow> (\<forall>s. ext A s (snd (f s)))"

text \<open>
  \<open>sentAfter w reply msg tr\<close>: somewhere in the trace the parent wrote \<open>reply\<close> to the
  sync socket, the write succeeded, and \<open>msg\<close> had been received from the child before.
\<close>

definition sentAfter :: "world \<Rightarrow> syncType \<Rightarrow> syncType \<Rightarrow> event list \<Rightarrow> bool" where
  "sentAfter w reply msg tr \<longleftrightarrow>
     (\<exists>pre. prefix (pre @ [WriteSync reply]) tr \<and> w pre (WriteSync reply) = None
            \<and> SyncRecv msg \<in> set pre)"

definition launchInv :: "world \<Rightarrow> pstate \<Rightarrow> bool" where
  "launchInv w s \<longleftrightarrow>
     CmdProcess s \<noteq> None
     \<and> (SysFsRegister \<in> set (Trace s) \<longrightarrow> SyncRecv rootfsReady \<in> set (Trace s))
     \<and> (SentRun s \<longrightarrow> sentAfter w procRun procReady (Trace s))
     \<and> (SentResume s \<longrightarrow> sentAfter w procResume procHooks (Trace s))"

text \<open>The events of the rollback: kill, wait, destroy the cgroup and RDT allocations.\<close>

definition rollbackEvents :: "InitCfg \<Rightarrow> procRef \<Rightarrow> event list" where
  "rollbackEvents c pr =
     [ProcessKill pr, CmdWait] @ (if sharePidns c then [SignalAllProcesses] else [])
     @ [ManagerDestroy] @ (if hasIntelRdt c then [RdtDestroy] else [])"

subsection \<open>Example launches\<close>

definition exInitCfg :: InitCfg where
  "exInitCfg = \<lparr>cgType = Cgroup_v2_systemd, hasIntelRdt = True, newCgroupNs = True, newMountNs = True,
                hasHooks = True, sharePidns = False, sysFsEnabled = True, hasIDMappings = True\<rparr>"

text \<open>A world in which every call succeeds, and one in which sending the config fails.\<close>

definition worldOk :: world where
  "worldOk tr ev = None"

definition worldSendConfigFails :: world where
  "worldSendConfigFails tr ev = (if ev = SendConfig then Some ''broken pipe'' else None)"

definition exStream :: "incoming list" where
  "exStream = [Msg rootfsReady, Msg procHooks, Msg procReady]"

definition exSetnsCfg :: SetnsCfg where
  "exSetnsCfg = \<lparr>hasBootstrapData = True, hasCgroupPaths = True, rootlessCgroups = False,
                 cgroup2UnifiedMode = True, initCgHasUnifiedEntry = True, hasIntelRdtPath = False\<rparr>"

text \<open>A world in which only \<open>cgroups.EnterPid\<close> fails, with the given error.\<close>

definition worldEnterPidFails :: "string \<Rightarrow> world" where
  "worldEnterPidFails errno tr ev = (if ev = EnterPid then Some errno else None)"

text \<open>
  The state in which the body of \<open>initProcess.start\<close> begins once \<open>cmd.Start\<close> has
  succeeded, and the steps of the body before the sync loop, in the order of the source.
\<close>

definition startedState :: pstate where
  "startedState = \<lparr>Trace = [CmdStart, CloseChildSock, CloseChildLog], CmdProcess = Some Bootstrapper,
                    SentRun = False, SentResume = False\<rparr>"

definition initSetupSteps :: "InitCfg \<Rightarrow> world \<Rightarrow> step list" where
  "initSetupSteps c w =
       [call w ManagerApply (withCause ''applying cgroup configuration for process''),
        call w ManagerSet (withCause ''setting cgroup config for ready process''),
        onlyIf (isV1 c) (call w ManagerCreateChildCgroup (withCause ''creating container child cgroup'')),
        mapErr (withCause ''setup up dev subdir under rootfs'')
          (call w MkdirDev (withCause ''creating dev subdir under rootfs'')),
        onlyIf (hasIntelRdt c)
          (call w (RdtApply Bootstrapper) (withCause ''applying Intel RDT configuration for process'')),
        call w CopyBootstrapData (withCause ''copying bootstrap data to pipe''),
        mapErr (withCause ''getting the final child pid from pipe'') (getChildPid w),
        call w GetPipeFds (withCause ''getting pipe fds for pid''),
        onlyIf (isV1 c)
          (call w ManagerApplyChildCgroup (withCause ''applying cgroup configuration for process'')),
        onlyIf (hasIntelRdt c)
          (call w (RdtApply FinalChild) (withCause ''applying Intel RDT configuration for process'')),
        onlyIf (newCgroupNs c)
          (call w WriteCreateCgroupns (withCause ''sending synchronization value to init process'')),
        mapErr (withCause ''waiting for our first child to exit'') (waitForChildExit w),
        call w CreateNetworkInterfaces (withCause ''creating network interfaces''),
        call w CurrentOCIState (withCause ''updating the spec state''),
        call w SendConfig (withCause ''sending config to init process'')]"

text \<open>What \<open>start\<close> keeps of the result of \<open>parseSync\<close> in \<open>ierr\<close>.\<close>

definition syncError :: "outcome \<Rightarrow> lerror option" where
  "syncError r = (case r of Failed err \<Rightarrow> Some err | _ \<Rightarrow> None)"

section \<open>Basic facts\<close>

lemma andThen_Inl [simp]: "andThen (Inl x) f = Inl x"
  by (simp add: andThen_def)

lemma andThen_Inr [simp]: "andThen (Inr a) f = f a"
  by (simp add: andThen_def)

lemma andThen_eq_Inr: "andThen r f = Inr y \<longleftrightarrow> (\<exists>a. r = Inr a \<and> f a = Inr y)"
  by (cases r) simp_all

lemma wrapErr_eq_Inr [simp]: "wrapErr msg r = Inr y \<longleftrightarrow> r = Inr y"
  by (auto simp: wrapErr_def split: sum.splits failure.splits)

lemma wrapErr_Inr [simp]: "wrapErr msg (Inr a) = Inr a"
  by (simp add: wrapErr_def)

lemma wrapErr_Err [simp]: "wrapErr msg (Inl (Err err)) = Inl (Err (Wrapped msg err))"
  by (simp add: wrapErr_def)

lemma wrapErr_Panic [simp]: "wrapErr msg (Inl (Panic pn)) = Inl (Panic pn)"
  by (simp add: wrapErr_def)

lemma derefLinux_eq_Inr [simp]: "derefLinux spec = Inr l \<longleftrightarrow> SpecLinux spec = Some l"
  by (simp add: derefLinux_def split: option.splits)

lemma derefRoot_eq_Inr [simp]: "derefRoot spec = Inr r \<longleftrightarrow> SpecRoot spec = Some r"
  by (simp add: derefRoot_def split: option.splits)

lemma derefProcess_eq_Inr [simp]: "derefProcess p = Inr pr \<longleftrightarrow> p = Some pr"
  by (simp add: derefProcess_def split: option.splits)

lemma index0_eq_Inr [simp]: "index0 xs = Inr x \<longleftrightarrow> (\<exists>rest. xs = x # rest)"
  by (simp add: index0_def split: list.splits)

lemma systemdInit_eq_Inr:
  "systemdInit p = Inr b \<longleftrightarrow> (\<exists>pr a rest. p = Some pr \<and> Args pr = a # rest \<and> b = (a = ''/sbin/init''))"
  by (auto simp: systemdInit_def andThen_eq_Inr)

lemma systemdInit_empty: "Args pr = [] \<Longrightarrow> systemdInit (Some pr) = Inl (Panic IndexOutOfRange)"
  by (simp add: systemdInit_def derefProcess_def index0_def)

lemma systemdInit_nonempty: "Args pr \<noteq> [] \<Longrightarrow> systemdInit (Some pr) = Inr (hd (Args pr) = ''/sbin/init'')"
  by (cases "Args pr") (simp_all add: systemdInit_def derefProcess_def index0_def)

lemma cfgNamespaces_Inr:
  "cfgNamespaces e m s = Inr s' \<Longrightarrow>
     \<exists>l nss. SpecLinux s = Some l \<and> s' = s\<lparr>SpecLinux := Some (l\<lparr>Namespaces := nss\<rparr>)\<rparr>"
  by (auto simp: cfgNamespaces_def andThen_eq_Inr Let_def split: if_splits)

lemma allocIDMappings_Inr:
  "allocIDMappings m s = Inr s' \<Longrightarrow>
     \<exists>l us gs. SpecLinux s = Some l \<and> s' = s\<lparr>SpecLinux := Some (l\<lparr>UIDMappings := us, GIDMappings := gs\<rparr>)\<rparr>"
  by (auto simp: allocIDMappings_def andThen_eq_Inr Let_def split: if_splits sum.splits)

lemma validateIDMappings_Inr:
  "validateIDMappings s = Inr s' \<Longrightarrow>
     \<exists>l us gs. SpecLinux s = Some l \<and> s' = s\<lparr>SpecLinux := Some (l\<lparr>UIDMappings := us, GIDMappings := gs\<rparr>)\<rparr>"
  by (auto simp: validateIDMappings_def andThen_eq_Inr Let_def split: if_splits)

lemma cfgIDMappings_Inr:
  "cfgIDMappings m s = Inr s' \<Longrightarrow>
     \<exists>l us gs. SpecLinux s = Some l \<and> s' = s\<lparr>SpecLinux := Some (l\<lparr>UIDMappings := us, GIDMappings := gs\<rparr>)\<rparr>"
  unfolding cfgIDMappings_def andThen_eq_Inr Let_def
  apply (elim exE conjE)
  apply (simp split: if_splits)
  apply (drule allocIDMappings_Inr validateIDMappings_Inr; fastforce)+
  done

lemma cfgSysboxMounts_Inr:
  "cfgSysboxMounts g s = Inr (g1, s1) \<Longrightarrow> \<exists>ms. s1 = s\<lparr>Mounts := ms\<rparr>"
  by (auto simp: cfgSysboxMounts_def andThen_eq_Inr Let_def split: if_splits)

lemma cfgSysboxFsMounts_Inr:
  "cfgSysboxFsMounts e g fs s = Inr (g1, s1) \<Longrightarrow>
     SpecProcess s1 = SpecProcess s \<and> SpecRoot s1 = SpecRoot s"
  by (auto simp: cfgSysboxFsMounts_def andThen_eq_Inr Let_def split: if_splits)

lemma sysMgrSetupMounts_Inr:
  "sysMgrSetupMounts e m s sh = Inr s1 \<Longrightarrow> \<exists>ms. s1 = s\<lparr>Mounts := ms\<rparr>"
  unfolding sysMgrSetupMounts_def andThen_eq_Inr Let_def split_beta
  by (elim exE conjE) (auto split: if_splits sum.splits option.splits)

lemma cfgSystemdMounts_eq: "cfgSystemdMounts g s = (g1, s1) \<Longrightarrow> \<exists>ms. s1 = s\<lparr>Mounts := ms\<rparr>"
  by (auto simp: cfgSystemdMounts_def Let_def)

lemma cfgMounts_InrD:
  assumes "cfgMounts e g s m fs sh = Inr (g1, s1)"
  shows "\<exists>x y sc sd z.
           cfgSysboxMounts g s = Inr x
         \<and> (if FsEnabled fs then cfgSysboxFsMounts e (fst x) fs (snd x) else Inr x) = Inr y
         \<and> (if MgrEnabled m then sysMgrSetupMounts e m (snd y) sh else Inr (snd y)) = Inr sc
         \<and> systemdInit (SpecProcess sc) = Inr sd
         \<and> (if sd then cfgSystemdMounts (fst y) sc else (fst y, sc)) = z
         \<and> g1 = fst z \<and> s1 = (snd z)\<lparr>Mounts := sortMounts e (Mounts (snd z))\<rparr>"
proof -
  from assms obtain x y sc sd where
    A: "cfgSysboxMounts g s = Inr x" and
    B: "(if FsEnabled fs then cfgSysboxFsMounts e (fst x) fs (snd x) else Inr (fst x, snd x)) = Inr y" and
    C: "(if MgrEnabled m then sysMgrSetupMounts e m (snd y) sh else Inr (snd y)) = Inr sc" and
    D: "systemdInit (SpecProcess sc) = Inr sd" and
    E: "Inr (fst (if sd then cfgSystemdMounts (fst y) sc else (fst y, sc)),
             (snd (if sd then cfgSystemdMounts (fst y) sc else (fst y, sc)))
               \<lparr>Mounts := sortMounts e (Mounts (snd (if sd then cfgSystemdMounts (fst y) sc else (fst y, sc))))\<rparr>)
          = (Inr (g1, s1) :: (Globals \<times> Spec) result)"
    unfolding cfgMounts_def andThen_eq_Inr split_beta Let_def by blast
  from B have B': "(if FsEnabled fs then cfgSysboxFsMounts e (fst x) fs (snd x) else Inr x) = Inr y"
    by (auto split: if_splits)
  from E have E': "g1 = fst (if sd then cfgSystemdMounts (fst y) sc else (fst y, sc))"
    "s1 = (snd (if sd then cfgSystemdMounts (fst y) sc else (fst y, sc)))
               \<lparr>Mounts := sortMounts e (Mounts (snd (if sd then cfgSystemdMounts (fst y) sc else (fst y, sc))))\<rparr>"
    by simp_all
  show ?thesis
    using A B' C D E' by blast
qed

lemma cfgMounts_Inr:
  assumes "cfgMounts e g s m fs sh = Inr (g1, s1)"
  shows "SpecProcess s1 = SpecProcess s \<and> SpecRoot s1 = SpecRoot s
     \<and> (\<exists>pr a rest. SpecProcess s = Some pr \<and> Args pr = a # rest)"
proof -
  from cfgMounts_InrD [OF assms] obtain x y sc sd z where
    A: "cfgSysboxMounts g s = Inr x" and
    B: "(if FsEnabled fs then cfgSysboxFsMounts e (fst x) fs (snd x) else Inr x) = Inr y" and
    C: "(if MgrEnabled m then sysMgrSetupMounts e m (snd y) sh else Inr (snd y)) = Inr sc" and
    D: "systemdInit (SpecProcess sc) = Inr sd" and
    E: "(if sd then cfgSystemdMounts (fst y) sc else (fst y, sc)) = z" and
    F: "s1 = (snd z)\<lparr>Mounts := sortMounts e (Mounts (snd z))\<rparr>"
    by blast
  from A have a: "SpecProcess (snd x) = SpecProcess s" "SpecRoot (snd x) = SpecRoot s"
    by (cases x; auto dest: cfgSysboxMounts_Inr)+
  from B have b: "SpecProcess (snd y) = SpecProcess (snd x)" "SpecRoot (snd y) = SpecRoot (snd x)"
    by (cases y; cases x; auto dest: cfgSysboxFsMounts_Inr split: if_splits)+
  from C have c: "SpecProcess sc = SpecProcess (snd y)" "SpecRoot sc = SpecRoot (snd y)"
    by (auto dest: sysMgrSetupMounts_Inr split: if_splits)
  from E have e: "SpecProcess (snd z) = SpecProcess sc" "SpecRoot (snd z) = SpecRoot sc"
    by (cases z; auto dest: cfgSystemdMounts_eq split: if_splits)+
  from D have "\<exists>pr a rest. SpecProcess sc = Some pr \<and> Args pr = a # rest"
    by (auto simp: systemdInit_eq_Inr)
  with a b c e F show ?thesis by simp
qed

lemma ConvertSpec_InrD:
  assumes "ConvertSpec e g mgr fs spec = Inr (g', b1, b2, spec')"
  shows "\<exists>s1 s2 s3 s4 s5 s6 l6 sec pr.
           checkSpec e spec = Inr ()
         \<and> cfgNamespaces e mgr spec = Inr s1
         \<and> cfgIDMappings mgr s1 = Inr s2
         \<and> CheckUidShifting e s2 = Inr (b1, b2)
         \<and> cfgMounts e g s2 mgr fs b2 = Inr (g', s3)
         \<and> cfgMaskedPaths s3 = Inr s4
         \<and> cfgReadonlyPaths s4 = Inr s5
         \<and> cfgOomScoreAdj s5 = Inr s6
         \<and> SpecLinux s6 = Some l6
         \<and> cfgSeccomp e (Seccomp l6) = Inr sec
         \<and> ConvertProcessSpec e (SpecProcess s6) = Inr pr
         \<and> spec' = s6\<lparr>SpecLinux := Some (l6\<lparr>Seccomp := sec\<rparr>), SpecProcess := Some pr\<rparr>"
  using assms unfolding ConvertSpec_def andThen_eq_Inr split_beta wrapErr_eq_Inr derefLinux_eq_Inr
  apply (elim exE conjE)
  subgoal for a s1 s2 x y s4 s5 s6 l6 sec pr
    apply (cases x; cases y)
    apply (simp split: sum.splits)
    done
  done

lemma set_StringSliceRemove [simp]: "set (StringSliceRemove s db) = set s - set db"
  by (auto simp: StringSliceRemove_def)

lemma cfgMaskedPaths_Inr:
  "cfgMaskedPaths s = Inr s' \<Longrightarrow>
     \<exists>l sd. SpecLinux s = Some l \<and> systemdInit (SpecProcess s) = Inr sd
       \<and> s' = s\<lparr>SpecLinux := Some (l\<lparr>MaskedPaths :=
            StringSliceRemove (if sd then StringSliceRemove (MaskedPaths l) sysboxSystemdExposedPaths
                               else MaskedPaths l) sysboxExposedPaths\<rparr>)\<rparr>"
  unfolding cfgMaskedPaths_def andThen_eq_Inr Let_def derefLinux_eq_Inr
  apply (elim exE conjE)
  subgoal for sd l
    apply (rule exI [of _ l], rule exI [of _ sd])
    apply (cases sd; simp)
    done
  done


lemma cfgReadonlyPaths_Inr:
  "cfgReadonlyPaths s = Inr s' \<Longrightarrow>
     \<exists>l sd. SpecLinux s = Some l \<and> systemdInit (SpecProcess s) = Inr sd
       \<and> s' = s\<lparr>SpecLinux := Some (l\<lparr>ReadonlyPaths :=
            StringSliceRemove (if sd then StringSliceRemove (ReadonlyPaths l) sysboxSystemdRwPaths
                               else ReadonlyPaths l) sysboxRwPaths\<rparr>)\<rparr>"
  unfolding cfgReadonlyPaths_def andThen_eq_Inr Let_def derefLinux_eq_Inr
  apply (elim exE conjE)
  subgoal for sd l
    apply (rule exI [of _ l], rule exI [of _ sd])
    apply (cases sd; simp)
    done
  done

lemma cfgOomScoreAdj_Inr:
  "cfgOomScoreAdj s = Inr s' \<Longrightarrow>
     SpecLinux s' = SpecLinux s \<and> SpecRoot s' = SpecRoot s \<and> Mounts s' = Mounts s
     \<and> (\<exists>pr pr'. SpecProcess s = Some pr \<and> SpecProcess s' = Some pr' \<and> Args pr' = Args pr
            \<and> Capabilities pr' = Capabilities pr \<and> Env pr' = Env pr)"
  unfolding cfgOomScoreAdj_def andThen_eq_Inr derefProcess_eq_Inr
  apply (elim exE conjE)
  subgoal for pr
    apply (cases "OOMScoreAdj pr")
     apply (auto split: if_splits)
    done
  done

lemma cfgMaskedPaths_masked:
  assumes "cfgMaskedPaths s = Inr s'" and "systemdInit (SpecProcess s) = Inr sd"
  shows "SpecProcess s' = SpecProcess s \<and>
         (\<exists>l l'. SpecLinux s = Some l \<and> SpecLinux s' = Some l' \<and> ReadonlyPaths l' = ReadonlyPaths l
            \<and> set (MaskedPaths l') \<inter> set sysboxExposedPaths = {}
            \<and> (sd \<longrightarrow> set (MaskedPaths l') \<inter> set sysboxSystemdExposedPaths = {}))"
proof -
  from cfgMaskedPaths_Inr [OF assms(1)] obtain l sd' where
    l: "SpecLinux s = Some l" and sd': "systemdInit (SpecProcess s) = Inr sd'" and
    s': "s' = s\<lparr>SpecLinux := Some (l\<lparr>MaskedPaths :=
            StringSliceRemove (if sd' then StringSliceRemove (MaskedPaths l) sysboxSystemdExposedPaths
                               else MaskedPaths l) sysboxExposedPaths\<rparr>)\<rparr>"
    by blast
  from sd' assms(2) have eq: "sd' = sd" by simp
  show ?thesis
    unfolding s' eq using l by (cases sd) auto
qed

lemma cfgReadonlyPaths_readonly:
  assumes "cfgReadonlyPaths s = Inr s'" and "systemdInit (SpecProcess s) = Inr sd"
  shows "SpecProcess s' = SpecProcess s \<and>
         (\<exists>l l'. SpecLinux s = Some l \<and> SpecLinux s' = Some l' \<and> MaskedPaths l' = MaskedPaths l
            \<and> set (ReadonlyPaths l') \<inter> set sysboxRwPaths = {}
            \<and> (sd \<longrightarrow> set (ReadonlyPaths l') \<inter> set sysboxSystemdRwPaths = {}))"
proof -
  from cfgReadonlyPaths_Inr [OF assms(1)] obtain l sd' where
    l: "SpecLinux s = Some l" and sd': "systemdInit (SpecProcess s) = Inr sd'" and
    s': "s' = s\<lparr>SpecLinux := Some (l\<lparr>ReadonlyPaths :=
            StringSliceRemove (if sd' then StringSliceRemove (ReadonlyPaths l) sysboxSystemdRwPaths
                               else ReadonlyPaths l) sysboxRwPaths\<rparr>)\<rparr>"
    by blast
  from sd' assms(2) have eq: "sd' = sd" by simp
  show ?thesis
    unfolding s' eq using l by (cases sd) auto
qed

text \<open>
  C5.  After a successful conversion the masked paths contain none of the sysbox exposed
  paths and the read-only paths none of the sysbox rw paths; when the first init argument
  is \<open>/sbin/init\<close> the same holds for the systemd exposed and rw paths.
\<close>

theorem ConvertSpec_unmasks_paths:
  assumes "ConvertSpec e g mgr fs spec = Inr (g', b1, b2, spec')"
  shows "\<exists>l' p a rest. SpecLinux spec' = Some l' \<and> SpecProcess spec = Some p \<and> Args p = a # rest
           \<and> set (MaskedPaths l') \<inter> set sysboxExposedPaths = {}
           \<and> set (ReadonlyPaths l') \<inter> set sysboxRwPaths = {}
           \<and> (a = ''/sbin/init'' \<longrightarrow>
                  set (MaskedPaths l') \<inter> set sysboxSystemdExposedPaths = {}
                \<and> set (ReadonlyPaths l') \<inter> set sysboxSystemdRwPaths = {})"
proof -
  from ConvertSpec_InrD [OF assms] obtain s1 s2 s3 s4 s5 s6 l6 sec pr where
    ns: "cfgNamespaces e mgr spec = Inr s1" and
    ids: "cfgIDMappings mgr s1 = Inr s2" and
    mnt: "cfgMounts e g s2 mgr fs b2 = Inr (g', s3)" and
    mp: "cfgMaskedPaths s3 = Inr s4" and
    rp: "cfgReadonlyPaths s4 = Inr s5" and
    oom: "cfgOomScoreAdj s5 = Inr s6" and
    l6: "SpecLinux s6 = Some l6" and
    fin: "spec' = s6\<lparr>SpecLinux := Some (l6\<lparr>Seccomp := sec\<rparr>), SpecProcess := Some pr\<rparr>"
    by blast
  from ns have p1: "SpecProcess s1 = SpecProcess spec"
    using cfgNamespaces_Inr by fastforce
  from ids have p2: "SpecProcess s2 = SpecProcess s1"
    using cfgIDMappings_Inr by fastforce
  from cfgMounts_Inr [OF mnt] obtain p a rest where
    p3: "SpecProcess s3 = SpecProcess s2" and p: "SpecProcess s2 = Some p" and args: "Args p = a # rest"
    by blast
  have sd3: "systemdInit (SpecProcess s3) = Inr (a = ''/sbin/init'')"
    using p3 p args by (simp add: systemdInit_eq_Inr)
  from cfgMaskedPaths_masked [OF mp sd3] obtain l3 l4 where
    p4: "SpecProcess s4 = SpecProcess s3" and l4: "SpecLinux s4 = Some l4" and
    m4: "set (MaskedPaths l4) \<inter> set sysboxExposedPaths = {}" and
    m4s: "a = ''/sbin/init'' \<longrightarrow> set (MaskedPaths l4) \<inter> set sysboxSystemdExposedPaths = {}"
    by blast
  have sd4: "systemdInit (SpecProcess s4) = Inr (a = ''/sbin/init'')"
    using sd3 p4 by simp
  from cfgReadonlyPaths_readonly [OF rp sd4] l4 obtain l5 where
    l5: "SpecLinux s5 = Some l5" and m5: "MaskedPaths l5 = MaskedPaths l4" and
    r5: "set (ReadonlyPaths l5) \<inter> set sysboxRwPaths = {}" and
    r5s: "a = ''/sbin/init'' \<longrightarrow> set (ReadonlyPaths l5) \<inter> set sysboxSystemdRwPaths = {}"
    by auto
  from cfgOomScoreAdj_Inr [OF oom] l5 l6 have l65: "l6 = l5" by simp
  have "SpecLinux spec' = Some (l6\<lparr>Seccomp := sec\<rparr>)" using fin by simp
  moreover have "SpecProcess spec = Some p" using p p2 p1 by simp
  ultimately show ?thesis
    using args m4 m4s m5 r5 r5s l65 by simp
qed

section \<open>Evaluating the conversion on the example inputs\<close>

lemma andThen_weak_cong: "r = r' \<Longrightarrow> andThen r f = andThen r' f"
  by simp

lemmas ex_defs = exEnv_def exMgr_def exFs_def exSpec_def exProcess_def exLinux_def exNamespaces_def
  exCaps_def exStat_def exGetEnvVarInfo_def initGlobals_def initSysboxMounts_def initSysboxFsMounts_def
  initSysboxSystemdMounts_def mkMount_def

lemmas conv_defs = ConvertSpec_def checkSpec_def cfgNamespaces_def cfgIDMappings_def allocIDMappings_def
  validateIDMappings_def cfgMounts_def cfgSysboxMounts_def cfgSysboxFsMounts_def cfgSystemdMounts_def
  sysMgrSetupMounts_def cfgMaskedPaths_def cfgReadonlyPaths_def cfgOomScoreAdj_def cfgSeccomp_def
  ConvertProcessSpec_def cfgCapabilities_def cfgAppArmor_def cfgSystemdEnv_def systemdInit_def
  derefLinux_def derefRoot_def derefProcess_def index0_def NewSetOf_def Difference_def Union_def
  Contains_def IsSubset_def allNs_def reqNs_def StringSliceRemove_def MountSliceRemove_def
  StringSliceRemoveMatch_def StringSliceContains_def HasPrefix_def makeReadonly_def
  sysboxExposedPaths_def sysboxRwPaths_def sysboxSystemdExposedPaths_def sysboxSystemdRwPaths_def
  sysboxSystemdEnvVars_def defaultUid_def defaultGid_def IdRangeMin_def

lemmas eval_congs = andThen_weak_cong sum.case_cong_weak option.case_cong_weak prod.case_cong_weak
  list.case_cong_weak

lemma ex_convert_systemd_ro:
  "\<not> isl (ConvertSpec exEnv initGlobals exMgr exFs (exSpec [''/sbin/init''] True ''/run/netns/c1''))"
  by (simp add: conv_defs ex_defs Let_def cong: eval_congs)

lemma not_isl_convert:
  "\<not> isl (r :: (Globals \<times> bool \<times> bool \<times> Spec) result) \<Longrightarrow> \<exists>g' b1 b2 spec'. r = Inr (g', b1, b2, spec')"
  by (cases r) auto

theorem ConvertSpec_unmasks_paths_witness:
  "\<exists>g' b1 b2 spec' l'.
     ConvertSpec exEnv initGlobals exMgr exFs (exSpec [''/sbin/init''] True ''/run/netns/c1'')
       = Inr (g', b1, b2, spec')
     \<and> SpecLinux spec' = Some l'
     \<and> set (MaskedPaths l') \<inter> set sysboxExposedPaths = {}
     \<and> set (ReadonlyPaths l') \<inter> set sysboxRwPaths = {}
     \<and> set (MaskedPaths l') \<inter> set sysboxSystemdExposedPaths = {}
     \<and> set (ReadonlyPaths l') \<inter> set sysboxSystemdRwPaths = {}"
proof -
  from not_isl_convert [OF ex_convert_systemd_ro] obtain g' b1 b2 spec' where
    ok: "ConvertSpec exEnv initGlobals exMgr exFs (exSpec [''/sbin/init''] True ''/run/netns/c1'')
           = Inr (g', b1, b2, spec')"
    by blast
  from ConvertSpec_unmasks_paths [OF ok] obtain l' p a rest where
    "SpecLinux spec' = Some l'" and
    "SpecProcess (exSpec [''/sbin/init''] True ''/run/netns/c1'') = Some p" and
    "Args p = a # rest" and
    "set (MaskedPaths l') \<inter> set sysboxExposedPaths = {}" and
    "set (ReadonlyPaths l') \<inter> set sysboxRwPaths = {}" and
    "a = ''/sbin/init'' \<longrightarrow> set (MaskedPaths l') \<inter> set sysboxSystemdExposedPaths = {}
                \<and> set (ReadonlyPaths l') \<inter> set sysboxSystemdRwPaths = {}"
    by blast
  moreover from this have "a = ''/sbin/init''"
    by (auto simp: exSpec_def exProcess_def)
  ultimately show ?thesis using ok by blast
qed

section \<open>The init test\<close>

lemma ConvertSpec_args_nonempty:
  assumes "ConvertSpec e g mgr fs spec = Inr r"
  shows "\<exists>p a rest. SpecProcess spec = Some p \<and> Args p = a # rest"
proof -
  obtain g' b1 b2 spec' where r: "r = (g', b1, b2, spec')" by (cases r) auto
  from ConvertSpec_InrD [OF assms [unfolded r]] obtain s1 s2 s3 where
    ns: "cfgNamespaces e mgr spec = Inr s1" and
    ids: "cfgIDMappings mgr s1 = Inr s2" and
    mnt: "cfgMounts e g s2 mgr fs b2 = Inr (g', s3)"
    by blast
  from ns have p1: "SpecProcess s1 = SpecProcess spec"
    using cfgNamespaces_Inr by fastforce
  from ids have p2: "SpecProcess s2 = SpecProcess s1"
    using cfgIDMappings_Inr by fastforce
  from cfgMounts_Inr [OF mnt] p1 p2 show ?thesis by simp
qed

lemma ConvertProcessSpec_empty_args:
  "Args p = [] \<Longrightarrow> Capabilities p = Some c \<Longrightarrow> ConvertProcessSpec e (Some p) = Inl (Panic IndexOutOfRange)"
  by (simp add: ConvertProcessSpec_def cfgCapabilities_def derefProcess_def cfgAppArmor_def
        systemdInit_def index0_def Let_def)

lemma ConvertProcessSpec_nonempty_args:
  "Args p \<noteq> [] \<Longrightarrow> Capabilities p = Some c \<Longrightarrow> \<exists>p'. ConvertProcessSpec e (Some p) = Inr p'"
  by (cases "Args p")
     (simp_all add: ConvertProcessSpec_def cfgCapabilities_def derefProcess_def cfgAppArmor_def
        systemdInit_def index0_def Let_def)

text \<open>
  C10.  \<open>systemdInit\<close> reads \<open>Args[0]\<close> without a guard.  With a non-empty argument list
  the test returns whether the first argument is \<open>/sbin/init\<close>, and the steps that branch
  on it (masked paths, read-only paths, the process conversion) return normally.  With an
  empty argument list the test panics with an index out of range, so do those steps, and
  the conversion never returns a converted spec; the panic is not an error value.
\<close>

theorem systemdInit_presupposes_args:
  "(Args p \<noteq> [] \<longrightarrow>
       systemdInit (Some p) = Inr (hd (Args p) = ''/sbin/init'')
     \<and> (\<forall>c. Capabilities p = Some c \<longrightarrow> (\<exists>p'. ConvertProcessSpec e (Some p) = Inr p'))
     \<and> (\<forall>spec l. SpecProcess spec = Some p \<and> SpecLinux spec = Some l \<longrightarrow>
            (\<exists>s'. cfgMaskedPaths spec = Inr s') \<and> (\<exists>s'. cfgReadonlyPaths spec = Inr s')))
   \<and> (Args p = [] \<longrightarrow>
       systemdInit (Some p) = Inl (Panic IndexOutOfRange)
     \<and> (\<forall>c. Capabilities p = Some c \<longrightarrow> ConvertProcessSpec e (Some p) = Inl (Panic IndexOutOfRange))
     \<and> (\<forall>spec. SpecProcess spec = Some p \<longrightarrow>
            cfgMaskedPaths spec = Inl (Panic IndexOutOfRange)
          \<and> cfgReadonlyPaths spec = Inl (Panic IndexOutOfRange)
          \<and> (\<forall>g mgr fs r. ConvertSpec e g mgr fs spec \<noteq> Inr r)))"
proof (intro conjI impI allI)
  assume ne: "Args p \<noteq> []"
  show "systemdInit (Some p) = Inr (hd (Args p) = ''/sbin/init'')"
    using ne by (rule systemdInit_nonempty)
  show "\<exists>p'. ConvertProcessSpec e (Some p) = Inr p'" if "Capabilities p = Some c" for c
    using ne that by (rule ConvertProcessSpec_nonempty_args)
  show "\<exists>s'. cfgMaskedPaths spec = Inr s'" if "SpecProcess spec = Some p \<and> SpecLinux spec = Some l" for spec l
    using that systemdInit_nonempty [OF ne] by (simp add: cfgMaskedPaths_def Let_def derefLinux_def)
  show "\<exists>s'. cfgReadonlyPaths spec = Inr s'" if "SpecProcess spec = Some p \<and> SpecLinux spec = Some l" for spec l
    using that systemdInit_nonempty [OF ne] by (simp add: cfgReadonlyPaths_def Let_def derefLinux_def)
next
  assume em: "Args p = []"
  show "systemdInit (Some p) = Inl (Panic IndexOutOfRange)"
    using em by (rule systemdInit_empty)
  show "ConvertProcessSpec e (Some p) = Inl (Panic IndexOutOfRange)" if "Capabilities p = Some c" for c
    using em that by (rule ConvertProcessSpec_empty_args)
  show "cfgMaskedPaths spec = Inl (Panic IndexOutOfRange)" if "SpecProcess spec = Some p" for spec
    using that systemdInit_empty [OF em] by (simp add: cfgMaskedPaths_def)
  show "cfgReadonlyPaths spec = Inl (Panic IndexOutOfRange)" if "SpecProcess spec = Some p" for spec
    using that systemdInit_empty [OF em] by (simp add: cfgReadonlyPaths_def)
  show "ConvertSpec e g mgr fs spec \<noteq> Inr r" if "SpecProcess spec = Some p" for spec g mgr fs r
    using that em ConvertSpec_args_nonempty [of e g mgr fs spec r] by auto
qed

theorem systemdInit_presupposes_args_witness:
  "systemdInit (Some (exProcess [''/sbin/init'', ''--log-level=info''])) = Inr True
   \<and> (\<exists>p'. ConvertProcessSpec exEnv (Some (exProcess [''/sbin/init'', ''--log-level=info''])) = Inr p')
   \<and> systemdInit (Some (exProcess [])) = Inl (Panic IndexOutOfRange)
   \<and> ConvertProcessSpec exEnv (Some (exProcess [])) = Inl (Panic IndexOutOfRange)
   \<and> cfgMaskedPaths (exSpec [] False []) = Inl (Panic IndexOutOfRange)
   \<and> (\<forall>r. ConvertSpec exEnv initGlobals exMgr exFs (exSpec [] False []) \<noteq> Inr r)"
proof -
  have a: "Args (exProcess [''/sbin/init'', ''--log-level=info'']) \<noteq> []"
    and b: "Args (exProcess []) = []"
    and c: "Capabilities (exProcess args) = Some exCaps"
    and d: "SpecProcess (exSpec [] False []) = Some (exProcess [])" for args
    by (simp_all add: exProcess_def exSpec_def)
  show ?thesis
    using systemdInit_presupposes_args [of "exProcess [''/sbin/init'', ''--log-level=info'']" exEnv]
      systemdInit_presupposes_args [of "exProcess []" exEnv] a b c d
    by (auto simp: exProcess_def)
qed

section \<open>The host network namespace check\<close>

lemma checkNetNs_find:
  "checkNetNs e nss =
     (case find (\<lambda>ns. NsType ns = ''network'' \<and> NsPath ns \<noteq> []) nss of
        None \<Rightarrow> Inr ()
      | Some ns \<Rightarrow>
          (case unixStat e ''/proc/self/ns/net'' of
             Inl msg \<Rightarrow> Inl (Err (StatSysboxNetnsFailed msg))
           | Inr st1 \<Rightarrow>
               (case unixStat e (NsPath ns) of
                  Inl msg \<Rightarrow> Inl (Err (StatPathFailed (NsPath ns) msg))
                | Inr st2 \<Rightarrow> if st1 = st2 then Inl (Err HostNetnsShared) else Inr ())))"
  by (induction nss) (auto simp: prod_eq_iff split: sum.splits)

text \<open>
  C6.  The network namespace entry that \<open>checkSpec\<close> examines is the first one with a
  non-empty path (the spec expects no duplicates by type).  When that path and the
  runtime's own \<open>/proc/self/ns/net\<close> stat to the same device and inode, the check fails
  with the host-namespace error and so does the conversion; when they stat differently,
  the check passes.
\<close>

theorem checkSpec_rejects_host_netns:
  assumes "SpecRoot spec = Some root" and "SpecLinux spec = Some l"
    and "find (\<lambda>ns. NsType ns = ''network'' \<and> NsPath ns \<noteq> []) (Namespaces l) = Some ns"
    and "unixStat e ''/proc/self/ns/net'' = Inr st1" and "unixStat e (NsPath ns) = Inr st2"
  shows "(st1 = st2 \<longrightarrow>
            checkSpec e spec = Inl (Err HostNetnsShared)
          \<and> ConvertSpec e g mgr fs spec
              = Inl (Err (Wrapped ''invalid or unsupported container spec'' HostNetnsShared)))
       \<and> (st1 \<noteq> st2 \<longrightarrow> checkSpec e spec = Inr ())"
proof -
  have cs: "checkSpec e spec = (if st1 = st2 then Inl (Err HostNetnsShared) else Inr ())"
    using assms by (simp add: checkSpec_def checkNetNs_find)
  show ?thesis
    by (simp add: cs ConvertSpec_def)
qed

theorem checkSpec_rejects_host_netns_witness:
  "checkSpec exEnv (exSpec [''/bin/sh''] False ''/proc/1/ns/net'') = Inl (Err HostNetnsShared)
   \<and> ConvertSpec exEnv initGlobals exMgr exFs (exSpec [''/bin/sh''] False ''/proc/1/ns/net'')
       = Inl (Err (Wrapped ''invalid or unsupported container spec'' HostNetnsShared))
   \<and> checkSpec exEnv (exSpec [''/bin/sh''] False ''/run/netns/c1'') = Inr ()"
proof -
  let ?l1 = "exLinux ''/proc/1/ns/net''" and ?l2 = "exLinux ''/run/netns/c1''"
  let ?n1 = "\<lparr>NsType = ''network'', NsPath = ''/proc/1/ns/net''\<rparr>"
  let ?n2 = "\<lparr>NsType = ''network'', NsPath = ''/run/netns/c1''\<rparr>"
  have r: "SpecRoot (exSpec [''/bin/sh''] False np) = Some \<lparr>RootPath = ''/rootfs'', Readonly = False\<rparr>"
    and l: "SpecLinux (exSpec [''/bin/sh''] False np) = Some (exLinux np)" for np
    by (simp_all add: exSpec_def)
  have f1: "find (\<lambda>ns. NsType ns = ''network'' \<and> NsPath ns \<noteq> []) (Namespaces ?l1) = Some ?n1"
    and f2: "find (\<lambda>ns. NsType ns = ''network'' \<and> NsPath ns \<noteq> []) (Namespaces ?l2) = Some ?n2"
    by (simp_all add: exLinux_def exNamespaces_def)
  have s0: "unixStat exEnv ''/proc/self/ns/net'' = Inr (4, 4026531992)"
    and s1: "unixStat exEnv (NsPath ?n1) = Inr (4, 4026531992)"
    and s2: "unixStat exEnv (NsPath ?n2) = Inr (4, 4026532500)"
    by (simp_all add: exEnv_def exStat_def)
  show ?thesis
    using checkSpec_rejects_host_netns [OF r l f1 s0 s1, of initGlobals exMgr exFs]
      checkSpec_rejects_host_netns [OF r l f2 s0 s2, of initGlobals exMgr exFs]
    by simp
qed

section \<open>Seccomp: the whitelist branch\<close>

lemma fold_strip:
  "fold (\<lambda>name s. if \<not> StringSliceContains R name then s\<lparr>SyscallArgs := []\<rparr> else s) ns sc
     = (if \<exists>n \<in> set ns. n \<notin> set R then sc\<lparr>SyscallArgs := []\<rparr> else sc)"
  by (induction ns arbitrary: sc) (auto simp: StringSliceContains_def)

lemma stripArgs_eq:
  "stripArgs R sc = (if \<exists>n \<in> set (namesOf sc). n \<notin> set R then sc\<lparr>SyscallArgs := []\<rparr> else sc)"
  by (simp add: stripArgs_def fold_strip)

lemma stripArgs_fields [simp]:
  "Names (stripArgs R sc) = Names sc" "Action (stripArgs R sc) = Action sc"
  "namesOf (stripArgs R sc) = namesOf sc"
  by (simp_all add: stripArgs_eq namesOf_def)

lemma set_namesWithAction:
  "set (namesWithAction a scs) = (\<Union>sc \<in> {sc \<in> set scs. Action sc = a}. set (namesOf sc))"
  by (auto simp: namesWithAction_def NewSetOf_def split: if_splits)

lemma namesWithAction_map_stripArgs [simp]:
  "namesWithAction a (map (stripArgs R) scs) = namesWithAction a scs"
  by (simp add: namesWithAction_def comp_def cong: if_cong)

lemma set_namesWithAction_append:
  "set (namesWithAction a (xs @ ys)) = set (namesWithAction a xs) \<union> set (namesWithAction a ys)"
  by (auto simp: set_namesWithAction)

lemma cfgSeccomp_whitelist_eq:
  assumes "ArchX86_64 \<in> set (Architectures sec)"
    and "DefaultAction sec = ActErrno \<or> DefaultAction sec = ActKill"
  shows "cfgSeccomp e (Some sec) =
           Inr (Some (sec\<lparr>Syscalls :=
             map (stripArgs (syscontSyscallAllowRestrList e))
               (Syscalls sec @
                map (\<lambda>str. \<lparr>Names = Some [str], Action = ActAllow, SyscallArgs = []\<rparr>)
                  (setIter e (Difference (NewSetOf (syscontSyscallWhitelist e))
                     (namesWithAction ActAllow (Syscalls sec)))))\<rparr>))"
  using assms by (auto simp: cfgSeccomp_def Let_def list_ex_iff)

text \<open>
  C3.  For a seccomp profile that lists the x86_64 architecture and has default action
  errno or kill, the conversion succeeds; afterwards every name of the whitelist \<open>W\<close> is
  under action allow; the entries are the old ones followed by one new allow entry (one
  name, no arguments) per name of \<open>W\<close> outside the old allow set; and every entry with a
  name outside the restrictions-allowed list has no arguments.  The order in which the
  new entries are appended is that of the set enumeration, any rearrangement.
\<close>

theorem cfgSeccomp_whitelist_closure:
  assumes "ArchX86_64 \<in> set (Architectures sec)"
    and "DefaultAction sec = ActErrno \<or> DefaultAction sec = ActKill"
    and "\<forall>xs. mset (setIter e xs) = mset xs"
  shows "\<exists>sec' added.
           cfgSeccomp e (Some sec) = Inr (Some sec')
         \<and> set (syscontSyscallWhitelist e) \<subseteq> set (namesWithAction ActAllow (Syscalls sec'))
         \<and> Syscalls sec' = map (stripArgs (syscontSyscallAllowRestrList e)) (Syscalls sec) @ added
         \<and> mset added =
             image_mset (\<lambda>str. \<lparr>Names = Some [str], Action = ActAllow, SyscallArgs = []\<rparr>)
               (mset_set (set (syscontSyscallWhitelist e) - set (namesWithAction ActAllow (Syscalls sec))))
         \<and> (\<forall>sc \<in> set (Syscalls sec').
               (\<exists>n \<in> set (namesOf sc). n \<notin> set (syscontSyscallAllowRestrList e)) \<longrightarrow> SyscallArgs sc = [])"
proof -
  let ?R = "syscontSyscallAllowRestrList e"
  let ?D = "Difference (NewSetOf (syscontSyscallWhitelist e)) (namesWithAction ActAllow (Syscalls sec))"
  let ?mk = "\<lambda>str. \<lparr>Names = Some [str], Action = ActAllow, SyscallArgs = []\<rparr>"
  let ?new = "map ?mk (setIter e ?D)"
  let ?sec' = "sec\<lparr>Syscalls := map (stripArgs ?R) (Syscalls sec @ ?new)\<rparr>"
  let ?added = "map (stripArgs ?R) ?new"
  have it: "mset (setIter e ?D) = mset ?D" using assms(3) by simp
  then have its: "set (setIter e ?D) = set ?D" by (rule mset_eq_setD)
  have dD: "distinct ?D" by (simp add: Difference_def NewSetOf_def)
  have sD: "set ?D = set (syscontSyscallWhitelist e) - set (namesWithAction ActAllow (Syscalls sec))"
    by (auto simp: Difference_def NewSetOf_def)
  have added_eq: "?added = ?new"
    by (simp add: stripArgs_eq namesOf_def)
  have ok: "cfgSeccomp e (Some sec) = Inr (Some ?sec')"
    using assms(1,2) by (rule cfgSeccomp_whitelist_eq)
  have new_names: "set (namesWithAction ActAllow ?new) = set ?D"
    by (auto simp: set_namesWithAction namesOf_def its)
  have "namesWithAction ActAllow (Syscalls ?sec') = namesWithAction ActAllow (Syscalls sec @ ?new)"
    by (simp del: map_append map_map)
  then have "set (namesWithAction ActAllow (Syscalls ?sec'))
               = set (namesWithAction ActAllow (Syscalls sec)) \<union> set ?D"
    by (simp only: set_namesWithAction_append new_names)
  then have sup: "set (syscontSyscallWhitelist e) \<subseteq> set (namesWithAction ActAllow (Syscalls ?sec'))"
    using sD by blast
  have split: "Syscalls ?sec' = map (stripArgs ?R) (Syscalls sec) @ ?added"
    by simp
  have "mset ?new = image_mset ?mk (mset (setIter e ?D))"
    by (simp only: mset_map)
  also have "mset (setIter e ?D) = mset ?D" by (rule it)
  also have "mset ?D = mset_set (set ?D)"
    using dD by (simp add: mset_set_set)
  finally have ms: "mset ?added = image_mset ?mk
      (mset_set (set (syscontSyscallWhitelist e) - set (namesWithAction ActAllow (Syscalls sec))))"
    by (simp only: added_eq sD)
  have args: "\<forall>sc \<in> set (Syscalls ?sec'). (\<exists>n \<in> set (namesOf sc). n \<notin> set ?R) \<longrightarrow> SyscallArgs sc = []"
  proof (intro ballI impI)
    fix sc assume "sc \<in> set (Syscalls ?sec')" and ex: "\<exists>n \<in> set (namesOf sc). n \<notin> set ?R"
    then obtain sc0 where sc: "sc = stripArgs ?R sc0" by auto
    with ex have "\<exists>n \<in> set (namesOf sc0). n \<notin> set ?R" by simp
    then show "SyscallArgs sc = []" by (simp add: sc stripArgs_eq)
  qed
  show ?thesis
    apply (rule exI [of _ ?sec'], rule exI [of _ ?added])
    apply (intro conjI)
        apply (rule ok)
       apply (rule sup)
      apply (rule split)
     apply (rule ms)
    apply (rule args)
    done
qed

theorem cfgSeccomp_whitelist_closure_witness:
  "\<exists>sec' added.
     cfgSeccomp exEnv (Some exWhitelistProfile) = Inr (Some sec')
   \<and> set (syscontSyscallWhitelist exEnv) \<subseteq> set (namesWithAction ActAllow (Syscalls sec'))
   \<and> Syscalls sec' = map (stripArgs (syscontSyscallAllowRestrList exEnv)) (Syscalls exWhitelistProfile) @ added
   \<and> mset added =
       image_mset (\<lambda>str. \<lparr>Names = Some [str], Action = ActAllow, SyscallArgs = []\<rparr>)
         (mset_set (set (syscontSyscallWhitelist exEnv)
                    - set (namesWithAction ActAllow (Syscalls exWhitelistProfile))))
   \<and> (\<forall>sc \<in> set (Syscalls sec').
         (\<exists>n \<in> set (namesOf sc). n \<notin> set (syscontSyscallAllowRestrList exEnv)) \<longrightarrow> SyscallArgs sc = [])"
proof -
  have a: "ArchX86_64 \<in> set (Architectures exWhitelistProfile)"
    and b: "DefaultAction exWhitelistProfile = ActErrno \<or> DefaultAction exWhitelistProfile = ActKill"
    and c: "\<forall>xs. mset (setIter exEnv xs) = mset xs"
    by (simp_all add: exWhitelistProfile_def exEnv_def)
  show ?thesis
    by (rule cfgSeccomp_whitelist_closure [OF a b c])
qed

section \<open>Seccomp: the blacklist branch\<close>

text \<open>
  C1.  The blacklist branch computes \<open>disallowSet.Difference(syscontAllowSet)\<close>, the
  denied names outside the whitelist, where the claim has the denied names inside it.
  With \<open>mount\<close> in the whitelist and a default-allow profile that denies \<open>mount\<close> with
  errno, the conversion returns the profile unchanged: \<open>mount\<close> is still under errno.
\<close>

theorem cfgSeccomp_blacklist_keeps_whitelisted_denied:
  "cfgSeccomp exEnv (Some exBlacklistProfile) = Inr (Some exBlacklistProfile)
   \<and> ''mount'' \<in> set (syscontSyscallWhitelist exEnv)
   \<and> DefaultAction exBlacklistProfile = ActAllow
   \<and> ArchX86_64 \<in> set (Architectures exBlacklistProfile)
   \<and> ''mount'' \<in> set (namesWithAction ActErrno (Syscalls exBlacklistProfile))"
  by (simp add: cfgSeccomp_def exBlacklistProfile_def exEnv_def namesWithAction_def NewSetOf_def
        namesOf_def Difference_def Union_def Let_def removeNames_def Contains_def)

text \<open>
  The removal itself, on denied names outside the whitelist: an entry whose only name is
  removed is kept with an empty name list, and removing two adjacent names runs past the
  shortened slice.
\<close>

lemma cfgSeccomp_blacklist_keeps_empty_entry:
  "cfgSeccomp exEnv (Some (exBlacklistOf [''kexec_load''])) = Inr (Some (exBlacklistOf []))"
  by (simp add: cfgSeccomp_def exBlacklistOf_def exEnv_def namesWithAction_def NewSetOf_def
        namesOf_def Difference_def Union_def Let_def removeNames_def Contains_def)

lemma cfgSeccomp_blacklist_panics:
  "cfgSeccomp exEnv (Some (exBlacklistOf [''kexec_load'', ''reboot''])) = Inl (Panic SliceBoundsOutOfRange)"
  by (simp add: cfgSeccomp_def exBlacklistOf_def exEnv_def namesWithAction_def NewSetOf_def
        namesOf_def Difference_def Union_def Let_def removeNames_def Contains_def upt_rec)

lemma cfgSeccomp_blacklist_skips_neighbour:
  "cfgSeccomp exEnv (Some (exBlacklistOf [''kexec_load'', ''reboot'', ''read'', ''mount'']))
     = Inr (Some (exBlacklistOf [''reboot'', ''mount'']))"
  by (simp add: cfgSeccomp_def exBlacklistOf_def exEnv_def namesWithAction_def NewSetOf_def
        namesOf_def Difference_def Union_def Let_def removeNames_def Contains_def upt_rec)

text \<open>
  What the blacklist branch does in general: a name outside \<open>diffSet\<close> is never removed
  from an entry, and no name of the whitelist is in \<open>diffSet\<close>.  So whenever the
  conversion of a default-allow profile returns, every whitelisted name that was under
  errno or kill is still under it.
\<close>

lemma foldl_removeStep_Inl [simp]: "foldl (removeStep D) (Inl f) idxs = Inl f"
  by (induction idxs) simp_all

lemma removeStep_keeps:
  assumes "removeStep D (Inr (buf, n)) i = Inr (buf', n')" and "n \<le> length buf" and "i < length buf"
  shows "n' \<le> length buf' \<and> length buf' = length buf
       \<and> filter (\<lambda>x. x \<notin> set D) (take n' buf') = filter (\<lambda>x. x \<notin> set D) (take n buf)"
proof (cases "Contains D (buf ! i)")
  case False
  with assms show ?thesis by simp
next
  case True
  with assms have le: "i + 1 \<le> n"
    and buf': "buf' = take i buf @ take (n - (i + 1)) (drop (i + 1) buf) @ drop (n - 1) buf"
    and n': "n' = n - 1"
    by (auto split: if_splits)
  have len: "length buf' = length buf" using le assms(2) by (simp add: buf')
  have t': "take n' buf' = take i buf @ take (n - (i + 1)) (drop (i + 1) buf)"
    using le assms(2) by (simp add: buf' n')
  have "take n buf = take i buf @ take (n - i) (drop i buf)"
    using le by (metis add_diff_cancel_left' le_add_diff_inverse less_imp_le_nat
        less_eq_Suc_le Suc_eq_plus1 take_add)
  also have "take (n - i) (drop i buf) = buf ! i # take (n - (i + 1)) (drop (i + 1) buf)"
  proof -
    have "n - i = Suc (n - (i + 1))" using le by simp
    moreover have "drop i buf = buf ! i # drop (i + 1) buf"
      using assms(3) by (simp add: Cons_nth_drop_Suc)
    ultimately show ?thesis by simp
  qed
  finally have t: "take n buf = take i buf @ buf ! i # take (n - (i + 1)) (drop (i + 1) buf)" .
  have "filter (\<lambda>x. x \<notin> set D) (take n' buf') = filter (\<lambda>x. x \<notin> set D) (take n buf)"
    unfolding t t' using True by (simp add: Contains_def)
  moreover have "n' \<le> length buf'" using len le assms(2) n' by simp
  ultimately show ?thesis using len by simp
qed

lemma foldl_removeStep_keeps:
  "foldl (removeStep D) (Inr (buf, n)) idxs = Inr (buf', n') \<Longrightarrow> n \<le> length buf
   \<Longrightarrow> \<forall>i \<in> set idxs. i < length buf
   \<Longrightarrow> n' \<le> length buf' \<and> length buf' = length buf
       \<and> filter (\<lambda>x. x \<notin> set D) (take n' buf') = filter (\<lambda>x. x \<notin> set D) (take n buf)"
proof (induction idxs arbitrary: buf n)
  case Nil
  then show ?case by simp
next
  case (Cons i idxs)
  show ?case
  proof (cases "removeStep D (Inr (buf, n)) i")
    case (Inl f)
    with Cons.prems(1) show ?thesis by simp
  next
    case (Inr st)
    obtain b1 n1 where st: "st = (b1, n1)" by (cases st)
    have i: "i < length buf" using Cons.prems(3) by simp
    have rs: "removeStep D (Inr (buf, n)) i = Inr (b1, n1)" using Inr st by simp
    note k = removeStep_keeps [OF rs Cons.prems(2) i]
    from Cons.prems(1) Inr st have "foldl (removeStep D) (Inr (b1, n1)) idxs = Inr (buf', n')"
      by simp
    from Cons.IH [OF this] k Cons.prems(3) show ?thesis by simp
  qed
qed

lemma removeNames_keeps:
  assumes "removeNames D ns = Inr ns'"
  shows "filter (\<lambda>x. x \<notin> set D) ns' = filter (\<lambda>x. x \<notin> set D) ns"
proof -
  from assms obtain buf n where
    f: "foldl (removeStep D) (Inr (ns, length ns)) [0..<length ns] = Inr (buf, n)" and ns': "ns' = take n buf"
    by (auto simp: removeNames_def split: sum.splits)
  from foldl_removeStep_keeps [OF f] show ?thesis by (simp add: ns')
qed

lemma removeDiffSet_keeps:
  "removeDiffSet D scs = Inr scs' \<Longrightarrow> n \<notin> set D \<Longrightarrow> n \<in> set (namesWithAction a scs)
   \<Longrightarrow> n \<in> set (namesWithAction a scs')"
proof (induction scs arbitrary: scs')
  case Nil
  then show ?case by simp
next
  case (Cons sc scs)
  show ?case
  proof (cases "Names sc")
    case None
    then have "namesOf sc = []" by (simp add: namesOf_def)
    with Cons None show ?thesis by (auto simp: set_namesWithAction)
  next
    case (Some ns)
    with Cons.prems(1) obtain ns' r where
      rn: "removeNames D ns = Inr ns'" and rr: "removeDiffSet D scs = Inr r"
      and scs': "scs' = sc\<lparr>Names := Some ns'\<rparr> # r"
      by (auto split: sum.splits)
    have keep: "n \<in> set ns'" if "n \<in> set ns"
    proof -
      from that Cons.prems(2) have "n \<in> set (filter (\<lambda>x. x \<notin> set D) ns)" by simp
      then have "n \<in> set (filter (\<lambda>x. x \<notin> set D) ns')"
        by (simp only: removeNames_keeps [OF rn])
      then show ?thesis by simp
    qed
    from Cons.prems(3) consider "Action sc = a" "n \<in> set ns" | "n \<in> set (namesWithAction a scs)"
      using Some by (auto simp: set_namesWithAction namesOf_def)
    then show ?thesis
    proof cases
      case 1
      with keep show ?thesis by (auto simp: scs' set_namesWithAction namesOf_def)
    next
      case 2
      from Cons.IH [OF rr Cons.prems(2) 2] show ?thesis
        by (auto simp: scs' set_namesWithAction)
    qed
  qed
qed

lemma cfgSeccomp_blacklist_never_unblocks_whitelisted:
  assumes "ArchX86_64 \<in> set (Architectures sec)" and "DefaultAction sec = ActAllow"
    and "cfgSeccomp e (Some sec) = Inr (Some sec')"
    and "n \<in> set (syscontSyscallWhitelist e)" and "n \<in> set (namesWithAction a (Syscalls sec))"
  shows "n \<in> set (namesWithAction a (Syscalls sec'))"
proof -
  let ?D = "Difference (Union (namesWithAction ActErrno (Syscalls sec)) (namesWithAction ActKill (Syscalls sec)))
              (NewSetOf (syscontSyscallWhitelist e))"
  from assms(1,2,3) obtain new where
    rd: "removeDiffSet ?D (Syscalls sec) = Inr new" and sec': "sec' = sec\<lparr>Syscalls := new\<rparr>"
    by (auto simp: cfgSeccomp_def Let_def list_ex_iff split: sum.splits)
  have "n \<notin> set ?D" using assms(4) by (simp add: Difference_def NewSetOf_def)
  from removeDiffSet_keeps [OF rd this assms(5)] show ?thesis by (simp add: sec')
qed

section \<open>ID mappings\<close>

lemma mergeIDMappings_cases:
  "(idMaps = [] \<and> mergeIDMappings idMaps = Inr [])
   \<or> (idMaps \<noteq> [] \<and> mergeIDMappings idMaps = Inl (Err NonContiguousIDMappings))
   \<or> (idMaps \<noteq> [] \<and> (\<exists>m. mergeIDMappings idMaps = Inr [m]))"
proof (cases "sort_key (\<lambda>m. unat (ContainerID m)) idMaps")
  case Nil
  then have "idMaps = []" by (metis length_sort list.size(3) length_0_conv)
  then show ?thesis by (simp add: mergeIDMappings_def)
next
  case (Cons first rest)
  then have ne: "idMaps \<noteq> []" by auto
  have "mergeFold a b xs = Inl (Err NonContiguousIDMappings) \<or> (\<exists>m. mergeFold a b xs = Inr m)" for a b xs
    by (induction xs arbitrary: a b) auto
  from this [of first first rest] show ?thesis
    using Cons ne by (auto simp: mergeIDMappings_def)
qed

lemma spec_update_same: "SpecLinux spec = Some l \<Longrightarrow> spec\<lparr>SpecLinux := Some l\<rparr> = spec"
  by (cases spec) simp

lemma cfgIDMappings_no_override:
  assumes "\<not> MgrEnabled mgr \<or> (ConfigUidMappings mgr = [] \<and> ConfigGidMappings mgr = [])"
    and "SpecLinux spec = Some l" and "UIDMappings l \<noteq> [] \<or> GIDMappings l \<noteq> []"
  shows "cfgIDMappings mgr spec = validateIDMappings spec"
  using assms by (auto simp: cfgIDMappings_def Let_def spec_update_same derefLinux_def)

lemma validateIDMappings_eq:
  assumes "SpecLinux spec = Some l"
  shows "validateIDMappings spec =
     (if UIDMappings l = [] \<or> GIDMappings l = [] then Inl (Err MissingIDMappings)
      else case mergeIDMappings (UIDMappings l) of
        Inl f \<Rightarrow> Inl f
      | Inr uids \<Rightarrow>
         (case mergeIDMappings (GIDMappings l) of
            Inl f \<Rightarrow> Inl f
          | Inr gids \<Rightarrow>
             (case uids of [] \<Rightarrow> Inl (Panic IndexOutOfRange)
              | u # _ \<Rightarrow>
                (case gids of [] \<Rightarrow> Inl (Panic IndexOutOfRange)
                 | g # _ \<Rightarrow>
                   if ContainerID u \<noteq> 0 \<or> Size u < IdRangeMin then Inl (Err BadUidRange)
                   else if ContainerID g \<noteq> 0 \<or> Size g < IdRangeMin then Inl (Err BadGidRange)
                   else if HostID u \<noteq> HostID g then Inl (Err NonMatchingIDMappings)
                   else if HostID u = 0 then Inl (Err UidMapsHostRoot)
                   else if HostID g = 0 then Inl (Err GidMapsHostRoot)
                   else Inr (spec\<lparr>SpecLinux := Some (l\<lparr>UIDMappings := uids, GIDMappings := gids\<rparr>)\<rparr>)))))"
  using assms
  by (simp add: validateIDMappings_def derefLinux_def andThen_def index0_def
        split: sum.splits list.splits)

text \<open>
  C4.  With no manager override and at least one UID or GID mapping in the spec,
  \<open>cfgIDMappings\<close> succeeds exactly when each of the two lists merges to one range, that
  range starts at container id 0 with at least 65536 ids, the two host ids are equal,
  and the host id is not 0.  A list that merges to a range with host id 0 makes it
  return an error.
\<close>

theorem cfgIDMappings_validates:
  assumes "\<not> MgrEnabled mgr \<or> (ConfigUidMappings mgr = [] \<and> ConfigGidMappings mgr = [])"
    and "SpecLinux spec = Some l" and "UIDMappings l \<noteq> [] \<or> GIDMappings l \<noteq> []"
  shows "((\<exists>spec'. cfgIDMappings mgr spec = Inr spec') \<longleftrightarrow>
            (\<exists>u g. mergeIDMappings (UIDMappings l) = Inr [u] \<and> mergeIDMappings (GIDMappings l) = Inr [g]
               \<and> ContainerID u = 0 \<and> IdRangeMin \<le> Size u
               \<and> ContainerID g = 0 \<and> IdRangeMin \<le> Size g
               \<and> HostID u = HostID g \<and> HostID u \<noteq> 0))
       \<and> (\<forall>m. (mergeIDMappings (UIDMappings l) = Inr [m] \<or> mergeIDMappings (GIDMappings l) = Inr [m])
              \<and> HostID m = 0 \<longrightarrow> (\<exists>err. cfgIDMappings mgr spec = Inl (Err err)))"
proof -
  have eq: "cfgIDMappings mgr spec = validateIDMappings spec"
    using assms by (rule cfgIDMappings_no_override)
  note v = validateIDMappings_eq [OF assms(2)]
  show ?thesis
    using mergeIDMappings_cases [of "UIDMappings l"] mergeIDMappings_cases [of "GIDMappings l"]
    unfolding eq v
    by (elim disjE conjE exE) (auto simp: not_less)
qed

theorem cfgIDMappings_validates_witness:
  "(\<exists>spec'. cfgIDMappings exMgr (exSpecWithMaps exSplitMaps exSplitMaps) = Inr spec')
   \<and> mergeIDMappings exSplitMaps = Inr [\<lparr>ContainerID = 0, HostID = 100000, Size = 65536\<rparr>]
   \<and> (\<exists>err. cfgIDMappings exMgr (exSpecWithMaps exHostRootMaps exHostRootMaps) = Inl (Err err))"
proof -
  have m: "mergeIDMappings exSplitMaps = Inr [\<lparr>ContainerID = 0, HostID = 100000, Size = 65536\<rparr>]"
    by (simp add: mergeIDMappings_def exSplitMaps_def)
  have r: "mergeIDMappings exHostRootMaps = Inr [\<lparr>ContainerID = 0, HostID = 0, Size = 65536\<rparr>]"
    by (simp add: mergeIDMappings_def exHostRootMaps_def)
  have a: "\<not> MgrEnabled exMgr \<or> (ConfigUidMappings exMgr = [] \<and> ConfigGidMappings exMgr = [])"
    by (simp add: exMgr_def)
  have l: "SpecLinux (exSpecWithMaps us gs) = Some ((exLinux [])\<lparr>UIDMappings := us, GIDMappings := gs\<rparr>)" for us gs
    by (simp add: exSpecWithMaps_def)
  have n1: "UIDMappings ((exLinux [])\<lparr>UIDMappings := exSplitMaps, GIDMappings := exSplitMaps\<rparr>) \<noteq> []
            \<or> GIDMappings ((exLinux [])\<lparr>UIDMappings := exSplitMaps, GIDMappings := exSplitMaps\<rparr>) \<noteq> []"
    and n2: "UIDMappings ((exLinux [])\<lparr>UIDMappings := exHostRootMaps, GIDMappings := exHostRootMaps\<rparr>) \<noteq> []
            \<or> GIDMappings ((exLinux [])\<lparr>UIDMappings := exHostRootMaps, GIDMappings := exHostRootMaps\<rparr>) \<noteq> []"
    by (simp_all add: exSplitMaps_def exHostRootMaps_def)
  show ?thesis
    using cfgIDMappings_validates [OF a l n1] cfgIDMappings_validates [OF a l n2] m r
    by (simp add: IdRangeMin_def)
qed

section \<open>Read-only root filesystem\<close>

lemma set_MountSliceRemove:
  "set (MountSliceRemove s db cmp) = {m \<in> set s. \<forall>d \<in> set db. \<not> cmp m d}"
  by (auto simp: MountSliceRemove_def list_ex_iff)

lemma makeReadonly_fields [simp]:
  "Destination (makeReadonly m) = Destination m"
  "''ro'' \<in> set (Options (makeReadonly m))"
  "''rw'' \<notin> set (Options (makeReadonly m))"
  by (simp_all add: makeReadonly_def)

lemma cfgSysboxMounts_readonly:
  assumes "cfgSysboxMounts g s = Inr (g1, s1)" and "SpecRoot s = Some root" and "Readonly root"
  shows "sysboxFsMounts g1 = sysboxFsMounts g \<and> sysboxSystemdMounts g1 = sysboxSystemdMounts g
       \<and> SpecLinux s1 = SpecLinux s \<and> SpecRoot s1 = SpecRoot s
       \<and> (\<forall>m \<in> set (sysboxMounts g). HasPrefix (Destination m) ''/sys'' \<longrightarrow> makeReadonly m \<in> set (Mounts s1))"
  using assms by (auto simp: cfgSysboxMounts_def Let_def derefRoot_def)

lemma cfgSysboxFsMounts_readonly:
  assumes "cfgSysboxFsMounts e g1 fs s1 = Inr (g2, s2)" and "SpecRoot s1 = Some root" and "Readonly root"
  shows "sysboxSystemdMounts g2 = sysboxSystemdMounts g1 \<and> SpecRoot s2 = SpecRoot s1
       \<and> (\<exists>l l2. SpecLinux s1 = Some l \<and> SpecLinux s2 = Some l2
              \<and> ReadonlyPaths l2 = ReadonlyPaths l @ map Destination (sysboxFsMounts g1))
       \<and> (\<forall>m \<in> set (Mounts s1). Destination m \<notin> Destination ` set (sysboxFsMounts g1) \<longrightarrow> m \<in> set (Mounts s2))
       \<and> (\<forall>m \<in> set (sysboxFsMounts g1). \<exists>m' \<in> set (Mounts s2).
              Destination m' = Destination m \<and> Options m' = Options m \<and> MountType m' = MountType m)"
proof -
  from assms obtain l where l: "SpecLinux s1 = Some l"
    by (auto simp: cfgSysboxFsMounts_def Let_def derefRoot_def andThen_eq_Inr)
  let ?fsm = "map (\<lambda>m. m\<lparr>Source := stringsReplace1 (Source m) (SysboxFsDir g1)
                          (filepathJoin e (Mountpoint fs) (FsId fs))\<rparr>) (sysboxFsMounts g1)"
  from assms l have g2: "g2 = g1\<lparr>sysboxFsMounts := ?fsm, SysboxFsDir := Mountpoint fs\<rparr>"
    and s2: "s2 = s1\<lparr>SpecLinux := Some (l\<lparr>ReadonlyPaths := ReadonlyPaths l @ map Destination ?fsm\<rparr>),
                    Mounts := MountSliceRemove (Mounts s1) (sysboxFsMounts g1)
                                (\<lambda>m1 m2. Destination m1 = Destination m2) @ ?fsm\<rparr>"
    by (simp_all add: cfgSysboxFsMounts_def Let_def derefRoot_def derefLinux_def)
  have d: "map Destination ?fsm = map Destination (sysboxFsMounts g1)"
    by (simp add: comp_def)
  have ex: "\<exists>m' \<in> set ?fsm. Destination m' = Destination m \<and> Options m' = Options m \<and> MountType m' = MountType m"
    if "m \<in> set (sysboxFsMounts g1)" for m
    using that by (intro bexI [of _ "m\<lparr>Source := stringsReplace1 (Source m) (SysboxFsDir g1)
                          (filepathJoin e (Mountpoint fs) (FsId fs))\<rparr>"]) simp_all
  show ?thesis
    unfolding g2 s2 using l d ex
    by (auto simp: set_MountSliceRemove image_iff simp del: set_map)
qed

lemma sysMgrSetupMounts_appends:
  "sysMgrSetupMounts e m s sh = Inr s1 \<Longrightarrow> \<exists>ms. s1 = s\<lparr>Mounts := Mounts s @ ms\<rparr>"
  unfolding sysMgrSetupMounts_def andThen_eq_Inr Let_def split_beta
  by (elim exE conjE) (auto split: if_splits sum.splits option.splits)

lemma cfgSystemdMounts_keeps:
  assumes "cfgSystemdMounts g s = (g1, s1)"
  shows "SpecLinux s1 = SpecLinux s \<and> SpecRoot s1 = SpecRoot s
       \<and> (\<forall>m \<in> set (Mounts s). Destination m \<notin> Destination ` set (sysboxSystemdMounts g) \<longrightarrow> m \<in> set (Mounts s1))"
  using assms by (auto simp: cfgSystemdMounts_def Let_def set_MountSliceRemove image_iff)

lemma cfgMounts_readonly:
  assumes cm: "cfgMounts e g s mgr fs sh = Inr (g', s')"
    and root: "SpecRoot s = Some root" and ro: "Readonly root"
    and sort: "\<forall>ms. set (sortMounts e ms) = set ms"
  shows "(\<forall>m \<in> set (sysboxMounts g).
            HasPrefix (Destination m) ''/sys''
          \<and> Destination m \<notin> Destination ` set (sysboxFsMounts g)
          \<and> Destination m \<notin> Destination ` set (sysboxSystemdMounts g)
          \<longrightarrow> makeReadonly m \<in> set (Mounts s'))
       \<and> (FsEnabled fs \<longrightarrow>
            (\<forall>m \<in> set (sysboxFsMounts g).
               Destination m \<notin> Destination ` set (sysboxSystemdMounts g) \<longrightarrow>
               (\<exists>m' \<in> set (Mounts s').
                  Destination m' = Destination m \<and> Options m' = Options m \<and> MountType m' = MountType m))
          \<and> (\<exists>l l'. SpecLinux s = Some l \<and> SpecLinux s' = Some l'
                 \<and> ReadonlyPaths l' = ReadonlyPaths l @ map Destination (sysboxFsMounts g)))"
proof -
  from cfgMounts_InrD [OF cm] obtain x y sc sd z where
    A: "cfgSysboxMounts g s = Inr x" and
    B: "(if FsEnabled fs then cfgSysboxFsMounts e (fst x) fs (snd x) else Inr x) = Inr y" and
    C: "(if MgrEnabled mgr then sysMgrSetupMounts e mgr (snd y) sh else Inr (snd y)) = Inr sc" and
    E: "(if sd then cfgSystemdMounts (fst y) sc else (fst y, sc)) = z" and
    F: "s' = (snd z)\<lparr>Mounts := sortMounts e (Mounts (snd z))\<rparr>"
    by blast
  obtain g1 s1 where x: "x = (g1, s1)" by (cases x)
  obtain g2 s2 where y: "y = (g2, s2)" by (cases y)
  obtain g4 s4 where z: "z = (g4, s4)" by (cases z)
  note a = cfgSysboxMounts_readonly [OF A [unfolded x] root ro]
  have root1: "SpecRoot s1 = Some root" using a root by simp
  \<comment> \<open>from the required mounts to the end of the planner\<close>
  have c: "set (Mounts s2) \<subseteq> set (Mounts sc) \<and> SpecLinux sc = SpecLinux s2"
    using C y by (auto dest!: sysMgrSetupMounts_appends split: if_splits)
  have sdm: "sysboxSystemdMounts g2 = sysboxSystemdMounts g"
    using B x y a cfgSysboxFsMounts_readonly [OF _ root1 ro, of e g1 fs g2 s2]
    by (auto split: if_splits)
  have e: "SpecLinux s4 = SpecLinux sc
         \<and> (\<forall>m \<in> set (Mounts sc). Destination m \<notin> Destination ` set (sysboxSystemdMounts g) \<longrightarrow> m \<in> set (Mounts s4))"
    using E y z sdm cfgSystemdMounts_keeps [of g2 sc g4 s4]
    by (auto split: if_splits)
  have f: "set (Mounts s') = set (Mounts s4)" "SpecLinux s' = SpecLinux s4"
    using F z sort by simp_all
  have keep2: "m \<in> set (Mounts s')"
    if "m \<in> set (Mounts s2)" "Destination m \<notin> Destination ` set (sysboxSystemdMounts g)" for m
    using that c e f by blast
  have b1: "\<forall>m \<in> set (Mounts s1). Destination m \<notin> Destination ` set (sysboxFsMounts g) \<longrightarrow> m \<in> set (Mounts s2)"
    using B x y a cfgSysboxFsMounts_readonly [OF _ root1 ro, of e g1 fs g2 s2]
    by (auto split: if_splits)
  have part1: "makeReadonly m \<in> set (Mounts s')"
    if "m \<in> set (sysboxMounts g)" "HasPrefix (Destination m) ''/sys''"
       "Destination m \<notin> Destination ` set (sysboxFsMounts g)"
       "Destination m \<notin> Destination ` set (sysboxSystemdMounts g)" for m
  proof -
    have "makeReadonly m \<in> set (Mounts s1)" using a that by blast
    then have "makeReadonly m \<in> set (Mounts s2)" using b1 that by simp
    then show ?thesis using keep2 that by simp
  qed
  have part2: "\<exists>m' \<in> set (Mounts s'). Destination m' = Destination m \<and> Options m' = Options m \<and> MountType m' = MountType m"
    if en: "FsEnabled fs" and "m \<in> set (sysboxFsMounts g)"
       "Destination m \<notin> Destination ` set (sysboxSystemdMounts g)" for m
  proof -
    from B x y en have fsm: "cfgSysboxFsMounts e g1 fs s1 = Inr (g2, s2)" by simp
    from cfgSysboxFsMounts_readonly [OF fsm root1 ro] a that
    obtain m' where "m' \<in> set (Mounts s2)" "Destination m' = Destination m" "Options m' = Options m"
      "MountType m' = MountType m" by auto
    with keep2 [of m'] that show ?thesis by auto
  qed
  have part3: "\<exists>l l'. SpecLinux s = Some l \<and> SpecLinux s' = Some l'
                 \<and> ReadonlyPaths l' = ReadonlyPaths l @ map Destination (sysboxFsMounts g)"
    if en: "FsEnabled fs"
  proof -
    from B x y en have fsm: "cfgSysboxFsMounts e g1 fs s1 = Inr (g2, s2)" by simp
    from cfgSysboxFsMounts_readonly [OF fsm root1 ro] a c e f show ?thesis by auto
  qed
  show ?thesis
    using part1 part2 part3 by blast
qed

lemma init_sys_mounts_apart:
  "\<forall>m \<in> set initSysboxMounts. HasPrefix (Destination m) ''/sys'' \<longrightarrow>
      Destination m \<notin> Destination ` set initSysboxFsMounts
    \<and> Destination m \<notin> Destination ` set initSysboxSystemdMounts"
  by (simp add: initSysboxMounts_def initSysboxFsMounts_def initSysboxSystemdMounts_def mkMount_def
        HasPrefix_def)

lemma init_fs_mounts_apart:
  "\<forall>m \<in> set initSysboxFsMounts.
      Destination m \<notin> Destination ` set initSysboxSystemdMounts
    \<and> ''ro'' \<notin> set (Options m)
    \<and> (Destination m \<noteq> ''/proc/sys'' \<longrightarrow>
          Destination m \<notin> set sysboxRwPaths \<and> Destination m \<notin> set sysboxSystemdRwPaths)"
  by (simp add: initSysboxFsMounts_def initSysboxSystemdMounts_def mkMount_def
        sysboxRwPaths_def sysboxSystemdRwPaths_def)

text \<open>
  What the conversion delivers of the read-only propagation.  With a read-only root
  filesystem and the initial tables, after a successful conversion: every
  sysbox-required mount whose destination starts with \<open>/sys\<close> is in the mount list
  with \<open>ro\<close> and without \<open>rw\<close>; when the filesystem virtualizer is enabled, every
  virtualized mount is in the mount list with its options unchanged (no \<open>ro\<close>), and
  every virtualized destination other than \<open>/proc/sys\<close> is in the read-only paths.
\<close>

lemma ConvertSpec_readonly_propagation:
  assumes conv: "ConvertSpec e initGlobals mgr fs spec = Inr (g', b1, b2, spec')"
    and root: "SpecRoot spec = Some root" and ro: "Readonly root"
    and sort: "\<forall>ms. set (sortMounts e ms) = set ms"
  shows "(\<forall>m \<in> set initSysboxMounts. HasPrefix (Destination m) ''/sys'' \<longrightarrow>
            (\<exists>m' \<in> set (Mounts spec').
               Destination m' = Destination m \<and> MountType m' = MountType m \<and> Source m' = Source m
             \<and> ''ro'' \<in> set (Options m') \<and> ''rw'' \<notin> set (Options m')))
       \<and> (FsEnabled fs \<longrightarrow>
            (\<forall>m \<in> set initSysboxFsMounts.
               \<exists>m' \<in> set (Mounts spec').
                 Destination m' = Destination m \<and> Options m' = Options m \<and> ''ro'' \<notin> set (Options m'))
          \<and> (\<exists>l'. SpecLinux spec' = Some l'
                 \<and> (\<forall>m \<in> set initSysboxFsMounts.
                       Destination m \<noteq> ''/proc/sys'' \<longrightarrow> Destination m \<in> set (ReadonlyPaths l'))))"
proof -
  from ConvertSpec_InrD [OF conv] obtain s1 s2 s3 s4 s5 s6 l6 sec pr where
    ns: "cfgNamespaces e mgr spec = Inr s1" and
    ids: "cfgIDMappings mgr s1 = Inr s2" and
    mnt: "cfgMounts e initGlobals s2 mgr fs b2 = Inr (g', s3)" and
    mp: "cfgMaskedPaths s3 = Inr s4" and
    rp: "cfgReadonlyPaths s4 = Inr s5" and
    oom: "cfgOomScoreAdj s5 = Inr s6" and
    l6: "SpecLinux s6 = Some l6" and
    fin: "spec' = s6\<lparr>SpecLinux := Some (l6\<lparr>Seccomp := sec\<rparr>), SpecProcess := Some pr\<rparr>"
    by blast
  from ns have r1: "SpecRoot s1 = SpecRoot spec"
    using cfgNamespaces_Inr by fastforce
  from ids have r2: "SpecRoot s2 = SpecRoot s1"
    using cfgIDMappings_Inr by fastforce
  have root2: "SpecRoot s2 = Some root" using r1 r2 root by simp
  note planner = cfgMounts_readonly [OF mnt root2 ro sort]
  from cfgMaskedPaths_Inr [OF mp] obtain l3 where
    l3: "SpecLinux s3 = Some l3" and m4: "Mounts s4 = Mounts s3" and
    l4: "\<exists>l4. SpecLinux s4 = Some l4 \<and> ReadonlyPaths l4 = ReadonlyPaths l3"
    by auto
  from l4 obtain l4 where l4: "SpecLinux s4 = Some l4" and r4: "ReadonlyPaths l4 = ReadonlyPaths l3"
    by blast
  from cfgReadonlyPaths_Inr [OF rp] l4 obtain sd where
    m5: "Mounts s5 = Mounts s4" and
    l5: "SpecLinux s5 = Some (l4\<lparr>ReadonlyPaths :=
            StringSliceRemove (if sd then StringSliceRemove (ReadonlyPaths l4) sysboxSystemdRwPaths
                               else ReadonlyPaths l4) sysboxRwPaths\<rparr>)"
    by auto
  from cfgOomScoreAdj_Inr [OF oom] have m6: "Mounts s6 = Mounts s5" and l65: "SpecLinux s6 = SpecLinux s5"
    by simp_all
  have mounts: "Mounts spec' = Mounts s3"
    using fin m6 m5 m4 by simp
  have rpaths: "ReadonlyPaths l6 =
      StringSliceRemove (if sd then StringSliceRemove (ReadonlyPaths l3) sysboxSystemdRwPaths
                         else ReadonlyPaths l3) sysboxRwPaths"
    using l6 l65 l5 r4 by (cases sd) auto
  have lin: "SpecLinux spec' = Some (l6\<lparr>Seccomp := sec\<rparr>)" using fin by simp
  have part1: "\<exists>m' \<in> set (Mounts spec').
               Destination m' = Destination m \<and> MountType m' = MountType m \<and> Source m' = Source m
             \<and> ''ro'' \<in> set (Options m') \<and> ''rw'' \<notin> set (Options m')"
    if "m \<in> set initSysboxMounts" "HasPrefix (Destination m) ''/sys''" for m
  proof -
    have "makeReadonly m \<in> set (Mounts s3)"
      using planner that init_sys_mounts_apart by (simp add: initGlobals_def)
    then show ?thesis
      unfolding mounts by (intro bexI [of _ "makeReadonly m"]) (simp_all, simp add: makeReadonly_def)
  qed
  have part2: "\<exists>m' \<in> set (Mounts spec').
                 Destination m' = Destination m \<and> Options m' = Options m \<and> ''ro'' \<notin> set (Options m')"
    if "FsEnabled fs" "m \<in> set initSysboxFsMounts" for m
  proof -
    from planner that init_fs_mounts_apart obtain m' where
      "m' \<in> set (Mounts s3)" "Destination m' = Destination m" "Options m' = Options m"
      by (auto simp: initGlobals_def)
    then show ?thesis
      unfolding mounts using that init_fs_mounts_apart by auto
  qed
  have part3: "\<forall>m \<in> set initSysboxFsMounts.
                       Destination m \<noteq> ''/proc/sys'' \<longrightarrow> Destination m \<in> set (ReadonlyPaths l6)"
    if en: "FsEnabled fs"
  proof -
    from planner en l3 have "set (map Destination initSysboxFsMounts) \<subseteq> set (ReadonlyPaths l3)"
      by (auto simp: initGlobals_def)
    then have "Destination m \<in> set (ReadonlyPaths l3)" if "m \<in> set initSysboxFsMounts" for m
      using that by auto
    then show ?thesis
      unfolding rpaths using init_fs_mounts_apart by auto
  qed
  show ?thesis
    using part1 part2 part3 lin by auto
qed

text \<open>
  The mount planner does put \<open>/proc/sys\<close> on the read-only list: after
  \<open>cfgSysboxFsMounts\<close> on a spec with a read-only root and the initial tables,
  \<open>/proc/sys\<close> is among the read-only paths.
\<close>

lemma cfgSysboxFsMounts_adds_proc_sys:
  assumes "cfgSysboxFsMounts e initGlobals fs spec = Inr (g1, s1)"
    and "SpecRoot spec = Some root" and "Readonly root"
  shows "\<exists>l1. SpecLinux s1 = Some l1 \<and> ''/proc/sys'' \<in> set (ReadonlyPaths l1)"
proof -
  from cfgSysboxFsMounts_readonly [OF assms]
  have "\<exists>l l2. SpecLinux spec = Some l \<and> SpecLinux s1 = Some l2
          \<and> ReadonlyPaths l2 = ReadonlyPaths l @ map Destination (sysboxFsMounts initGlobals)"
    by (elim conjE)
  then obtain l :: Linux and l1 :: Linux where
    "SpecLinux s1 = Some l1"
    "ReadonlyPaths l1 = ReadonlyPaths l @ map Destination (sysboxFsMounts initGlobals)"
    by blast
  then show ?thesis
    by (simp add: initGlobals_def initSysboxFsMounts_def mkMount_def)
qed

text \<open>
  C2.  With a read-only root filesystem \<open>cfgSysboxFsMounts\<close> appends every virtualized
  destination, \<open>/proc/sys\<close> among them, to the read-only paths, as its comment says
  (the sysbox-fs mounts are to be remounted read-only once the container is set up).
  \<open>ConvertSpec\<close> then runs \<open>cfgReadonlyPaths\<close>, which takes \<open>/proc/sys\<close> out again.
  On this spec with a read-only root and the filesystem virtualizer enabled, the converted
  spec has the other four virtualized destinations in its read-only paths and not
  \<open>/proc/sys\<close>.
\<close>

theorem ConvertSpec_readonly_drops_proc_sys:
  "convertedReadonlyPaths
     (ConvertSpec exEnv initGlobals exMgr exFs (exSpec [''/bin/sh''] True ''/run/netns/c1''))
     = Some [''/proc/bus'', ''/tmp'', ''/proc/swaps'', ''/proc/uptime'',
             ''/sys/devices/virtual/dmi/id/product_uuid'',
             ''/sys/module/nf_conntrack/parameters/hashsize'']
   \<and> ''/proc/sys'' \<in> Destination ` set initSysboxFsMounts
   \<and> SpecRoot (exSpec [''/bin/sh''] True ''/run/netns/c1'')
       = Some \<lparr>RootPath = ''/rootfs'', Readonly = True\<rparr>
   \<and> FsEnabled exFs"
  by (simp add: convertedReadonlyPaths_def convertedSpec_def conv_defs ex_defs Let_def cong: eval_congs)

section \<open>The launch: steps and traces\<close>

lemma ext_refl [simp]: "ext A s s"
  by (simp add: ext_def)

lemma ext_trans: "ext A s s1 \<Longrightarrow> ext A s1 s2 \<Longrightarrow> ext A s s2"
  by (auto simp: ext_def)

lemma ext_mono: "ext A s s' \<Longrightarrow> A \<subseteq> B \<Longrightarrow> ext B s s'"
  by (auto simp: ext_def)

lemma quiet_mono: "quiet A f \<Longrightarrow> A \<subseteq> B \<Longrightarrow> quiet B f"
  by (auto simp: quiet_def intro: ext_mono)

lemma quietD: "quiet A f \<Longrightarrow> f s = (r, s') \<Longrightarrow> ext A s s'"
  by (auto simp: quiet_def dest: spec [of _ s])

lemma quiet_emit: "ev \<in> A \<Longrightarrow> quiet A (emit ev)"
  by (simp add: quiet_def emit_def ext_def)

lemma quiet_call: "ev \<in> A \<Longrightarrow> quiet A (call w ev mk)"
  by (simp add: quiet_def call_def ext_def split: option.splits)

lemma quiet_runSteps: "(\<forall>f \<in> set fs. quiet A f) \<Longrightarrow> quiet A (runSteps fs)"
proof (induction fs)
  case Nil
  then show ?case by (simp add: quiet_def)
next
  case (Cons f fs)
  then have f: "quiet A f" and fs: "quiet A (runSteps fs)" by simp_all
  show ?case
    unfolding quiet_def
  proof
    fix s
    obtain r s1 where fs1: "f s = (r, s1)" by (cases "f s")
    have e1: "ext A s s1" using f fs1 by (rule quietD)
    show "ext A s (snd (runSteps (f # fs) s))"
    proof (cases r)
      case Done
      then have "runSteps (f # fs) s = runSteps fs s1" using fs1 by simp
      moreover have "ext A s1 (snd (runSteps fs s1))" using fs by (simp add: quiet_def)
      ultimately show ?thesis using e1 by (auto intro: ext_trans)
    qed (use fs1 e1 in simp_all)
  qed
qed

lemma quiet_onlyIf: "quiet A f \<Longrightarrow> quiet A (onlyIf b f)"
  by (simp add: quiet_def onlyIf_def)

lemma quiet_iff: "quiet A f \<longleftrightarrow> (\<forall>s r s'. f s = (r, s') \<longrightarrow> ext A s s')"
  unfolding quiet_def by (metis prod.collapse snd_conv)

lemma quiet_mapErr: "quiet A f \<Longrightarrow> quiet A (mapErr mk f)"
  unfolding quiet_iff mapErr_def
  by (auto split: prod.splits outcome.splits)

lemma quiet_onError: "quiet A f \<Longrightarrow> quiet A g \<Longrightarrow> quiet A (onError f g)"
  unfolding quiet_iff onError_def
  by (auto split: prod.splits outcome.splits intro: ext_trans) (metis ext_trans prod.collapse)

lemma quiet_setCmdProcess: "quiet A (setCmdProcess pr)"
  by (simp add: quiet_def setCmdProcess_def ext_def)

lemmas quiet_intros = quiet_emit quiet_call quiet_runSteps quiet_onlyIf quiet_mapErr quiet_onError
  quiet_setCmdProcess

lemma quiet_getChildPid: "quiet (- {SysFsRegister}) (getChildPid w)"
  by (auto simp: getChildPid_def intro!: quiet_intros)

lemma quiet_waitForChildExit: "quiet (- {SysFsRegister}) (waitForChildExit w)"
  by (auto simp: waitForChildExit_def intro!: quiet_intros)

lemma quiet_initWait: "quiet (- {SysFsRegister}) (initWait c w)"
  unfolding quiet_iff initWait_def
  by (auto simp: call_def onlyIf_def emit_def ext_def split: option.splits prod.splits)

lemma quiet_runAllHooks: "quiet (- {SysFsRegister}) (runAllHooks w)"
  by (auto simp: runAllHooks_def intro!: quiet_intros)

lemma quiet_registerWithSysboxfs: "quiet UNIV (registerWithSysboxfs c w)"
  unfolding quiet_iff registerWithSysboxfs_def
  by (auto simp: call_def ext_def split: option.splits if_splits)

lemma runSteps_append:
  "runSteps (fs @ gs) s = (case runSteps fs s of (Done, s') \<Rightarrow> runSteps gs s' | (r, s') \<Rightarrow> (r, s'))"
  by (induction fs arbitrary: s) (auto split: prod.splits outcome.splits)

lemma sentAfter_mono: "sentAfter w reply msg tr \<Longrightarrow> sentAfter w reply msg (tr @ evs)"
  unfolding sentAfter_def by (meson prefix_order.trans prefixI)

lemma launchInv_ext:
  assumes "launchInv w s" and "ext (- {SysFsRegister}) s s'"
  shows "launchInv w s'"
proof -
  from assms(2) obtain evs where tr: "Trace s' = Trace s @ evs" and evs: "SysFsRegister \<notin> set evs"
    and fl: "SentRun s' = SentRun s" "SentResume s' = SentResume s"
    and cp: "CmdProcess s \<noteq> None \<longrightarrow> CmdProcess s' \<noteq> None"
    by (auto simp: ext_def)
  show ?thesis
    using assms(1) evs cp unfolding launchInv_def tr fl
    by (auto intro: sentAfter_mono)
qed

lemma launchInv_ext_reg:
  assumes "launchInv w s" and "ext UNIV s s'" and "SyncRecv rootfsReady \<in> set (Trace s)"
  shows "launchInv w s'"
proof -
  from assms(2) obtain evs where tr: "Trace s' = Trace s @ evs"
    and fl: "SentRun s' = SentRun s" "SentResume s' = SentResume s"
    and cp: "CmdProcess s \<noteq> None \<longrightarrow> CmdProcess s' \<noteq> None"
    by (auto simp: ext_def)
  show ?thesis
    using assms(1,3) cp unfolding launchInv_def tr fl
    by (auto intro: sentAfter_mono)
qed

lemma ext_recv: "ext A s s' \<Longrightarrow> ev \<in> set (Trace s) \<Longrightarrow> ev \<in> set (Trace s')"
  by (auto simp: ext_def)

lemma reply_run_inv:
  assumes inv: "launchInv w s" and rc: "SyncRecv procReady \<in> set (Trace s)"
    and run: "runSteps [call w (WriteSync procRun) mk, setSentRun] s = (r, s')"
  shows "launchInv w s'"
proof (cases "w (Trace s) (WriteSync procRun)")
  case None
  then have s': "s' = s\<lparr>Trace := Trace s @ [WriteSync procRun], SentRun := True\<rparr>"
    using run by (simp add: call_def setSentRun_def)
  have "sentAfter w procRun procReady (Trace s @ [WriteSync procRun])"
    unfolding sentAfter_def using None rc by (intro exI [of _ "Trace s"]) simp
  then show ?thesis
    using inv unfolding s' launchInv_def by (auto intro: sentAfter_mono)
next
  case (Some msg)
  then have s': "s' = s\<lparr>Trace := Trace s @ [WriteSync procRun]\<rparr>"
    using run by (simp add: call_def)
  show ?thesis
    using inv unfolding s' by (rule launchInv_ext) (simp add: ext_def)
qed

lemma reply_resume_inv:
  assumes inv: "launchInv w s" and rc: "SyncRecv procHooks \<in> set (Trace s)"
    and run: "runSteps [call w (WriteSync procResume) mk, setSentResume] s = (r, s')"
  shows "launchInv w s'"
proof (cases "w (Trace s) (WriteSync procResume)")
  case None
  then have s': "s' = s\<lparr>Trace := Trace s @ [WriteSync procResume], SentResume := True\<rparr>"
    using run by (simp add: call_def setSentResume_def)
  have "sentAfter w procResume procHooks (Trace s @ [WriteSync procResume])"
    unfolding sentAfter_def using None rc by (intro exI [of _ "Trace s"]) simp
  then show ?thesis
    using inv unfolding s' launchInv_def by (auto intro: sentAfter_mono)
next
  case (Some msg)
  then have s': "s' = s\<lparr>Trace := Trace s @ [WriteSync procResume]\<rparr>"
    using run by (simp add: call_def)
  show ?thesis
    using inv unfolding s' by (rule launchInv_ext) (simp add: ext_def)
qed

text \<open>A quiet prefix of steps followed by a reply: the invariant survives.\<close>

lemma quiet_then:
  assumes q: "quiet (- {SysFsRegister}) (runSteps pre)"
    and inv: "launchInv w s" and rc: "ev \<in> set (Trace s)"
    and run: "runSteps (pre @ post) s = (r, s')"
    and post: "\<And>s1 r1 s2. launchInv w s1 \<Longrightarrow> ev \<in> set (Trace s1) \<Longrightarrow> runSteps post s1 = (r1, s2)
                 \<Longrightarrow> launchInv w s2"
  shows "launchInv w s'"
proof -
  obtain r1 s1 where pre: "runSteps pre s = (r1, s1)" by (cases "runSteps pre s")
  have e: "ext (- {SysFsRegister}) s s1" using q pre by (rule quietD)
  have i1: "launchInv w s1" using inv e by (rule launchInv_ext)
  have rc1: "ev \<in> set (Trace s1)" using e rc by (rule ext_recv)
  show ?thesis
  proof (cases r1)
    case Done
    then have "runSteps post s1 = (r, s')" using run pre by (simp add: runSteps_append)
    with i1 rc1 show ?thesis by (rule post)
  qed (use run pre i1 in \<open>simp_all add: runSteps_append\<close>)
qed

lemma initSyncHandler_inv:
  assumes inv: "launchInv w s" and rc: "SyncRecv t \<in> set (Trace s)"
    and run: "initSyncHandler c w t s = (r, s')"
  shows "launchInv w s'"
proof (cases t)
  case procReady
  let ?pre = "[call w SetupRlimits (withCause ''setting rlimits for ready process''),
        onlyIf (\<not> newMountNs c)
          (runSteps [onlyIf (hasIntelRdt c)
                       (call w RdtSet (withCause ''setting Intel RDT config for ready process'')),
                     onlyIf (hasHooks c) (runAllHooks w)]),
        emit SetCreated,
        call w UpdateState (\<lambda>_. SystemErrorWithCause None ''store init state'')]"
  let ?post = "[call w (WriteSync procRun) (withCause ''writing syncT run''), setSentRun]"
  have q: "quiet (- {SysFsRegister}) (runSteps ?pre)"
    by (auto intro!: quiet_intros quiet_runAllHooks)
  have run': "runSteps (?pre @ ?post) s = (r, s')" using run procReady by simp
  show ?thesis
    using q inv rc [unfolded procReady] run' by (rule quiet_then) (rule reply_run_inv)
next
  case procHooks
  let ?pre = "[onlyIf (hasIntelRdt c)
          (call w RdtSet (withCause ''setting Intel RDT config for procHooks process'')),
        onlyIf (hasHooks c) (runAllHooks w)]"
  let ?post = "[call w (WriteSync procResume) (withCause ''writing syncT resume''), setSentResume]"
  have q: "quiet (- {SysFsRegister}) (runSteps ?pre)"
    by (auto intro!: quiet_intros quiet_runAllHooks)
  have run': "runSteps (?pre @ ?post) s = (r, s')" using run procHooks by simp
  show ?thesis
    using q inv rc [unfolded procHooks] run' by (rule quiet_then) (rule reply_resume_inv)
next
  case rootfsReady
  have "quiet UNIV (initSyncHandler c w rootfsReady)"
    by (auto intro!: quiet_intros quiet_registerWithSysboxfs)
  then have "ext UNIV s s'" using run rootfsReady by (auto dest: quietD)
  with inv show ?thesis using rc rootfsReady by (auto intro: launchInv_ext_reg)
next
  case reqOp
  have "quiet (- {SysFsRegister}) (initSyncHandler c w reqOp)"
    by (auto intro!: quiet_intros)
  then have "ext (- {SysFsRegister}) s s'" using run reqOp by (auto dest: quietD)
  with inv show ?thesis by (rule launchInv_ext)
next
  case procFd
  have "quiet (- {SysFsRegister}) (initSyncHandler c w procFd)"
    by (auto intro!: quiet_intros)
  then have "ext (- {SysFsRegister}) s s'" using run procFd by (auto dest: quietD)
  with inv show ?thesis by (rule launchInv_ext)
qed (use run inv in auto)

lemma parseSync_inv:
  "launchInv w s \<Longrightarrow> parseSync (initSyncHandler c w) stream s = (r, s') \<Longrightarrow> launchInv w s'"
proof (induction stream arbitrary: s)
  case Nil
  then show ?case by simp
next
  case (Cons m rest)
  show ?case
  proof (cases m)
    case (Msg t)
    let ?s1 = "s\<lparr>Trace := Trace s @ [SyncRecv t]\<rparr>"
    obtain r1 s2 where h: "initSyncHandler c w t ?s1 = (r1, s2)"
      by (cases "initSyncHandler c w t ?s1")
    have i1: "launchInv w ?s1"
      using Cons.prems(1) by (rule launchInv_ext) (simp add: ext_def)
    have i2: "launchInv w s2"
      using i1 _ h by (rule initSyncHandler_inv) simp
    show ?thesis
    proof (cases r1)
      case Done
      then have "parseSync (initSyncHandler c w) rest s2 = (r, s')"
        using Cons.prems(2) Msg h by simp
      with i2 show ?thesis by (rule Cons.IH)
    qed (use Cons.prems(2) Msg h i2 in simp_all)
  qed (use Cons.prems in simp_all)
qed

lemma initSyncAndFinish_inv:
  assumes inv: "launchInv w s" and run: "initSyncAndFinish c w stream s = (r, s')"
  shows "launchInv w s' \<and> (r = Done \<longrightarrow> SentRun s' \<and> (newMountNs c \<longrightarrow> SentResume s'))"
proof -
  obtain r1 s1 where p: "parseSync (initSyncHandler c w) stream s = (r1, s1)"
    by (cases "parseSync (initSyncHandler c w) stream s")
  have i1: "launchInv w s1" using inv p by (rule parseSync_inv)
  have sh: "ext (- {SysFsRegister}) s1 (s1\<lparr>Trace := Trace s1 @ [Shutdown]\<rparr>)"
    by (simp add: ext_def)
  have i2: "launchInv w (s1\<lparr>Trace := Trace s1 @ [Shutdown]\<rparr>)"
    using i1 sh by (rule launchInv_ext)
  have i3: "launchInv w (snd (initWait c w (s1\<lparr>Trace := Trace s1 @ [Shutdown]\<rparr>)))"
    using i2 quiet_initWait [of c w] by (auto simp: quiet_def intro: launchInv_ext)
  show ?thesis
    using run p i1 i2 i3
    by (cases r1)
       (auto simp: initSyncAndFinish_def Let_def call_def split: if_splits option.splits)
qed

lemma runSteps_snoc_quiet:
  assumes q: "quiet (- {SysFsRegister}) (runSteps pre)"
    and inv: "launchInv w s" and run: "runSteps (pre @ [f]) s = (r, s')"
    and last: "\<And>s1 r1 s2. launchInv w s1 \<Longrightarrow> f s1 = (r1, s2) \<Longrightarrow> launchInv w s2 \<and> P r1 s2"
    and fail: "\<And>s1. r \<noteq> Done \<longrightarrow> P r s1"
  shows "launchInv w s' \<and> P r s'"
proof -
  obtain r1 s1 where pre: "runSteps pre s = (r1, s1)" by (cases "runSteps pre s")
  have i1: "launchInv w s1" using inv quietD [OF q pre] by (rule launchInv_ext)
  show ?thesis
  proof (cases r1)
    case Done
    then have "f s1 = (r, s')"
      using run pre by (cases "f s1") (auto simp: runSteps_append split: outcome.splits)
    with i1 show ?thesis by (rule last)
  qed (use run pre i1 fail in \<open>auto simp: runSteps_append\<close>)
qed

lemma initStartBody_inv:
  assumes inv: "launchInv w s" and run: "initStartBody c w stream s = (r, s')"
  shows "launchInv w s' \<and> (r = Done \<longrightarrow> SentRun s' \<and> (newMountNs c \<longrightarrow> SentResume s'))"
proof -
  let ?pre = "[call w ManagerApply (withCause ''applying cgroup configuration for process''),
        call w ManagerSet (withCause ''setting cgroup config for ready process''),
        onlyIf (isV1 c) (call w ManagerCreateChildCgroup (withCause ''creating container child cgroup'')),
        mapErr (withCause ''setup up dev subdir under rootfs'')
          (call w MkdirDev (withCause ''creating dev subdir under rootfs'')),
        onlyIf (hasIntelRdt c)
          (call w (RdtApply Bootstrapper) (withCause ''applying Intel RDT configuration for process'')),
        call w CopyBootstrapData (withCause ''copying bootstrap data to pipe''),
        mapErr (withCause ''getting the final child pid from pipe'') (getChildPid w),
        call w GetPipeFds (withCause ''getting pipe fds for pid''),
        onlyIf (isV1 c)
          (call w ManagerApplyChildCgroup (withCause ''applying cgroup configuration for process'')),
        onlyIf (hasIntelRdt c)
          (call w (RdtApply FinalChild) (withCause ''applying Intel RDT configuration for process'')),
        onlyIf (newCgroupNs c)
          (call w WriteCreateCgroupns (withCause ''sending synchronization value to init process'')),
        mapErr (withCause ''waiting for our first child to exit'') (waitForChildExit w),
        call w CreateNetworkInterfaces (withCause ''creating network interfaces''),
        call w CurrentOCIState (withCause ''updating the spec state''),
        call w SendConfig (withCause ''sending config to init process'')]"
  have q: "quiet (- {SysFsRegister}) (runSteps ?pre)"
    by (auto intro!: quiet_intros quiet_getChildPid quiet_waitForChildExit)
  have run': "runSteps (?pre @ [initSyncAndFinish c w stream]) s = (r, s')"
    using run by (simp add: initStartBody_def)
  show ?thesis
    using q inv run'
    by (rule runSteps_snoc_quiet [where P = "\<lambda>r s'. r = Done \<longrightarrow> SentRun s' \<and> (newMountNs c \<longrightarrow> SentResume s')"])
       (auto dest: initSyncAndFinish_inv)
qed

section \<open>The init launch\<close>

lemma initRollback_trace:
  "CmdProcess s = Some pr \<Longrightarrow> Trace (initRollback c w s) = Trace s @ rollbackEvents c pr"
  by (simp add: initRollback_def initTerminate_def initWait_def call_def emit_def onlyIf_def
        rollbackEvents_def split: option.splits)

lemma initStart_started:
  assumes "w [] CmdStart = None"
  shows "initStart c w stream =
     (case initStartBody c w stream
             \<lparr>Trace = [CmdStart, CloseChildSock, CloseChildLog], CmdProcess = Some Bootstrapper,
              SentRun = False, SentResume = False\<rparr> of
        (Failed err, s2) \<Rightarrow> (Failed err, snd (emit CloseParentSock (initRollback c w s2)))
      | (r, s2) \<Rightarrow> (r, snd (emit CloseParentSock s2)))"
  using assms by (simp add: initStart_def call_def initState_def emit_def Let_def)

lemma initStart_not_started:
  assumes "w [] CmdStart = Some msg"
  shows "fst (initStart c w stream) \<noteq> Done"
  using assms by (simp add: initStart_def call_def initState_def emit_def Let_def)

lemma launchInv_start:
  "launchInv w \<lparr>Trace = [CmdStart, CloseChildSock, CloseChildLog], CmdProcess = Some Bootstrapper,
              SentRun = False, SentResume = False\<rparr>"
  by (simp add: launchInv_def)

text \<open>
  C7.  When the bootstrapper was started and \<open>start\<close> returns an error, the trace ends
  with the rollback: kill of the process \<open>cmd\<close> refers to, wait (with the signal to the
  cgroup under a shared pid namespace), \<open>manager.Destroy\<close>, \<open>intelRdtManager.Destroy\<close> when
  that manager is set, and the close of the parent socket.  If no \<open>rootfsReady\<close> message
  was received, no registration call to the filesystem virtualizer is in the trace.
\<close>

theorem initStart_rolls_back:
  assumes "initStart c w stream = (Failed err, s)" and "w [] CmdStart = None"
  shows "(\<exists>tr pr. Trace s = tr @ rollbackEvents c pr @ [CloseParentSock])
       \<and> (SyncRecv rootfsReady \<notin> set (Trace s) \<longrightarrow> SysFsRegister \<notin> set (Trace s))"
proof -
  let ?s0 = "\<lparr>Trace = [CmdStart, CloseChildSock, CloseChildLog], CmdProcess = Some Bootstrapper,
              SentRun = False, SentResume = False\<rparr>"
  obtain r2 s2 where body: "initStartBody c w stream ?s0 = (r2, s2)"
    by (cases "initStartBody c w stream ?s0")
  have inv: "launchInv w s2"
    using launchInv_start body initStartBody_inv by blast
  then obtain pr where pr: "CmdProcess s2 = Some pr" by (auto simp: launchInv_def)
  from assms body have r2: "r2 = Failed err" and s: "s = snd (emit CloseParentSock (initRollback c w s2))"
    by (auto simp: initStart_started split: outcome.splits)
  have tr: "Trace s = Trace s2 @ rollbackEvents c pr @ [CloseParentSock]"
    using s initRollback_trace [OF pr] by (simp add: emit_def)
  have "SysFsRegister \<notin> set (rollbackEvents c pr @ [CloseParentSock])"
    by (simp add: rollbackEvents_def)
  then have "SysFsRegister \<in> set (Trace s) \<longrightarrow> SyncRecv rootfsReady \<in> set (Trace s)"
    using inv unfolding tr launchInv_def by auto
  then show ?thesis using tr by blast
qed

text \<open>
  A launch that returns without error has received \<open>procReady\<close> and written \<open>procRun\<close>
  successfully after it, and likewise \<open>procHooks\<close> and \<open>procResume\<close> under a new mount
  namespace.
\<close>

lemma initStart_Done_sent:
  assumes "initStart c w stream = (Done, s)"
  shows "SyncRecv procReady \<in> set (Trace s) \<and> sentAfter w procRun procReady (Trace s)
       \<and> (newMountNs c \<longrightarrow>
            SyncRecv procHooks \<in> set (Trace s) \<and> sentAfter w procResume procHooks (Trace s))"
proof -
  let ?s0 = "\<lparr>Trace = [CmdStart, CloseChildSock, CloseChildLog], CmdProcess = Some Bootstrapper,
              SentRun = False, SentResume = False\<rparr>"
  have started: "w [] CmdStart = None"
    using assms initStart_not_started [of w _ c stream] by (cases "w [] CmdStart") auto
  obtain r2 s2 where body: "initStartBody c w stream ?s0 = (r2, s2)"
    by (cases "initStartBody c w stream ?s0")
  from assms body started have r2: "r2 = Done" and s: "s = snd (emit CloseParentSock s2)"
    by (auto simp: initStart_started split: outcome.splits)
  from initStartBody_inv [OF launchInv_start body] r2
  have inv: "launchInv w s2" and fl: "SentRun s2" "newMountNs c \<longrightarrow> SentResume s2"
    by simp_all
  have tr: "Trace s = Trace s2 @ [CloseParentSock]" using s by (simp add: emit_def)
  have run: "sentAfter w procRun procReady (Trace s)"
    using inv fl(1) unfolding tr launchInv_def by (auto intro: sentAfter_mono)
  have res: "newMountNs c \<longrightarrow> sentAfter w procResume procHooks (Trace s)"
    using inv fl(2) unfolding tr launchInv_def by (auto intro: sentAfter_mono)
  have recv: "SyncRecv msg \<in> set tr'" if "sentAfter w reply msg tr'" for reply msg tr'
    using that unfolding sentAfter_def by (auto simp: prefix_def)
  show ?thesis
    using run res recv by blast
qed


lemmas launch_defs = initStart_def initStartBody_def initSyncAndFinish_def initRollback_def
  initTerminate_def initWait_def registerWithSysboxfs_def runAllHooks_def getChildPid_def
  waitForChildExit_def setCmdProcess_def setSentRun_def setSentResume_def call_def emit_def
  onlyIf_def mapErr_def onError_def withCause_def initState_def isV1_def isV2_def

lemma ex_launch_sendConfig_fails:
  "initStart exInitCfg worldSendConfigFails exStream =
     (Failed (SystemErrorWithCause (Some (Plain ''broken pipe'')) ''sending config to init process''),
      \<lparr>Trace = [CmdStart, CloseChildSock, CloseChildLog, ManagerApply, ManagerSet, MkdirDev,
                RdtApply Bootstrapper, CopyBootstrapData, DecodePid, ReapFirstChild, GetPipeFds,
                RdtApply FinalChild, WriteCreateCgroupns, ProcessWait, ExitStatus, FindProcess,
                CreateNetworkInterfaces, CurrentOCIState, SendConfig,
                ProcessKill FinalChild, CmdWait, ManagerDestroy, RdtDestroy, CloseParentSock],
       CmdProcess = Some FinalChild, SentRun = False, SentResume = False\<rparr>)"
  by (simp add: launch_defs exInitCfg_def worldSendConfigFails_def exStream_def)

theorem initStart_rolls_back_witness:
  "Trace (snd (initStart exInitCfg worldSendConfigFails exStream))
     = [CmdStart, CloseChildSock, CloseChildLog, ManagerApply, ManagerSet, MkdirDev,
        RdtApply Bootstrapper, CopyBootstrapData, DecodePid, ReapFirstChild, GetPipeFds,
        RdtApply FinalChild, WriteCreateCgroupns, ProcessWait, ExitStatus, FindProcess,
        CreateNetworkInterfaces, CurrentOCIState, SendConfig]
       @ rollbackEvents exInitCfg FinalChild @ [CloseParentSock]
   \<and> SysFsRegister \<notin> set (Trace (snd (initStart exInitCfg worldSendConfigFails exStream)))"
proof -
  have started: "worldSendConfigFails [] CmdStart = None"
    by (simp add: worldSendConfigFails_def)
  from initStart_rolls_back [OF ex_launch_sendConfig_fails started]
  have "SysFsRegister \<notin> set (Trace (snd (initStart exInitCfg worldSendConfigFails exStream)))"
    by (simp add: ex_launch_sendConfig_fails)
  moreover have "rollbackEvents exInitCfg FinalChild = [ProcessKill FinalChild, CmdWait, ManagerDestroy, RdtDestroy]"
    by (simp add: rollbackEvents_def exInitCfg_def)
  ultimately show ?thesis
    by (simp add: ex_launch_sendConfig_fails)
qed

lemma ex_launch_ok:
  "fst (initStart exInitCfg worldOk exStream) = Done"
  by (simp add: launch_defs exInitCfg_def worldOk_def exStream_def)

lemma initStartBody_split:
  "initStartBody c w stream = runSteps (initSetupSteps c w @ [initSyncAndFinish c w stream])"
  by (simp add: initStartBody_def initSetupSteps_def)

lemma quiet_initSetupSteps: "quiet (- {SysFsRegister}) (runSteps (initSetupSteps c w))"
  unfolding initSetupSteps_def
  by (auto intro!: quiet_intros quiet_getChildPid quiet_waitForChildExit)

lemma launchInv_startedState: "launchInv w startedState"
  by (simp add: launchInv_def startedState_def)

lemma initStart_reaches_loop:
  assumes "w [] CmdStart = None" and "runSteps (initSetupSteps c w) startedState = (Done, sL)"
  shows "initStart c w stream =
     (case initSyncAndFinish c w stream sL of
        (Failed err, s2) \<Rightarrow> (Failed err, snd (emit CloseParentSock (initRollback c w s2)))
      | (r, s2) \<Rightarrow> (r, snd (emit CloseParentSock s2)))"
proof -
  have "initStartBody c w stream startedState = initSyncAndFinish c w stream sL"
    using assms(2)
    by (cases "initSyncAndFinish c w stream sL")
       (auto simp: initStartBody_split runSteps_append split: outcome.splits)
  then show ?thesis
    using initStart_started [of w c stream] assms(1) by (simp add: startedState_def)
qed

lemma initSyncAndFinish_no_run:
  assumes "parseSync (initSyncHandler c w) stream sL = (r1, s1)" and "\<forall>m. r1 \<noteq> Panics m"
  shows "(\<not> SentRun s1 \<longrightarrow>
            initSyncAndFinish c w stream sL
              = (Failed (SystemErrorWithCause (syncError r1) ''container init''), s1))
       \<and> (SentRun s1 \<and> newMountNs c \<and> \<not> SentResume s1 \<longrightarrow>
            initSyncAndFinish c w stream sL
              = (Failed (SystemError (Plain
                  ''could not synchronise after executing prestart and CreateRuntime hooks with container process'')), s1))"
  using assms by (cases r1) (simp_all add: initSyncAndFinish_def syncError_def Let_def)

text \<open>
  C8.  When \<open>start\<close> returns without error, a \<open>procReady\<close> message was received and,
  after it, \<open>procRun\<close> was written to the child successfully; when the configuration has a
  new mount namespace, a \<open>procHooks\<close> message was received and \<open>procResume\<close> was written
  successfully after it.  And when the launch reaches the sync loop and the loop ends
  (the stream ends, or the handler or the child reports an error): without a received
  \<open>procReady\<close> the flag \<open>sentRun\<close> is not set and \<open>start\<close> returns the error
  \<open>container init\<close> around what the loop returned; with \<open>sentRun\<close> set, a new mount
  namespace and no \<open>procResume\<close> sent (in particular without a received \<open>procHooks\<close>),
  \<open>start\<close> returns the error of the missed synchronisation.
\<close>

theorem initStart_success_needs_procReady:
  "(initStart c w stream = (Done, s) \<longrightarrow>
       SyncRecv procReady \<in> set (Trace s) \<and> sentAfter w procRun procReady (Trace s)
     \<and> (newMountNs c \<longrightarrow>
            SyncRecv procHooks \<in> set (Trace s) \<and> sentAfter w procResume procHooks (Trace s)))
   \<and> (w [] CmdStart = None
      \<and> runSteps (initSetupSteps c w) startedState = (Done, sL)
      \<and> parseSync (initSyncHandler c w) stream sL = (r1, s1) \<and> (\<forall>m. r1 \<noteq> Panics m) \<longrightarrow>
        (SyncRecv procReady \<notin> set (Trace s1) \<longrightarrow> \<not> SentRun s1)
      \<and> (SyncRecv procHooks \<notin> set (Trace s1) \<longrightarrow> \<not> SentResume s1)
      \<and> (\<not> SentRun s1 \<longrightarrow>
            fst (initStart c w stream) = Failed (SystemErrorWithCause (syncError r1) ''container init''))
      \<and> (SentRun s1 \<and> newMountNs c \<and> \<not> SentResume s1 \<longrightarrow>
            fst (initStart c w stream)
              = Failed (SystemError (Plain
                  ''could not synchronise after executing prestart and CreateRuntime hooks with container process''))))"
proof (intro conjI impI)
  assume "initStart c w stream = (Done, s)"
  from initStart_Done_sent [OF this]
  show "SyncRecv procReady \<in> set (Trace s)" "sentAfter w procRun procReady (Trace s)"
    by simp_all
next
  assume "initStart c w stream = (Done, s)" "newMountNs c"
  with initStart_Done_sent [of c w stream s]
  show "SyncRecv procHooks \<in> set (Trace s)" "sentAfter w procResume procHooks (Trace s)"
    by simp_all
next
  assume h: "w [] CmdStart = None \<and> runSteps (initSetupSteps c w) startedState = (Done, sL)
      \<and> parseSync (initSyncHandler c w) stream sL = (r1, s1) \<and> (\<forall>m. r1 \<noteq> Panics m)"
  then have started: "w [] CmdStart = None"
    and reach: "runSteps (initSetupSteps c w) startedState = (Done, sL)"
    and loop: "parseSync (initSyncHandler c w) stream sL = (r1, s1)"
    and np: "\<forall>m. r1 \<noteq> Panics m"
    by simp_all
  have "launchInv w sL"
    using launchInv_startedState quietD [OF quiet_initSetupSteps reach] by (rule launchInv_ext)
  then have inv: "launchInv w s1" using loop by (rule parseSync_inv)
  have recv: "SyncRecv msg \<in> set tr'" if "sentAfter w reply msg tr'" for reply msg tr'
    using that unfolding sentAfter_def by (auto simp: prefix_def)
  show "\<not> SentRun s1" if "SyncRecv procReady \<notin> set (Trace s1)"
    using inv that recv unfolding launchInv_def by blast
  show "\<not> SentResume s1" if "SyncRecv procHooks \<notin> set (Trace s1)"
    using inv that recv unfolding launchInv_def by blast
  note fin = initSyncAndFinish_no_run [OF loop np]
  note st = initStart_reaches_loop [OF started reach, where stream = stream]
  show "fst (initStart c w stream) = Failed (SystemErrorWithCause (syncError r1) ''container init'')"
    if "\<not> SentRun s1"
    using that fin by (simp add: st)
  show "fst (initStart c w stream)
              = Failed (SystemError (Plain
                  ''could not synchronise after executing prestart and CreateRuntime hooks with container process''))"
    if "SentRun s1 \<and> newMountNs c \<and> \<not> SentResume s1"
    using that fin by (simp add: st)
qed

lemma ex_setup_ok:
  "fst (runSteps (initSetupSteps exInitCfg worldOk) startedState) = Done"
  by (simp add: initSetupSteps_def startedState_def launch_defs exInitCfg_def worldOk_def)

lemma ex_loop_without_procReady:
  "parseSync (initSyncHandler exInitCfg worldOk) [Msg rootfsReady]
     (snd (runSteps (initSetupSteps exInitCfg worldOk) startedState))
   = (Done, \<lparr>Trace = [CmdStart, CloseChildSock, CloseChildLog, ManagerApply, ManagerSet, MkdirDev,
                RdtApply Bootstrapper, CopyBootstrapData, DecodePid, ReapFirstChild, GetPipeFds,
                RdtApply FinalChild, WriteCreateCgroupns, ProcessWait, ExitStatus, FindProcess,
                CreateNetworkInterfaces, CurrentOCIState, SendConfig,
                SyncRecv rootfsReady, ManagerCreateChildCgroup, ManagerApplyChildCgroup, SysFsRegister,
                WriteSync rootfsReadyAck],
              CmdProcess = Some FinalChild, SentRun = False, SentResume = False\<rparr>)"
  by (simp add: initSetupSteps_def startedState_def launch_defs exInitCfg_def worldOk_def)

lemma ex_loop_without_procHooks:
  "parseSync (initSyncHandler exInitCfg worldOk) [Msg procReady]
     (snd (runSteps (initSetupSteps exInitCfg worldOk) startedState))
   = (Done, \<lparr>Trace = [CmdStart, CloseChildSock, CloseChildLog, ManagerApply, ManagerSet, MkdirDev,
                RdtApply Bootstrapper, CopyBootstrapData, DecodePid, ReapFirstChild, GetPipeFds,
                RdtApply FinalChild, WriteCreateCgroupns, ProcessWait, ExitStatus, FindProcess,
                CreateNetworkInterfaces, CurrentOCIState, SendConfig,
                SyncRecv procReady, SetupRlimits, SetCreated, UpdateState, WriteSync procRun],
              CmdProcess = Some FinalChild, SentRun = True, SentResume = False\<rparr>)"
  by (simp add: initSetupSteps_def startedState_def launch_defs exInitCfg_def worldOk_def)

theorem initStart_success_needs_procReady_witness:
  "fst (initStart exInitCfg worldOk exStream) = Done
   \<and> sentAfter worldOk procRun procReady (Trace (snd (initStart exInitCfg worldOk exStream)))
   \<and> sentAfter worldOk procResume procHooks (Trace (snd (initStart exInitCfg worldOk exStream)))
   \<and> fst (initStart exInitCfg worldOk [Msg rootfsReady])
       = Failed (SystemErrorWithCause None ''container init'')
   \<and> fst (initStart exInitCfg worldOk [Msg procReady])
       = Failed (SystemError (Plain
           ''could not synchronise after executing prestart and CreateRuntime hooks with container process''))"
proof -
  let ?sL = "snd (runSteps (initSetupSteps exInitCfg worldOk) startedState)"
  have eq: "initStart exInitCfg worldOk exStream = (Done, snd (initStart exInitCfg worldOk exStream))"
    using ex_launch_ok by (cases "initStart exInitCfg worldOk exStream") simp
  have ns: "newMountNs exInitCfg" by (simp add: exInitCfg_def)
  have started: "worldOk [] CmdStart = None" by (simp add: worldOk_def)
  have reach: "runSteps (initSetupSteps exInitCfg worldOk) startedState = (Done, ?sL)"
    using ex_setup_ok by (cases "runSteps (initSetupSteps exInitCfg worldOk) startedState") simp
  have np: "\<forall>m. Done \<noteq> Panics m" by simp
  have se: "syncError Done = None" by (simp add: syncError_def)
  note a = initStart_success_needs_procReady
             [of exInitCfg worldOk exStream "snd (initStart exInitCfg worldOk exStream)"]
  note b = initStart_success_needs_procReady
             [of exInitCfg worldOk "[Msg rootfsReady]" _ ?sL Done, THEN conjunct2, rule_format,
              OF conjI [OF started conjI [OF reach conjI [OF ex_loop_without_procReady np]]]]
  note c = initStart_success_needs_procReady
             [of exInitCfg worldOk "[Msg procReady]" _ ?sL Done, THEN conjunct2, rule_format,
              OF conjI [OF started conjI [OF reach conjI [OF ex_loop_without_procHooks np]]]]
  from a eq ns ex_launch_ok have "sentAfter worldOk procRun procReady (Trace (snd (initStart exInitCfg worldOk exStream)))"
    and "sentAfter worldOk procResume procHooks (Trace (snd (initStart exInitCfg worldOk exStream)))"
    by simp_all
  moreover from b se have "fst (initStart exInitCfg worldOk [Msg rootfsReady])
       = Failed (SystemErrorWithCause None ''container init'')"
    by simp
  moreover from c ns have "fst (initStart exInitCfg worldOk [Msg procReady])
       = Failed (SystemError (Plain
           ''could not synchronise after executing prestart and CreateRuntime hooks with container process''))"
    by simp
  ultimately show ?thesis using ex_launch_ok by simp
qed

section \<open>The setns launch: entering the cgroups\<close>

text \<open>
  C9, as the code has it.  The placement step returns normally exactly when there are no
  cgroup paths, or \<open>EnterPid\<close> succeeds, or it fails under rootless cgroups (the failure is
  ignored), or it fails with any error under cgroup v2 unified mode and the cgroup file
  of the init process parses, has the unified entry, and the write of the pid into that
  cgroup directory succeeds.  Otherwise it returns the error with the cause of the
  placement, and the launch stops at this step with that error.
\<close>

theorem enterCgroups_recovery:
  assumes "enterCgroups c w s = (r, s')"
  shows "(r = Done \<longleftrightarrow>
            \<not> hasCgroupPaths c
          \<or> w (Trace s) EnterPid = None
          \<or> rootlessCgroups c
          \<or> (cgroup2UnifiedMode c \<and> w (Trace s @ [EnterPid]) ParseCgroupFile = None
              \<and> initCgHasUnifiedEntry c
              \<and> w (Trace s @ [EnterPid, ParseCgroupFile]) WriteCgroupProc = None))
       \<and> (r \<noteq> Done \<longrightarrow>
            (\<exists>m. r = Failed (SystemErrorWithCause (Some (Plain m)) ''adding pid to cgroups''))
          \<and> runSteps (enterCgroups c w # rest) s = (r, s'))"
  using assms
  by (auto simp: enterCgroups_def Let_def withCause_def split: if_splits option.splits)

lemmas setns_defs = setnsStart_def setnsStartBody_def setnsSyncAndFinish_def setnsTerminate_def
  execSetns_def enterCgroups_def applyIntelRdt_def setCmdProcess_def call_def emit_def
  onlyIf_def mapErr_def onError_def withCause_def initState_def

theorem enterCgroups_recovery_witness:
  "enterCgroups exSetnsCfg (worldEnterPidFails ''device or resource busy'') initState
     = (Done, initState\<lparr>Trace := [EnterPid, ParseCgroupFile, WriteCgroupProc]\<rparr>)
   \<and> (\<exists>m. fst (enterCgroups (exSetnsCfg\<lparr>cgroup2UnifiedMode := False\<rparr>)
                  (worldEnterPidFails ''device or resource busy'') initState)
            = Failed (SystemErrorWithCause (Some (Plain m)) ''adding pid to cgroups''))"
proof -
  let ?w = "worldEnterPidFails ''device or resource busy''"
  let ?c = "exSetnsCfg\<lparr>cgroup2UnifiedMode := False\<rparr>"
  have a: "enterCgroups exSetnsCfg ?w initState
             = (Done, initState\<lparr>Trace := [EnterPid, ParseCgroupFile, WriteCgroupProc]\<rparr>)"
    by (simp add: enterCgroups_def exSetnsCfg_def worldEnterPidFails_def initState_def Let_def)
  have b: "enterCgroups ?c ?w initState
             = (fst (enterCgroups ?c ?w initState), snd (enterCgroups ?c ?w initState))"
    by simp
  have nd: "fst (enterCgroups ?c ?w initState) \<noteq> Done"
    using enterCgroups_recovery [OF b, of "[]"]
    by (simp add: exSetnsCfg_def worldEnterPidFails_def initState_def)
  show ?thesis
    using a enterCgroups_recovery [OF b, of "[]"] nd by blast
qed

text \<open>
  C9 as stated fails: a placement failure that is not EBUSY is recovered in the same
  way, and the launch returns without error.
\<close>

theorem setnsStart_recovers_from_any_error:
  "setnsStart exSetnsCfg (worldEnterPidFails ''permission denied'') []
     = (Done,
        \<lparr>Trace = [CmdStart, CloseChildSock, CloseChildLog, CopyBootstrapData, ProcessWait, ExitStatus,
                  DecodePid, ReapFirstChild, FindProcess, EnterPid, ParseCgroupFile, WriteCgroupProc,
                  SetupRlimits, SendConfig, Shutdown, CloseParentSock],
         CmdProcess = Some FinalChild, SentRun = False, SentResume = False\<rparr>)
   \<and> worldEnterPidFails ''permission denied''
        [CmdStart, CloseChildSock, CloseChildLog, CopyBootstrapData, ProcessWait, ExitStatus,
         DecodePid, ReapFirstChild, FindProcess] EnterPid = Some ''permission denied''"
  by (simp add: setns_defs exSetnsCfg_def worldEnterPidFails_def)

text \<open>Under rootless cgroups a placement failure is ignored, whatever the cgroup mode.\<close>

lemma setnsStart_rootless_ignores_failure:
  "fst (setnsStart (exSetnsCfg\<lparr>rootlessCgroups := True, cgroup2UnifiedMode := False\<rparr>)
          (worldEnterPidFails ''permission denied'') []) = Done"
  by (simp add: setns_defs exSetnsCfg_def worldEnterPidFails_def)

end
